(* ===== verification/Prelude.thy ===== *)
theory Prelude
  imports Main "HOL-Library.AList" "HOL-Library.Sublist"
begin

text \<open>
  What every component of the development shares.

  \<^item> Go's maps are association lists (\<open>gomap\<close>): \<open>mget\<close> looks a key up, \<open>mput\<close> is
    \<open>m[k] = v\<close>, \<open>mdel\<close> is \<open>delete(m, k)\<close>. Go leaves the iteration order of a map
    unspecified; here it is the order of the list, and since any order of the pairs is a
    state, what is proved holds for every order. \<open>mkeys_distinct\<close> is the invariant that no
    key is bound twice.
  \<^item> \<open>outcome\<close> is what a piece of Go code that can fail to return does: return, panic, or
    block for ever on a lock it holds itself.
  \<^item> \<open>wrap64\<close> is the two's complement reading of an \<open>int\<close> computed at 64 bits.
  \<^item> \<open>invariant_machine\<close> is the contract of a component whose operations keep an invariant,
    \<open>outcome_machine\<close> the one of a component whose operations may also panic or block;
    the components interpret them on their own operations.
\<close>

named_theorems component_defs "definitions of a component's operations, unfolded together"
named_theorems inv_intros "invariant preservation, one rule per operation"

section \<open>Maps\<close>

type_synonym ('k, 'v) gomap = "('k \<times> 'v) list"

abbreviation mget :: "('k, 'v) gomap \<Rightarrow> 'k \<Rightarrow> 'v option" where
  "mget m k \<equiv> map_of m k"

abbreviation mput :: "'k \<Rightarrow> 'v \<Rightarrow> ('k, 'v) gomap \<Rightarrow> ('k, 'v) gomap" where
  "mput k v m \<equiv> AList.update k v m"

abbreviation mdel :: "'k \<Rightarrow> ('k, 'v) gomap \<Rightarrow> ('k, 'v) gomap" where
  "mdel k m \<equiv> AList.delete k m"

definition mhas :: "('k, 'v) gomap \<Rightarrow> 'k \<Rightarrow> bool" where
  "mhas m k = (mget m k \<noteq> None)"

definition mget_or :: "'v \<Rightarrow> ('k, 'v) gomap \<Rightarrow> 'k \<Rightarrow> 'v" where
  \<comment> \<open>\<open>m[k]\<close> used as a value: the zero value of the element type where the key is missing.\<close>
  "mget_or z m k = (case mget m k of None \<Rightarrow> z | Some v \<Rightarrow> v)"

definition mkeys_distinct :: "('k, 'v) gomap \<Rightarrow> bool" where
  "mkeys_distinct m = distinct (map fst m)"

lemma mget_mput [simp]: "mget (mput k v m) k' = (if k' = k then Some v else mget m k')"
  by (simp add: update_conv)

lemma mget_mdel [simp]: "mget (mdel k m) k' = (if k' = k then None else mget m k')"
  by (simp add: delete_conv)

lemma mget_or_mput [simp]: "mget_or z (mput k v m) k' = (if k' = k then v else mget_or z m k')"
  by (simp add: mget_or_def)

lemma mkeys_distinct_Nil [simp]: "mkeys_distinct []"
  by (simp add: mkeys_distinct_def)

lemma mkeys_distinct_mput [simp]: "mkeys_distinct m \<Longrightarrow> mkeys_distinct (mput k v m)"
  by (simp add: mkeys_distinct_def distinct_update)

lemma mkeys_distinct_mdel [simp]: "mkeys_distinct m \<Longrightarrow> mkeys_distinct (mdel k m)"
  by (simp add: mkeys_distinct_def distinct_delete)

lemma mkeys_distinct_filter [simp]: "mkeys_distinct m \<Longrightarrow> mkeys_distinct (filter P m)"
  by (simp add: mkeys_distinct_def distinct_map_filter)

lemma mget_iff_mem:
  assumes "mkeys_distinct m"
  shows "mget m k = Some v \<longleftrightarrow> (k, v) \<in> set m"
  using assms by (simp add: mkeys_distinct_def)

lemma mget_Some_mem: "mget m k = Some v \<Longrightarrow> (k, v) \<in> set m"
  by (rule map_of_SomeD)

lemma mget_filter_value:
  assumes "mkeys_distinct m"
  shows "mget (filter (\<lambda>p. P (snd p)) m) k =
    (case mget m k of None \<Rightarrow> None | Some v \<Rightarrow> if P v then Some v else None)"
proof (cases "mget m k")
  case None
  then have "k \<notin> fst ` set (filter (\<lambda>p. P (snd p)) m)"
    by (force simp: map_of_eq_None_iff)
  then have "mget (filter (\<lambda>p. P (snd p)) m) k = None"
    by (simp only: map_of_eq_None_iff not_False_eq_True)
  with None show ?thesis by simp
next
  case (Some v)
  then have mem: "(k, v) \<in> set m" by (rule mget_Some_mem)
  show ?thesis
  proof (cases "P v")
    case True
    with mem Some assms show ?thesis
      using mget_iff_mem [of "filter (\<lambda>p. P (snd p)) m" k v] by simp
  next
    case False
    have "k \<notin> fst ` set (filter (\<lambda>p. P (snd p)) m)"
    proof
      assume "k \<in> fst ` set (filter (\<lambda>p. P (snd p)) m)"
      then obtain v' where "(k, v') \<in> set m" "P v'" by auto
      with assms Some False show False by (auto simp flip: mget_iff_mem)
    qed
    then have "mget (filter (\<lambda>p. P (snd p)) m) k = None"
      by (simp only: map_of_eq_None_iff not_False_eq_True)
    with Some False show ?thesis by simp
  qed
qed

lemma set_mput_subset: "set (mput k v m) \<subseteq> insert (k, v) (set m)"
  by (induction m) auto

lemma set_mdel_subset: "set (mdel k m) \<subseteq> set m"
  by (auto simp: AList.delete_eq)

lemma mput_fresh: "k \<notin> fst ` set m \<Longrightarrow> mput k v m = m @ [(k, v)]"
  by (induction m) auto

lemma length_mput_le: "length (mput k v m) \<le> Suc (length m)"
  by (induction m) auto

lemma length_mdel_le: "length (mdel k m) \<le> length m"
  by (simp add: AList.delete_eq)

section \<open>Outcomes\<close>

datatype 'a outcome = Ret 'a | Panic | Blocked

fun obind :: "'a outcome \<Rightarrow> ('a \<Rightarrow> 'b outcome) \<Rightarrow> 'b outcome" where
  "obind (Ret x) f = f x"
| "obind Panic f = Panic"
| "obind Blocked f = Blocked"

lemma obind_Ret_iff: "obind x f = Ret y \<longleftrightarrow> (\<exists>z. x = Ret z \<and> f z = Ret y)"
  by (cases x) auto

lemma obind_assoc: "obind (obind x f) g = obind x (\<lambda>y. obind (f y) g)"
  by (cases x) auto

section \<open>64-bit integers\<close>

definition wrap64 :: "int \<Rightarrow> int" where
  "wrap64 x = (x + 2 ^ 63) mod 2 ^ 64 - 2 ^ 63"

definition in_int64 :: "int \<Rightarrow> bool" where
  "in_int64 x = (- (2 ^ 63) \<le> x \<and> x < 2 ^ 63)"

lemma wrap64_id [simp]: "in_int64 x \<Longrightarrow> wrap64 x = x"
  by (simp add: wrap64_def in_int64_def)

lemma in_int64_wrap64 [simp]: "in_int64 (wrap64 x)"
proof -
  have "0 \<le> (x + 2 ^ 63) mod 2 ^ 64" and "(x + 2 ^ 63) mod 2 ^ 64 < 2 ^ 64"
    by simp_all
  then show ?thesis by (simp add: wrap64_def in_int64_def)
qed

section \<open>Lists\<close>

definition take_last :: "nat \<Rightarrow> 'a list \<Rightarrow> 'a list" where
  \<comment> \<open>\<open>xs[len(xs)-n:]\<close>, or all of \<open>xs\<close> where it is shorter than \<open>n\<close>.\<close>
  "take_last n xs = drop (length xs - n) xs"

lemma length_take_last [simp]: "length (take_last n xs) = min n (length xs)"
  by (simp add: take_last_def)

lemma take_last_all [simp]: "length xs \<le> n \<Longrightarrow> take_last n xs = xs"
  by (simp add: take_last_def)

lemma suffix_take_last: "suffix (take_last n xs) xs"
  by (simp add: take_last_def suffix_drop)

lemma take_last_snoc:
  "take_last (Suc n) (xs @ [x]) = take_last n xs @ [x]"
  by (simp add: take_last_def)

lemma take_last_rev: "take_last n xs = rev (take n (rev xs))"
  by (simp add: take_last_def take_rev)

lemma take_last_take_last: "m \<le> n \<Longrightarrow> take_last m (take_last n xs) = take_last m xs"
  by (simp add: take_last_rev min_absorb1)

lemma take_last_append_take_last:
  assumes "length ys \<le> n"
  shows "take_last n (take_last n xs @ ys) = take_last n (xs @ ys)"
  using assms by (simp add: take_last_rev take_append)

lemma suffix_filter: "suffix xs ys \<Longrightarrow> suffix (filter P xs) (filter P ys)"
  by (auto simp: suffix_def)

lemma suffix_take_lastI:
  assumes "suffix xs ys" and "length xs \<le> n"
  shows "suffix xs (take_last n ys)"
proof -
  obtain zs where "ys = zs @ xs" using assms(1) by (auto simp: suffix_def)
  with assms(2) show ?thesis
    by (cases "length ys \<le> n") (auto simp: take_last_def suffix_def drop_append)
qed

section \<open>Components whose operations keep an invariant\<close>

text \<open>
  A component offers operations (\<open>step\<close>, one per element of the operation type) and
  promises that each of them keeps its invariant. Then every finite sequence of calls keeps
  it: the fact each interpretation takes from here.
\<close>

locale invariant_machine =
  fixes step :: "'op \<Rightarrow> 's \<Rightarrow> 's"
    and invar :: "'s \<Rightarrow> bool"
  assumes step_invar: "invar s \<Longrightarrow> invar (step op s)"
begin

lemma run_invar: "invar s \<Longrightarrow> invar (fold step ops s)"
  by (induction ops arbitrary: s) (auto intro: step_invar)

lemma run_prefix_invar: "invar s \<Longrightarrow> invar (fold step (take n ops) s)"
  by (rule run_invar)

end

text \<open>
  The same contract for operations that may panic or block: what is promised holds in every state a run returns.
\<close>

fun orun :: "('op \<Rightarrow> 's \<Rightarrow> 's outcome) \<Rightarrow> 'op list \<Rightarrow> 's \<Rightarrow> 's outcome" where
  "orun step [] s = Ret s"
| "orun step (op # ops) s = obind (step op s) (orun step ops)"

lemma orun_append: "orun step (xs @ ys) s = obind (orun step xs s) (orun step ys)"
proof (induction xs arbitrary: s)
  case (Cons x xs)
  then show ?case by (cases "step x s") simp_all
qed simp

lemma orun_total: "orun (\<lambda>op s. Ret (step op s)) ops s = Ret (fold step ops s)"
  by (induction ops arbitrary: s) simp_all

locale outcome_machine =
  fixes ostep :: "'op \<Rightarrow> 's \<Rightarrow> 's outcome"
    and oinvar :: "'s \<Rightarrow> bool"
  assumes ostep_invar: "oinvar s \<Longrightarrow> ostep op s = Ret s' \<Longrightarrow> oinvar s'"
begin

lemma orun_invar: "oinvar s \<Longrightarrow> orun ostep ops s = Ret s' \<Longrightarrow> oinvar s'"
  by (induction ops arbitrary: s) (auto simp: obind_Ret_iff intro: ostep_invar)

end

sublocale invariant_machine \<subseteq> total: outcome_machine "\<lambda>op s. Ret (step op s)" invar
  by unfold_locales (auto intro: step_invar)

end
