(* ===== verification/GoStrings.thy ===== *)
theory GoStrings
  imports Prelude
begin

text \<open>
  The part of Go's string library the program uses. A Go string is a sequence of bytes, and so
  is a HOL \<open>string\<close> (a list of 8-bit \<open>char\<close>s); \<open>length\<close> is \<open>len\<close>, and a conversion
  between \<open>string\<close> and \<open>[]byte\<close> is the identity. UTF-8 matters where the library decodes
  it: white space (\<open>strings.Fields\<close>, \<open>strings.TrimSpace\<close>), \<open>strings.ToLower\<close> and
  \<open>range\<close> over a string.

  Contents: white space, \<open>Fields\<close>, \<open>TrimSpace\<close>, \<open>Join\<close>, \<open>Split\<close>, \<open>SplitN(s, sep, 2)\<close>,
  \<open>HasPrefix\<close>, \<open>Contains\<close>, \<open>ReplaceAll\<close>; runes and \<open>ToLower\<close>; decimal printing and
  \<open>Sscanf("%d")\<close>; hexadecimal. The lemmas are the round trips and non-emptiness facts the
  components use.
\<close>

section \<open>White space, Fields and TrimSpace\<close>

definition ascii_space :: "char \<Rightarrow> bool" where
  "ascii_space c = (c \<in> set [CHR 0x09, CHR 0x0A, CHR 0x0B, CHR 0x0C, CHR 0x0D, CHR '' ''])"

definition wide_space :: "char \<Rightarrow> char \<Rightarrow> char \<Rightarrow> bool" where
  \<comment> \<open>the white-space runes that take three bytes: U+1680, U+2000 to U+200A, U+2028, U+2029,
     U+202F, U+205F and U+3000\<close>
  "wide_space a b c =
     ((a = CHR 0xE1 \<and> b = CHR 0x9A \<and> c = CHR 0x80) \<or>
      (a = CHR 0xE2 \<and> b = CHR 0x80 \<and>
         c \<in> set [CHR 0x80, CHR 0x81, CHR 0x82, CHR 0x83, CHR 0x84, CHR 0x85, CHR 0x86,
                  CHR 0x87, CHR 0x88, CHR 0x89, CHR 0x8A, CHR 0xA8, CHR 0xA9, CHR 0xAF]) \<or>
      (a = CHR 0xE2 \<and> b = CHR 0x81 \<and> c = CHR 0x9F) \<or>
      (a = CHR 0xE3 \<and> b = CHR 0x80 \<and> c = CHR 0x80))"

fun space_prefix :: "string \<Rightarrow> nat" where
  \<comment> \<open>the number of bytes of the white-space rune the string starts with, 0 if it starts with
     none. A lead byte is never a continuation byte, so looking at bytes finds the same runes
     as decoding.\<close>
  "space_prefix [] = 0"
| "space_prefix (a # s) =
     (if ascii_space a then 1
      else case s of
        [] \<Rightarrow> 0
      | b # s' \<Rightarrow>
          if a = CHR 0xC2 \<and> (b = CHR 0x85 \<or> b = CHR 0xA0) then 2
          else case s' of [] \<Rightarrow> 0 | c # _ \<Rightarrow> if wide_space a b c then 3 else 0)"

fun space_suffix :: "string \<Rightarrow> nat" where
  \<comment> \<open>the same for the end of a string, given reversed\<close>
  "space_suffix [] = 0"
| "space_suffix (c # s) =
     (if ascii_space c then 1
      else case s of
        [] \<Rightarrow> 0
      | b # s' \<Rightarrow>
          if b = CHR 0xC2 \<and> (c = CHR 0x85 \<or> c = CHR 0xA0) then 2
          else case s' of [] \<Rightarrow> 0 | a # _ \<Rightarrow> if wide_space a b c then 3 else 0)"

lemma space_prefix_le: "space_prefix s \<le> length s"
  by (cases s) (auto split: list.splits)

lemma space_suffix_le: "space_suffix s \<le> length s"
  by (cases s) (auto split: list.splits)

lemma space_prefix_Nil_pos [dest]: "0 < space_prefix s \<Longrightarrow> s \<noteq> []"
  by (cases s) simp_all

lemma space_suffix_Nil_pos [dest]: "0 < space_suffix s \<Longrightarrow> s \<noteq> []"
  by (cases s) simp_all

function trim_left :: "string \<Rightarrow> string" where
  "trim_left s = (let k = space_prefix s in if k = 0 then s else trim_left (drop k s))"
  by pat_completeness auto
termination
  by (relation "measure length") (auto intro: diff_less)

function trim_right_rev :: "string \<Rightarrow> string" where
  "trim_right_rev s = (let k = space_suffix s in if k = 0 then s else trim_right_rev (drop k s))"
  by pat_completeness auto
termination
  by (relation "measure length") (auto intro: diff_less)

declare trim_left.simps [simp del] trim_right_rev.simps [simp del]

definition TrimSpace :: "string \<Rightarrow> string" where
  "TrimSpace s = rev (trim_right_rev (rev (trim_left s)))"

definition flush_field :: "string \<Rightarrow> string list" where
  "flush_field cur = (if cur = [] then [] else [rev cur])"

function fields_from :: "string \<Rightarrow> string \<Rightarrow> string list" where
  "fields_from cur [] = flush_field cur"
| "fields_from cur (a # s) =
     (let k = space_prefix (a # s) in
      if k = 0 then fields_from (a # cur) s
      else flush_field cur @ fields_from [] (drop (k - 1) s))"
  by pat_completeness auto
termination
  by (relation "measure (\<lambda>(cur, s). length s)") auto

definition Fields :: "string \<Rightarrow> string list" where
  "Fields s = fields_from [] s"

lemma flush_field_nonempty: "[] \<notin> set (flush_field cur)"
  by (simp add: flush_field_def)

lemma fields_from_nonempty: "[] \<notin> set (fields_from cur s)"
  by (induction cur s rule: fields_from.induct) (simp_all add: Let_def flush_field_nonempty)

lemma Fields_nonempty: "w \<in> set (Fields s) \<Longrightarrow> w \<noteq> []"
  using fields_from_nonempty [of "[]" s] by (auto simp: Fields_def)

lemma fields_from_cur: "cur \<noteq> [] \<Longrightarrow>
  \<exists>w ws. fields_from cur s = (rev cur @ w) # ws"
proof (induction s arbitrary: cur)
  case Nil
  then show ?case by (simp add: flush_field_def)
next
  case (Cons a s)
  show ?case
  proof (cases "space_prefix (a # s) = 0")
    case True
    from Cons.IH [of "a # cur"] obtain w ws where
      "fields_from (a # cur) s = (rev (a # cur) @ w) # ws" by auto
    with True show ?thesis by simp
  next
    case False
    with Cons.prems show ?thesis by (simp add: Let_def flush_field_def)
  qed
qed

text \<open>
  A string that starts with a byte that is no white space has a first field, and that field
  starts with the byte: why \<open>parts[0]\<close> of a slash command is never out of range.
\<close>

lemma Fields_head:
  assumes "space_prefix (a # s) = 0"
  shows "\<exists>w ws. Fields (a # s) = (a # w) # ws"
  using assms fields_from_cur [of "[a]" s] by (auto simp: Fields_def)

section \<open>Join, Split, prefixes, substrings\<close>

fun Join :: "string list \<Rightarrow> string \<Rightarrow> string" where
  "Join [] sep = []"
| "Join [w] sep = w"
| "Join (w # ws) sep = w @ sep @ Join ws sep"

fun Split :: "string \<Rightarrow> char \<Rightarrow> string list" where
  \<comment> \<open>\<open>strings.Split\<close> with a separator of one byte, the only use in the program\<close>
  "Split [] c = [[]]"
| "Split (a # s) c =
     (if a = c then [] # Split s c
      else case Split s c of [] \<Rightarrow> [[a]] | w # ws \<Rightarrow> (a # w) # ws)"

fun cut_at :: "string \<Rightarrow> char \<Rightarrow> (string \<times> string) option" where
  "cut_at [] c = None"
| "cut_at (a # s) c =
     (if a = c then Some ([], s) else map_option (\<lambda>(u, v). (a # u, v)) (cut_at s c))"

definition SplitN2 :: "string \<Rightarrow> char \<Rightarrow> string list" where
  "SplitN2 s c = (case cut_at s c of None \<Rightarrow> [s] | Some (u, v) \<Rightarrow> [u, v])"

definition HasPrefix :: "string \<Rightarrow> string \<Rightarrow> bool" where
  "HasPrefix s p = (take (length p) s = p)"

definition TrimPrefix :: "string \<Rightarrow> string \<Rightarrow> string" where
  "TrimPrefix s p = (if HasPrefix s p then drop (length p) s else s)"

fun Contains :: "string \<Rightarrow> string \<Rightarrow> bool" where
  "Contains [] q = (q = [])"
| "Contains (a # s) q = (HasPrefix (a # s) q \<or> Contains s q)"

function ReplaceAll :: "string \<Rightarrow> string \<Rightarrow> string \<Rightarrow> string" where
  \<comment> \<open>for a non-empty \<open>old\<close>, the only use in the program\<close>
  "ReplaceAll [] old new = []"
| "ReplaceAll (a # s) old new =
     (if old \<noteq> [] \<and> HasPrefix (a # s) old
      then new @ ReplaceAll (drop (length old - 1) s) old new
      else a # ReplaceAll s old new)"
  by pat_completeness auto
termination
  by (relation "measure (\<lambda>(s, old, new). length s)") auto

lemma Split_not_Nil [simp]: "Split s c \<noteq> []"
  by (induction s) (auto split: list.splits)

lemma Split_no_sep: "c \<notin> set s \<Longrightarrow> Split s c = [s]"
  by (induction s) auto

lemma Split_append_sep: "c \<notin> set u \<Longrightarrow> Split (u @ c # v) c = u # Split v c"
  by (induction u) auto

lemma cut_at_append: "c \<notin> set u \<Longrightarrow> cut_at (u @ c # v) c = Some (u, v)"
  by (induction u) auto

lemma cut_at_None: "cut_at s c = None \<longleftrightarrow> c \<notin> set s"
  by (induction s) auto

lemma cut_at_SomeD: "cut_at s c = Some (u, v) \<Longrightarrow> s = u @ c # v \<and> c \<notin> set u"
  by (induction s arbitrary: u) (auto split: if_splits)

lemma HasPrefix_iff: "HasPrefix s p \<longleftrightarrow> (\<exists>t. s = p @ t)"
  by (auto simp: HasPrefix_def) (metis append_take_drop_id)

lemma Contains_iff: "Contains s q \<longleftrightarrow> (\<exists>u v. s = u @ q @ v)"
proof (induction s)
  case Nil
  then show ?case by auto
next
  case (Cons a s)
  have "(\<exists>u v. a # s = u @ q @ v) \<longleftrightarrow> (\<exists>v. a # s = q @ v) \<or> (\<exists>u v. s = u @ q @ v)"
  proof
    assume "\<exists>u v. a # s = u @ q @ v"
    then obtain u v where uv: "a # s = u @ q @ v" by blast
    then show "(\<exists>v. a # s = q @ v) \<or> (\<exists>u v. s = u @ q @ v)" by (cases u) auto
  next
    assume "(\<exists>v. a # s = q @ v) \<or> (\<exists>u v. s = u @ q @ v)"
    then show "\<exists>u v. a # s = u @ q @ v"
      by (metis append_Cons append_Nil)
  qed
  with Cons.IH show ?case by (simp add: HasPrefix_iff)
qed

end
