(* ===== verification/GoNumbers.thy ===== *)
theory GoNumbers
  imports GoStrings
begin

text \<open>
  Numbers and runes as text: UTF-8 decoding and encoding (\<open>unicode/utf8\<close>), \<open>strings.ToLower\<close>,
  decimal printing (\<open>%d\<close>) and scanning (\<open>fmt.Sscanf\<close> with \<open>%d\<close>), hexadecimal
  (\<open>encoding/hex\<close>, \<open>%x\<close>) and \<open>Format(time.Kitchen)\<close>.

  The case tables of package \<open>unicode\<close> for runes beyond ASCII are an argument (\<open>ulower\<close>).
  The round trips: \<open>Sscanf("%d")\<close> reads back what \<open>%d\<close> printed, for every 64-bit value;
  hexadecimal is injective on byte strings of one length.
\<close>

section \<open>Runes\<close>

abbreviation bval :: "char \<Rightarrow> nat" where "bval c \<equiv> of_char c"

abbreviation RuneError :: nat where "RuneError \<equiv> 0xFFFD"

definition cont :: "nat \<Rightarrow> bool" where
  "cont b = (0x80 \<le> b \<and> b \<le> 0xBF)"

definition second_ok :: "nat \<Rightarrow> nat \<Rightarrow> bool" where
  \<comment> \<open>the accept ranges of the second byte: no overlong form, no surrogate, nothing beyond
     U+10FFFF\<close>
  "second_ok a b =
     (if a = 0xE0 then 0xA0 \<le> b \<and> b \<le> 0xBF
      else if a = 0xED then 0x80 \<le> b \<and> b \<le> 0x9F
      else if a = 0xF0 then 0x90 \<le> b \<and> b \<le> 0xBF
      else if a = 0xF4 then 0x80 \<le> b \<and> b \<le> 0x8F
      else cont b)"

definition decode_rune :: "char \<Rightarrow> string \<Rightarrow> nat \<times> nat" where
  \<comment> \<open>rune and width of the first rune of \<open>x # s\<close>\<close>
  "decode_rune x s =
     (let a = bval x; b = map bval (take 3 s) in
      if a < 0x80 then (a, 1)
      else if 0xC2 \<le> a \<and> a \<le> 0xDF \<and> 1 \<le> length b \<and> cont (b ! 0)
        then ((a - 0xC0) * 64 + (b ! 0 - 0x80), 2)
      else if 0xE0 \<le> a \<and> a \<le> 0xEF \<and> 2 \<le> length b \<and> second_ok a (b ! 0) \<and> cont (b ! 1)
        then ((a - 0xE0) * 4096 + (b ! 0 - 0x80) * 64 + (b ! 1 - 0x80), 3)
      else if 0xF0 \<le> a \<and> a \<le> 0xF4 \<and> 3 \<le> length b \<and> second_ok a (b ! 0) \<and> cont (b ! 1)
            \<and> cont (b ! 2)
        then ((a - 0xF0) * 262144 + (b ! 0 - 0x80) * 4096 + (b ! 1 - 0x80) * 64
              + (b ! 2 - 0x80), 4)
      else (RuneError, 1))"

lemma decode_rune_width: "1 \<le> snd (decode_rune x s)"
  by (simp add: decode_rune_def Let_def)

function runes :: "string \<Rightarrow> nat list" where
  \<comment> \<open>\<open>range\<close> over a string\<close>
  "runes [] = []"
| "runes (x # s) = fst (decode_rune x s) # runes (drop (snd (decode_rune x s) - 1) s)"
  by pat_completeness auto
termination
  by (relation "measure length") auto

definition encode_rune :: "nat \<Rightarrow> string" where
  \<comment> \<open>surrogates and values beyond U+10FFFF are written as U+FFFD\<close>
  "encode_rune r =
     (if r < 0x80 then [char_of r]
      else if r < 0x800 then [char_of (0xC0 + r div 64), char_of (0x80 + r mod 64)]
      else if (0xD800 \<le> r \<and> r < 0xE000) \<or> 0x110000 \<le> r
        then [char_of (0xEF::nat), char_of (0xBF::nat), char_of (0xBD::nat)]
      else if r < 0x10000
        then [char_of (0xE0 + r div 4096), char_of (0x80 + r div 64 mod 64),
              char_of (0x80 + r mod 64)]
      else [char_of (0xF0 + r div 262144), char_of (0x80 + r div 4096 mod 64),
            char_of (0x80 + r div 64 mod 64), char_of (0x80 + r mod 64)])"

definition ascii_lower :: "nat \<Rightarrow> nat" where
  "ascii_lower r = (if 65 \<le> r \<and> r \<le> 90 then r + 32 else r)"

definition ToLower :: "(nat \<Rightarrow> nat) \<Rightarrow> string \<Rightarrow> string" where
  "ToLower ulower s =
     (if \<forall>c \<in> set s. bval c < 0x80 then map (\<lambda>c. char_of (ascii_lower (bval c))) s
      else concat (map (\<lambda>r. encode_rune (if r < 0x80 then ascii_lower r else ulower r)) (runes s)))"

section \<open>Decimal\<close>

abbreviation digit_char :: "nat \<Rightarrow> char" where "digit_char d \<equiv> char_of (48 + d)"

definition is_digit :: "char \<Rightarrow> bool" where
  "is_digit c = (48 \<le> bval c \<and> bval c \<le> 57)"

fun show_nat :: "nat \<Rightarrow> string" where
  "show_nat n = (if n < 10 then [digit_char n] else show_nat (n div 10) @ [digit_char (n mod 10)])"

declare show_nat.simps [simp del]

definition Itoa :: "int \<Rightarrow> string" where
  "Itoa i = (if i < 0 then CHR ''-'' # show_nat (nat (- i)) else show_nat (nat i))"

definition digits_val :: "string \<Rightarrow> nat" where
  "digits_val s = foldl (\<lambda>n c. n * 10 + (bval c - 48)) 0 s"

function skip_space :: "string \<Rightarrow> string option" where
  \<comment> \<open>\<open>(*ss).SkipSpace\<close> of \<open>Sscanf\<close>: a newline is an error\<close>
  "skip_space s =
     (if take 1 s = [CHR 0x0A] then None
      else let k = space_prefix s in if k = 0 then Some s else skip_space (drop k s))"
  by pat_completeness auto
termination
  by (relation "measure length") (auto intro: diff_less)

declare skip_space.simps [simp del]

definition scan_number :: "string \<Rightarrow> (nat \<times> string) option" where
  "scan_number s =
     (let ds = takeWhile is_digit s in
      if ds = [] then None else Some (digits_val ds, dropWhile is_digit s))"

definition scan_int :: "string \<Rightarrow> (int \<times> string) option" where
  \<comment> \<open>\<open>%d\<close> into an \<open>int\<close>: the value and the rest of the input\<close>
  "scan_int s =
     (case skip_space s of None \<Rightarrow> None
      | Some t \<Rightarrow>
         let sgn = take 1 t; neg = (sgn = ''-'');
             u = (if neg \<or> sgn = ''+'' then drop 1 t else t)
         in case scan_number u of None \<Rightarrow> None
            | Some (n, rest) \<Rightarrow>
                let i = (if neg then - int n else int n)
                in if in_int64 i then Some (i, rest) else None)"

definition scan_uint :: "nat \<Rightarrow> string \<Rightarrow> (nat \<times> string) option" where
  \<comment> \<open>\<open>%d\<close> into an unsigned integer of the given width\<close>
  "scan_uint bits s =
     (case skip_space s of None \<Rightarrow> None
      | Some t \<Rightarrow>
         case scan_number t of None \<Rightarrow> None
         | Some (n, rest) \<Rightarrow> if n < 2 ^ bits then Some (n, rest) else None)"

definition scan_lit :: "string \<Rightarrow> string \<Rightarrow> string option" where
  \<comment> \<open>literal text of a format\<close>
  "scan_lit p s = (if HasPrefix s p then Some (drop (length p) s) else None)"

definition Sscanf_d :: "string \<Rightarrow> int \<Rightarrow> int" where
  \<comment> \<open>\<open>fmt.Sscanf(s, "%d", &v)\<close> with its error ignored: \<open>v\<close> keeps its value on error\<close>
  "Sscanf_d s v = (case scan_int s of None \<Rightarrow> v | Some (i, _) \<Rightarrow> i)"

lemma bval_digit_char [simp]: "d < 10 \<Longrightarrow> bval (digit_char d) = 48 + d"
  by simp

lemma is_digit_digit_char [simp]: "d < 10 \<Longrightarrow> is_digit (digit_char d)"
  by (simp add: is_digit_def)

lemma digits_val_snoc: "digits_val (s @ [c]) = digits_val s * 10 + (bval c - 48)"
  by (simp add: digits_val_def)

lemma show_nat_digits: "c \<in> set (show_nat n) \<Longrightarrow> is_digit c"
proof (induction n rule: show_nat.induct)
  case (1 n)
  then show ?case
    by (subst (asm) (2) show_nat.simps) (auto split: if_splits)
qed

lemma show_nat_not_Nil [simp]: "show_nat n \<noteq> []"
  by (subst show_nat.simps) simp

lemma digits_val_show_nat: "digits_val (show_nat n) = n"
proof (induction n rule: show_nat.induct)
  case (1 n)
  show ?case
  proof (cases "n < 10")
    case True
    then show ?thesis by (simp add: show_nat.simps [of n] digits_val_def)
  next
    case False
    with 1 show ?thesis by (simp add: show_nat.simps [of n] digits_val_snoc)
  qed
qed

lemma takeWhile_show_nat:
  assumes "rest = [] \<or> \<not> is_digit (hd rest)"
  shows "takeWhile is_digit (show_nat n @ rest) = show_nat n"
    and "dropWhile is_digit (show_nat n @ rest) = rest"
  using assms show_nat_digits [of _ n]
  by (cases rest; auto simp: takeWhile_append dropWhile_append)+

lemma scan_number_show_nat:
  assumes "rest = [] \<or> \<not> is_digit (hd rest)"
  shows "scan_number (show_nat n @ rest) = Some (n, rest)"
  using takeWhile_show_nat [OF assms] by (simp add: scan_number_def digits_val_show_nat)

lemma is_digit_not_space:
  assumes "is_digit c"
  shows "space_prefix (c # s) = 0"
proof -
  have "bval c \<noteq> 0xC2" "bval c \<noteq> 0xE1" "bval c \<noteq> 0xE2" "bval c \<noteq> 0xE3"
    and "\<not> ascii_space c"
    using assms by (auto simp: is_digit_def ascii_space_def)
  then have "c \<noteq> CHR 0xC2" "c \<noteq> CHR 0xE1" "c \<noteq> CHR 0xE2" "c \<noteq> CHR 0xE3" by auto
  with \<open>\<not> ascii_space c\<close> show ?thesis
    by (simp add: wide_space_def split: list.split)
qed

lemma skip_space_nonspace: "space_prefix (c # s) = 0 \<Longrightarrow> c \<noteq> CHR 0x0A \<Longrightarrow>
    skip_space (c # s) = Some (c # s)"
  by (subst skip_space.simps) simp

lemma show_nat_Cons: "\<exists>c s. show_nat n = c # s \<and> is_digit c"
  using show_nat_digits [of _ n] by (cases "show_nat n") auto

lemma skip_space_show_nat: "skip_space (show_nat n @ rest) = Some (show_nat n @ rest)"
proof -
  obtain c s where cs: "show_nat n = c # s" "is_digit c"
    using show_nat_Cons by blast
  then have "c \<noteq> CHR 0x0A" by (auto simp: is_digit_def)
  with skip_space_nonspace [OF is_digit_not_space [OF cs(2)], of "s @ rest"] cs(1)
  show ?thesis by simp
qed

lemma scan_uint_show_nat:
  assumes "n < 2 ^ bits" and "rest = [] \<or> \<not> is_digit (hd rest)"
  shows "scan_uint bits (show_nat n @ rest) = Some (n, rest)"
  using assms by (simp add: scan_uint_def skip_space_show_nat scan_number_show_nat)

lemma scan_int_Itoa:
  assumes "in_int64 i" and "rest = [] \<or> \<not> is_digit (hd rest)"
  shows "scan_int (Itoa i @ rest) = Some (i, rest)"
proof (cases "i < 0")
  case True
  have "skip_space (CHR ''-'' # t) = Some (CHR ''-'' # t)" for t
    by (rule skip_space_nonspace) (simp_all add: ascii_space_def wide_space_def split: list.split)
  with True assms show ?thesis
    by (simp add: scan_int_def Itoa_def scan_number_show_nat Let_def)
next
  case False
  obtain c s where cs: "show_nat (nat i) = c # s" "is_digit c"
    using show_nat_Cons by blast
  then have "c \<noteq> CHR ''-''" "c \<noteq> CHR ''+''" by (auto simp: is_digit_def)
  with cs have "take 1 (show_nat (nat i) @ rest) \<noteq> ''-''"
    and "take 1 (show_nat (nat i) @ rest) \<noteq> ''+''" by simp_all
  with False assms show ?thesis
    by (simp add: scan_int_def Itoa_def scan_number_show_nat skip_space_show_nat Let_def)
qed

lemma Sscanf_d_Itoa [simp]: "in_int64 i \<Longrightarrow> Sscanf_d (Itoa i) v = i"
  using scan_int_Itoa [of i "[]"] by (simp add: Sscanf_d_def)

section \<open>Hexadecimal\<close>

definition hex_digit :: "nat \<Rightarrow> char" where
  "hex_digit d = (if d < 10 then char_of (48 + d) else char_of (87 + d))"

fun hex_encode :: "string \<Rightarrow> string" where
  "hex_encode [] = []"
| "hex_encode (b # bs) = hex_digit (bval b div 16) # hex_digit (bval b mod 16) # hex_encode bs"

fun show_hex :: "nat \<Rightarrow> string" where
  "show_hex n = (if n < 16 then [hex_digit n] else show_hex (n div 16) @ [hex_digit (n mod 16)])"

declare show_hex.simps [simp del]

definition hex_int :: "int \<Rightarrow> string" where
  \<comment> \<open>\<open>%x\<close> of a signed integer\<close>
  "hex_int i = (if i < 0 then CHR ''-'' # show_hex (nat (- i)) else show_hex (nat i))"

lemma hex_digit_inject:
  assumes "hex_digit d = hex_digit e" and "d < 16" and "e < 16"
  shows "d = e"
proof -
  have val: "bval (hex_digit n) = (if n < 10 then 48 + n else 87 + n)" if "n < 16" for n
    using that by (simp add: hex_digit_def)
  have "(if d < 10 then 48 + d else 87 + d) = (if e < 10 then 48 + e else 87 + e)"
    using assms val [of d] val [of e] by simp
  then show ?thesis by (simp split: if_splits)
qed

lemma length_hex_encode [simp]: "length (hex_encode bs) = 2 * length bs"
  by (induction bs) simp_all

lemma bval_inject: "bval a = bval b \<longleftrightarrow> a = b"
  by simp

lemma bval_bound [simp]: "bval c < 256"
  using of_char_mod_256 [of c, where 'a = nat] by (metis mod_less_divisor zero_less_numeral)

lemma hex_encode_inject: "hex_encode as = hex_encode bs \<Longrightarrow> as = bs"
proof (induction as arbitrary: bs)
  case Nil
  then show ?case by (cases bs) simp_all
next
  case (Cons a as)
  then obtain b bs' where bs: "bs = b # bs'" by (cases bs) simp_all
  have "bval a div 16 = bval b div 16" and "bval a mod 16 = bval b mod 16"
    using Cons.prems bs bval_bound [of a] bval_bound [of b]
    by (auto intro!: hex_digit_inject simp del: bval_bound)
  then have "bval a = bval b" by (metis div_mult_mod_eq)
  with Cons bs show ?case by simp
qed

section \<open>Time\<close>

text \<open>
  A \<open>time.Time\<close> is an instant (nanoseconds since 1970, \<open>tnanos\<close>) and the offset of its
  location from UTC in seconds (\<open>toffset\<close>), which only formatting looks at. The zero value is
  1 January of year 1, UTC.
\<close>

record gotime =
  tnanos :: int
  toffset :: int

definition zero_time :: gotime where
  "zero_time = \<lparr>tnanos = - 62135596800 * 10 ^ 9, toffset = 0\<rparr>"

definition IsZero :: "gotime \<Rightarrow> bool" where
  "IsZero t = (tnanos t = tnanos zero_time)"

definition After :: "gotime \<Rightarrow> gotime \<Rightarrow> bool" where
  "After t u = (tnanos u < tnanos t)"

definition Kitchen :: "gotime \<Rightarrow> string" where
  \<comment> \<open>\<open>t.Format(time.Kitchen)\<close>, the layout \<open>3:04PM\<close>\<close>
  "Kitchen t =
     (let sod = (tnanos t div 10 ^ 9 + toffset t) mod 86400;
          h = nat (sod div 3600); m = nat (sod mod 3600 div 60); h12 = h mod 12
      in show_nat (if h12 = 0 then 12 else h12) @ '':'' @ [digit_char (m div 10), digit_char (m mod 10)]
         @ (if 12 \<le> h then ''PM'' else ''AM''))"

end
