(* ===== verification/Base64.thy ===== *)
theory Base64
  imports GoNumbers
begin

text \<open>
  The base64 encodings of Go's \<open>encoding/base64\<close> that the program uses: \<open>StdEncoding\<close>
  (padded: messages, \<open>internal/crypto/crypto.go\<close>) and \<open>RawStdEncoding\<close> (unpadded: the salt and
  the hash of a stored password, \<open>internal/auth/auth.go\<close>). Decoding follows
  \<open>decodeQuantum\<close>: carriage returns and newlines are skipped, padding may only end the input,
  bits left over in the last quantum are ignored.

  The interface the clients rely on is the locale \<open>byte_codec\<close>: decoding gives back what was
  encoded, and an encoded text holds characters of a known alphabet only. It is interpreted on
  both encodings.
\<close>

locale byte_codec =
  fixes enc :: "string \<Rightarrow> string"
    and dec :: "string \<Rightarrow> string option"
    and ok_char :: "char \<Rightarrow> bool"
  assumes dec_enc: "dec (enc bs) = Some bs"
    and enc_chars: "c \<in> set (enc bs) \<Longrightarrow> ok_char c"
begin

lemma enc_inject: "enc as = enc bs \<longleftrightarrow> as = bs"
  by (metis dec_enc option.inject)

lemma enc_avoids: "\<not> ok_char c \<Longrightarrow> c \<notin> set (enc bs)"
  using enc_chars by blast

lemma Split_enc: "\<not> ok_char c \<Longrightarrow> Split (enc bs) c = [enc bs]"
  by (rule Split_no_sep) (rule enc_avoids)

lemma Split_enc_append: "\<not> ok_char c \<Longrightarrow> Split (enc bs @ c # rest) c = enc bs # Split rest c"
  by (rule Split_append_sep) (rule enc_avoids)

end

section \<open>The alphabet\<close>

definition b64_char :: "nat \<Rightarrow> char" where
  "b64_char n =
     (if n < 26 then char_of (65 + n) else if n < 52 then char_of (71 + n)
      else if n < 62 then char_of (n - 4) else if n = 62 then CHR ''+'' else CHR ''/'')"

definition b64_val :: "char \<Rightarrow> nat option" where
  "b64_val c =
     (let n = bval c in
      if 65 \<le> n \<and> n \<le> 90 then Some (n - 65) else if 97 \<le> n \<and> n \<le> 122 then Some (n - 71)
      else if 48 \<le> n \<and> n \<le> 57 then Some (n + 4) else if n = 43 then Some 62
      else if n = 47 then Some 63 else None)"

definition b64_ok :: "char \<Rightarrow> bool" where
  "b64_ok c = (b64_val c \<noteq> None \<or> c = CHR ''='')"

lemma b64_val_char [simp]: "n < 64 \<Longrightarrow> b64_val (b64_char n) = Some n"
  by (auto simp: b64_val_def b64_char_def Let_def)

lemma b64_ok_char [simp]: "n < 64 \<Longrightarrow> b64_ok (b64_char n)"
  by (simp add: b64_ok_def)

lemma b64_char_not_special [simp]:
  assumes "n < 64"
  shows "b64_char n \<noteq> CHR ''=''" and "b64_char n \<noteq> CHR 0x0A" and "b64_char n \<noteq> CHR 0x0D"
proof -
  have "b64_val (b64_char n) \<noteq> None" using assms by simp
  then show "b64_char n \<noteq> CHR ''=''" and "b64_char n \<noteq> CHR 0x0A" and "b64_char n \<noteq> CHR 0x0D"
    by (auto simp: b64_val_def)
qed

section \<open>Encoding and decoding\<close>

definition sextets :: "nat \<Rightarrow> nat \<Rightarrow> nat \<Rightarrow> nat \<times> nat \<times> nat \<times> nat" where
  "sextets a b c = (a div 4, a mod 4 * 16 + b div 16, b mod 16 * 4 + c div 64, c mod 64)"

fun b64_encode :: "bool \<Rightarrow> string \<Rightarrow> string" where
  \<comment> \<open>the flag says whether the encoding pads\<close>
  "b64_encode pad [] = []"
| "b64_encode pad [a] =
     (case sextets (bval a) 0 0 of (w, x, y, z) \<Rightarrow>
        b64_char w # b64_char x # (if pad then ''=='' else []))"
| "b64_encode pad [a, b] =
     (case sextets (bval a) (bval b) 0 of (w, x, y, z) \<Rightarrow>
        b64_char w # b64_char x # b64_char y # (if pad then ''='' else []))"
| "b64_encode pad (a # b # c # bs) =
     (case sextets (bval a) (bval b) (bval c) of (w, x, y, z) \<Rightarrow>
        b64_char w # b64_char x # b64_char y # b64_char z # b64_encode pad bs)"

definition quantum :: "nat \<Rightarrow> nat \<Rightarrow> nat \<Rightarrow> nat \<Rightarrow> string" where
  "quantum w x y z = [char_of (w * 4 + x div 16), char_of (x mod 16 * 16 + y div 4), char_of (y mod 4 * 64 + z)]"

fun decode_quanta :: "bool \<Rightarrow> string \<Rightarrow> string option" where
  "decode_quanta pad [] = Some []"
| "decode_quanta pad [c] = None"
| "decode_quanta pad [c, d] =
     (if pad then None
      else case (b64_val c, b64_val d) of
        (Some w, Some x) \<Rightarrow> Some (take 1 (quantum w x 0 0))
      | _ \<Rightarrow> None)"
| "decode_quanta pad [c, d, e] =
     (if pad then None
      else case (b64_val c, b64_val d, b64_val e) of
        (Some w, Some x, Some y) \<Rightarrow> Some (take 2 (quantum w x y 0))
      | _ \<Rightarrow> None)"
| "decode_quanta pad (c # d # e # f # rest) =
     (case (b64_val c, b64_val d, b64_val e, b64_val f) of
        (Some w, Some x, Some y, Some z) \<Rightarrow> map_option (\<lambda>bs. quantum w x y z @ bs) (decode_quanta pad rest)
      | (Some w, Some x, Some y, None) \<Rightarrow>
          if pad \<and> f = CHR ''='' \<and> rest = [] then Some (take 2 (quantum w x y 0)) else None
      | (Some w, Some x, None, None) \<Rightarrow>
          if pad \<and> e = CHR ''='' \<and> f = CHR ''='' \<and> rest = [] then Some (take 1 (quantum w x 0 0)) else None
      | _ \<Rightarrow> None)"

definition b64_decode :: "bool \<Rightarrow> string \<Rightarrow> string option" where
  "b64_decode pad s = decode_quanta pad (filter (\<lambda>c. c \<noteq> CHR 0x0A \<and> c \<noteq> CHR 0x0D) s)"

abbreviation "StdEncode \<equiv> b64_encode True"
abbreviation "StdDecode \<equiv> b64_decode True"
abbreviation "RawStdEncode \<equiv> b64_encode False"
abbreviation "RawStdDecode \<equiv> b64_decode False"

lemma sextets_bound:
  assumes "sextets a b c = (w, x, y, z)" and "a < 256" and "b < 256" and "c < 256"
  shows "w < 64" and "x < 64" and "y < 64" and "z < 64"
  using assms by (auto simp: sextets_def)

lemma sextet_bytes:
  shows "bval a div 4 * 4 + (bval a mod 4 * 16 + bval b div 16) div 16 = bval a"
    and "(bval a mod 4 * 16 + bval b div 16) mod 16 * 16 + (bval b mod 16 * 4 + bval c div 64) div 4
      = bval b"
    and "(bval b mod 16 * 4 + bval c div 64) mod 4 * 64 + bval c mod 64 = bval c"
  using bval_bound [of b] bval_bound [of c]
  by (simp_all add: div_mult_mod_eq del: bval_bound)

lemma quantum_sextets:
  assumes "sextets (bval a) (bval b) (bval c) = (w, x, y, z)"
  shows "quantum w x y z = [a, b, c]"
  using assms unfolding sextets_def quantum_def prod.inject
  by (elim conjE, hypsubst) (simp only: sextet_bytes char_of_char)

lemma quantum_sextets_1:
  assumes "sextets (bval a) 0 0 = (w, x, y, z)"
  shows "take 1 (quantum w x 0 0) = [a]"
  using assms by (auto simp: quantum_def sextets_def div_mult_mod_eq)

lemma quantum_sextets_2:
  assumes "sextets (bval a) (bval b) 0 = (w, x, y, z)"
  shows "take 2 (quantum w x y 0) = [a, b]"
proof -
  have "bval a div 4 * 4 + (bval a mod 4 * 16 + bval b div 16) div 16 = bval a"
    using bval_bound [of b] by (simp add: div_mult_mod_eq del: bval_bound)
  moreover have "(bval a mod 4 * 16 + bval b div 16) mod 16 * 16 + bval b mod 16 * 4 div 4 = bval b"
    using bval_bound [of b] by (simp del: bval_bound)
  ultimately show ?thesis
    using assms by (auto simp: quantum_def sextets_def)
qed

lemma decode_quanta_encode: "decode_quanta pad (b64_encode pad bs) = Some bs"
proof (induction pad bs rule: b64_encode.induct)
  case (1 pad)
  then show ?case by simp
next
  case (2 pad a)
  obtain w x y z where q: "sextets (bval a) 0 0 = (w, x, y, z)" by (metis prod_cases4)
  note sextets_bound [OF q bval_bound] quantum_sextets_1 [OF q]
  with q show ?case by (simp add: b64_val_def [of "CHR ''=''"])
next
  case (3 pad a b)
  obtain w x y z where q: "sextets (bval a) (bval b) 0 = (w, x, y, z)" by (metis prod_cases4)
  note sextets_bound [OF q bval_bound bval_bound] quantum_sextets_2 [OF q]
  with q show ?case by (simp add: b64_val_def [of "CHR ''=''"])
next
  case (4 pad a b c bs)
  obtain w x y z where q: "sextets (bval a) (bval b) (bval c) = (w, x, y, z)" by (metis prod_cases4)
  note sextets_bound [OF q bval_bound bval_bound bval_bound] quantum_sextets [OF q]
  with q 4 show ?case by simp
qed

lemma b64_encode_chars: "c \<in> set (b64_encode pad bs) \<Longrightarrow> b64_ok c \<and> c \<noteq> CHR 0x0A \<and> c \<noteq> CHR 0x0D"
proof (induction pad bs rule: b64_encode.induct)
  case (1 pad)
  then show ?case by simp
next
  case (2 pad a)
  obtain w x y z where q: "sextets (bval a) 0 0 = (w, x, y, z)" by (metis prod_cases4)
  note sextets_bound [OF q bval_bound]
  with q 2 show ?case by (auto simp: b64_ok_def split: if_splits)
next
  case (3 pad a b)
  obtain w x y z where q: "sextets (bval a) (bval b) 0 = (w, x, y, z)" by (metis prod_cases4)
  note sextets_bound [OF q bval_bound bval_bound]
  with q 3 show ?case by (auto simp: b64_ok_def split: if_splits)
next
  case (4 pad a b c' bs)
  obtain w x y z where q: "sextets (bval a) (bval b) (bval c') = (w, x, y, z)" by (metis prod_cases4)
  note sextets_bound [OF q bval_bound bval_bound bval_bound]
  with q 4 show ?case by auto
qed

lemma b64_decode_encode: "b64_decode pad (b64_encode pad bs) = Some bs"
proof -
  have "filter (\<lambda>c. c \<noteq> CHR 0x0A \<and> c \<noteq> CHR 0x0D) (b64_encode pad bs) = b64_encode pad bs"
    by (rule filter_True) (use b64_encode_chars in blast)
  then show ?thesis by (simp add: b64_decode_def decode_quanta_encode)
qed

interpretation std: byte_codec StdEncode StdDecode b64_ok
  by unfold_locales (auto simp: b64_decode_encode dest: b64_encode_chars)

interpretation rawstd: byte_codec RawStdEncode RawStdDecode b64_ok
  by unfold_locales (auto simp: b64_decode_encode dest: b64_encode_chars)

lemma b64_not_ok [simp]: "\<not> b64_ok CHR ''$''" "\<not> b64_ok CHR '' ''" "\<not> b64_ok CHR ''*''" "\<not> b64_ok CHR '':''"
  by (simp_all add: b64_ok_def b64_val_def)

text \<open>A text with a character outside the alphabet does not decode.\<close>

lemma decode_quanta_ok: "decode_quanta pad s = Some bs \<Longrightarrow> c \<in> set s \<Longrightarrow> b64_ok c"
proof (induction pad s arbitrary: bs rule: decode_quanta.induct)
  case (5 pad c1 d e f rest)
  then show ?case
    by (auto simp: b64_ok_def split: option.splits if_splits)
qed (auto simp: b64_ok_def split: option.splits if_splits)

lemma b64_decode_bad_char:
  assumes "c \<in> set s" and "\<not> b64_ok c" and "c \<noteq> CHR 0x0A" and "c \<noteq> CHR 0x0D"
  shows "b64_decode pad s = None"
proof (cases "b64_decode pad s")
  case (Some bs)
  with assms decode_quanta_ok [of pad "filter (\<lambda>c. c \<noteq> CHR 0x0A \<and> c \<noteq> CHR 0x0D) s" bs c]
  show ?thesis by (simp add: b64_decode_def)
qed simp

lemma length_b64_encode_raw: "length (b64_encode False bs) = (4 * length bs + 2) div 3"
  by (induction False bs rule: b64_encode.induct) (auto simp: sextets_def)

lemma length_b64_encode_std: "length (b64_encode True bs) = 4 * ((length bs + 2) div 3)"
proof (induction True bs rule: b64_encode.induct)
  case (4 a b c bs)
  have "length (StdEncode bs) = 4 * ((length bs + 2) div 3)"
    using 4 by (simp add: sextets_def)
  moreover have "(length (a # b # c # bs) + 2) div 3 = (length bs + 2) div 3 + 1"
    unfolding list.size by presburger
  ultimately show ?case by (simp add: sextets_def)
qed (auto simp: sextets_def)

end
