(* ===== verification/Protocol.thy ===== *)
theory Protocol
  imports Base64
begin

text \<open>
  \<open>internal/protocol/protocol.go\<close>: the message types with their wire values, the \<open>Message\<close>
  structure, \<open>GenerateID\<close>, and what a message becomes when it is sent.

  A message's \<open>Reactions\<close> map is a reference in Go. The record is therefore polymorphic in it:
  a message on the wire (\<open>wire_msg\<close>) carries the map's contents, a message held by the storage
  carries the address of the map in the storage's heap (theory \<open>MessageStore\<close>).

  \<open>SendMessage\<close> writes a message as one line of JSON and \<open>Decode\<close> reads it back. \<open>transmit\<close>
  is the composition: the message that arrives, or \<open>None\<close> where encoding fails. It replaces bytes
  that are no UTF-8 by U+FFFD, drops empty maps (\<open>omitempty\<close>) and rounds the offset of the
  timestamp to minutes; years outside 0 to 9999 do not encode. What arrives is a fixed point: sending
  it on (a peer relaying, the append-only file written and read again) changes nothing more.
\<close>

section \<open>Message types\<close>

datatype message_type =
    MsgTypeChat | MsgTypeJoin | MsgTypeLeave | MsgTypePeerHandshake | MsgTypeHeartbeat
  | MsgTypeElection | MsgTypeCoordinator | MsgTypeSyncRequest | MsgTypeLogin | MsgTypeAuthResult
  | MsgTypeImage | MsgTypeRegister | MsgTypeUserSync | MsgTypeDirectMessage | MsgTypeEditMessage
  | MsgTypeDeleteMessage | MsgTypeReaction | MsgTypeTyping | MsgTypeStatusChange
  | MsgTypeChannelCreate | MsgTypeChannelJoin | MsgTypeChannelLeave | MsgTypeChannelList
  | MsgTypeAdminAction | MsgTypeHealthCheck | MsgTypeHistory | MsgTypeSearch
  | MsgTypeOther int \<comment> \<open>the type is an \<open>int\<close>: any other value a sender puts there\<close>

definition message_types :: "message_type list" where
  \<comment> \<open>the constants, at the position of their value\<close>
  "message_types =
     [MsgTypeChat, MsgTypeJoin, MsgTypeLeave, MsgTypePeerHandshake, MsgTypeHeartbeat,
      MsgTypeElection, MsgTypeCoordinator, MsgTypeSyncRequest, MsgTypeLogin, MsgTypeAuthResult,
      MsgTypeImage, MsgTypeRegister, MsgTypeUserSync, MsgTypeDirectMessage, MsgTypeEditMessage,
      MsgTypeDeleteMessage, MsgTypeReaction, MsgTypeTyping, MsgTypeStatusChange,
      MsgTypeChannelCreate, MsgTypeChannelJoin, MsgTypeChannelLeave, MsgTypeChannelList,
      MsgTypeAdminAction, MsgTypeHealthCheck, MsgTypeHistory, MsgTypeSearch]"

fun type_code :: "message_type \<Rightarrow> int" where
  "type_code MsgTypeChat = 0"
| "type_code MsgTypeJoin = 1"
| "type_code MsgTypeLeave = 2"
| "type_code MsgTypePeerHandshake = 3"
| "type_code MsgTypeHeartbeat = 4"
| "type_code MsgTypeElection = 5"
| "type_code MsgTypeCoordinator = 6"
| "type_code MsgTypeSyncRequest = 7"
| "type_code MsgTypeLogin = 8"
| "type_code MsgTypeAuthResult = 9"
| "type_code MsgTypeImage = 10"
| "type_code MsgTypeRegister = 11"
| "type_code MsgTypeUserSync = 12"
| "type_code MsgTypeDirectMessage = 13"
| "type_code MsgTypeEditMessage = 14"
| "type_code MsgTypeDeleteMessage = 15"
| "type_code MsgTypeReaction = 16"
| "type_code MsgTypeTyping = 17"
| "type_code MsgTypeStatusChange = 18"
| "type_code MsgTypeChannelCreate = 19"
| "type_code MsgTypeChannelJoin = 20"
| "type_code MsgTypeChannelLeave = 21"
| "type_code MsgTypeChannelList = 22"
| "type_code MsgTypeAdminAction = 23"
| "type_code MsgTypeHealthCheck = 24"
| "type_code MsgTypeHistory = 25"
| "type_code MsgTypeSearch = 26"
| "type_code (MsgTypeOther n) = n"

definition type_of_code :: "int \<Rightarrow> message_type" where
  "type_of_code n = (if 0 \<le> n \<and> n < 27 then message_types ! nat n else MsgTypeOther n)"

fun proper_type :: "message_type \<Rightarrow> bool" where
  \<comment> \<open>no constant is spelt as an unknown value\<close>
  "proper_type (MsgTypeOther n) = (n < 0 \<or> 27 \<le> n)"
| "proper_type _ = True"

lemma type_of_code_code: "proper_type t \<Longrightarrow> type_of_code (type_code t) = t"
  by (cases t) (auto simp: type_of_code_def message_types_def)

lemma type_code_nth: "n < 27 \<Longrightarrow> type_code (message_types ! n) = int n"
proof -
  have "\<forall>n \<in> set [0..<27]. type_code (message_types ! n) = int n" by code_simp
  then show "n < 27 \<Longrightarrow> type_code (message_types ! n) = int n" by simp
qed

lemma type_code_of_code: "type_code (type_of_code n) = n"
  using type_code_nth [of "nat n"] by (auto simp: type_of_code_def)

lemma proper_type_of_code: "proper_type (type_of_code n)"
proof -
  have "\<forall>t \<in> set message_types. proper_type t" and "length message_types = 27"
    by code_simp+
  then have "proper_type (message_types ! nat n)" if "0 \<le> n" "n < 27"
    using that by (simp add: nth_mem)
  then show ?thesis by (auto simp: type_of_code_def)
qed

section \<open>Messages\<close>

definition MaxMessageSize :: nat where
  "MaxMessageSize = 1 * 1024 * 1024"

record 'r message =
  Type :: message_type
  ID :: string
  Sender :: string
  Content :: string
  Channel :: string
  Recipient :: string
  ReplyTo :: string
  Edited :: bool
  Reactions :: "'r option"
  Metadata :: "(string, string) gomap option"
  Timestamp :: gotime

type_synonym reactions = "(string, string list) gomap"
type_synonym wire_msg = "reactions message"

definition no_message :: "'r message" where
  \<comment> \<open>the zero value, from which a composite literal sets the fields it names\<close>
  "no_message =
     \<lparr>Type = MsgTypeChat, ID = [], Sender = [], Content = [], Channel = [], Recipient = [],
      ReplyTo = [], Edited = False, Reactions = None, Metadata = None, Timestamp = zero_time\<rparr>"

lemma no_message_simps [simp]:
  "Type no_message = MsgTypeChat" "ID no_message = []" "Sender no_message = []"
  "Content no_message = []" "Channel no_message = []" "Recipient no_message = []"
  "ReplyTo no_message = []" "Edited no_message = False" "Reactions no_message = None"
  "Metadata no_message = None" "Timestamp no_message = zero_time"
  by (simp_all add: no_message_def)

definition GenerateID :: "string option \<Rightarrow> gotime \<Rightarrow> string" where
  \<comment> \<open>the first argument is what \<open>rand.Read\<close> delivered: eight bytes, or an error\<close>
  "GenerateID rnd now = (case rnd of None \<Rightarrow> hex_int (tnanos now) | Some b \<Rightarrow> hex_encode b)"

lemma show_hex_not_Nil [simp]: "show_hex n \<noteq> []"
  by (subst show_hex.simps) simp

lemma GenerateID_not_Nil: "(\<And>b. rnd = Some b \<Longrightarrow> length b = 8) \<Longrightarrow> GenerateID rnd now \<noteq> []"
  by (cases rnd) (auto simp: GenerateID_def hex_int_def simp flip: length_greater_0_conv)

section \<open>Transmission\<close>

definition utf8_coerce :: "string \<Rightarrow> string" where
  "utf8_coerce s = concat (map encode_rune (runes s))"

definition valid_utf8 :: "string \<Rightarrow> bool" where
  "valid_utf8 s = (utf8_coerce s = s)"

definition coerce_map :: "('v \<Rightarrow> 'v) \<Rightarrow> (string, 'v) gomap \<Rightarrow> (string, 'v) gomap option" where
  \<comment> \<open>an empty map is omitted and arrives as \<open>nil\<close>\<close>
  "coerce_map f m =
     (if m = [] then None else Some (fold (\<lambda>(k, v). mput (utf8_coerce k) (f v)) m []))"

definition coerce_opt :: "('v \<Rightarrow> 'v) \<Rightarrow> (string, 'v) gomap option \<Rightarrow> (string, 'v) gomap option" where
  "coerce_opt f o' = (case o' of None \<Rightarrow> None | Some m \<Rightarrow> coerce_map f m)"

definition minute_offset :: "int \<Rightarrow> int" where
  \<comment> \<open>an offset in whole minutes, truncated towards zero\<close>
  "minute_offset off = (if off < 0 then - (- off div 60 * 60) else off div 60 * 60)"

definition coerce_time :: "gotime \<Rightarrow> gotime" where
  "coerce_time t =
     (let off = minute_offset (toffset t)
      in \<lparr>tnanos = tnanos t + (toffset t - off) * 10 ^ 9, toffset = off\<rparr>)"

definition encodable_time :: "gotime \<Rightarrow> bool" where
  \<comment> \<open>a wall clock between the years 0 and 9999 and an offset of less than a day\<close>
  "encodable_time t =
     (let wall = tnanos t div 10 ^ 9 + toffset t
      in - 62167219200 \<le> wall \<and> wall < 253402300800 \<and> \<bar>toffset t\<bar> < 86400)"

definition transmit :: "wire_msg \<Rightarrow> wire_msg option" where
  "transmit m =
     (if encodable_time (Timestamp m)
      then Some \<lparr>Type = Type m, ID = utf8_coerce (ID m), Sender = utf8_coerce (Sender m),
                 Content = utf8_coerce (Content m), Channel = utf8_coerce (Channel m),
                 Recipient = utf8_coerce (Recipient m), ReplyTo = utf8_coerce (ReplyTo m),
                 Edited = Edited m, Reactions = coerce_opt (map utf8_coerce) (Reactions m),
                 Metadata = coerce_opt utf8_coerce (Metadata m),
                 Timestamp = coerce_time (Timestamp m)\<rparr>
      else None)"

section \<open>What arrives is stable\<close>

definition scalar :: "nat \<Rightarrow> nat" where
  \<comment> \<open>the rune \<open>encode_rune\<close> writes: surrogates and values beyond U+10FFFF become U+FFFD\<close>
  "scalar r = (if (0xD800 \<le> r \<and> r < 0xE000) \<or> 0x110000 \<le> r then RuneError else r)"

lemma encode_rune_scalar [simp]: "encode_rune (scalar r) = encode_rune r"
  by (simp add: encode_rune_def scalar_def)

lemma runes_ascii: "r < 0x80 \<Longrightarrow> runes (encode_rune r @ s) = r # runes s"
  by (simp add: encode_rune_def decode_rune_def Let_def)

lemma mod64_bounds:
  fixes x q k :: nat
  shows "x div 64 = q \<Longrightarrow> x < q * 64 + k \<Longrightarrow> x mod 64 < k"
    and "x div 64 = q \<Longrightarrow> q * 64 + k \<le> x \<Longrightarrow> k \<le> x mod 64"
  using div_mult_mod_eq [of x 64] by linarith+

lemma runes_two:
  assumes "0x80 \<le> r" and "r < 0x800"
  shows "runes (encode_rune r @ s) = r # runes s"
proof -
  let ?a = "0xC0 + r div 64" and ?b = "0x80 + r mod 64"
  have "encode_rune r = [char_of ?a, char_of ?b]"
    using assms by (auto simp: encode_rune_def)
  moreover have "cont ?b" "2 \<le> r div 64" "?a \<le> 0xDF" "?b < 256" using assms by (auto simp: cont_def)
  then have "decode_rune (char_of ?a) (char_of ?b # s) = (r, 2)"
    by (simp add: decode_rune_def Let_def)
  ultimately show ?thesis by simp
qed

lemma runes_replacement:
  "runes ([char_of (0xEF::nat), char_of (0xBF::nat), char_of (0xBD::nat)] @ s) = RuneError # runes s"
  by (simp add: decode_rune_def Let_def cont_def second_ok_def)

lemma runes_three:
  assumes "0x800 \<le> r" and "r < 0x10000" and "r < 0xD800 \<or> 0xE000 \<le> r"
  shows "runes (encode_rune r @ s) = r # runes s"
proof -
  let ?a = "0xE0 + r div 4096" and ?b = "0x80 + r div 64 mod 64" and ?c = "0x80 + r mod 64"
  have a: "r div 4096 = r div 64 div 64" by (simp add: div_mult2_eq [symmetric])
  have "r div 4096 = 0 \<Longrightarrow> 32 \<le> r div 64 mod 64"
    using mod64_bounds(2) [of "r div 64" 0 32] assms a by simp
  moreover have "r div 4096 = 13 \<Longrightarrow> r div 64 mod 64 < 32"
    using mod64_bounds(1) [of "r div 64" 13 32] assms a by auto
  ultimately have ok: "second_ok ?a ?b"
    using assms by (auto simp: second_ok_def cont_def)
  have c: "cont ?c" by (simp add: cont_def)
  have val: "(?a - 0xE0) * 4096 + (?b - 0x80) * 64 + (?c - 0x80) = r"
    using div_mult_mod_eq [of "r div 64" 64] div_mult_mod_eq [of r 64]
    unfolding a diff_add_inverse by linarith
  have bounds: "?a < 0xF0" "?b < 256" "?c < 256" using assms by auto
  have "encode_rune r = [char_of ?a, char_of ?b, char_of ?c]"
    using assms by (auto simp: encode_rune_def)
  moreover have "decode_rune (char_of ?a) (char_of ?b # char_of ?c # s) = (r, 3)"
    using ok c val bounds by (simp add: decode_rune_def Let_def)
  ultimately show ?thesis by simp
qed

lemma runes_four:
  assumes "0x10000 \<le> r" and "r < 0x110000"
  shows "runes (encode_rune r @ s) = r # runes s"
proof -
  let ?a = "0xF0 + r div 262144" and ?b = "0x80 + r div 4096 mod 64"
    and ?c = "0x80 + r div 64 mod 64" and ?d = "0x80 + r mod 64"
  have a: "r div 262144 = r div 4096 div 64" "r div 4096 = r div 64 div 64"
    by (simp_all add: div_mult2_eq [symmetric])
  have "r div 262144 = 0 \<Longrightarrow> 16 \<le> r div 4096 mod 64"
    using mod64_bounds(2) [of "r div 4096" 0 16] assms a(1) by simp
  moreover have "r div 262144 = 4 \<Longrightarrow> r div 4096 mod 64 < 16"
    using mod64_bounds(1) [of "r div 4096" 4 16] assms a(1) by auto
  ultimately have ok: "second_ok ?a ?b"
    using assms by (auto simp: second_ok_def cont_def)
  have c: "cont ?c" "cont ?d" by (simp_all add: cont_def)
  have val: "(?a - 0xF0) * 262144 + (?b - 0x80) * 4096 + (?c - 0x80) * 64 + (?d - 0x80) = r"
    using div_mult_mod_eq [of "r div 4096" 64] div_mult_mod_eq [of "r div 64" 64] div_mult_mod_eq [of r 64]
    unfolding a diff_add_inverse by linarith
  have bounds: "?a \<le> 0xF4" "?b < 256" "?c < 256" "?d < 256" using assms by auto
  have "encode_rune r = [char_of ?a, char_of ?b, char_of ?c, char_of ?d]"
    using assms by (auto simp: encode_rune_def)
  moreover have "decode_rune (char_of ?a) (char_of ?b # char_of ?c # char_of ?d # s) = (r, 4)"
    using ok c val bounds by (simp add: decode_rune_def Let_def)
  ultimately show ?thesis by simp
qed

lemma runes_encode_rune: "runes (encode_rune r @ s) = scalar r # runes s"
proof (cases "(0xD800 \<le> r \<and> r < 0xE000) \<or> 0x110000 \<le> r")
  case True
  then have "encode_rune r = [char_of (0xEF::nat), char_of (0xBF::nat), char_of (0xBD::nat)]" by (auto simp: encode_rune_def)
  with True show ?thesis using runes_replacement [of s] by (simp only: scalar_def if_True)
next
  case False
  then have "runes (encode_rune r @ s) = r # runes s"
    using runes_ascii [of r s] runes_two [of r s] runes_three [of r s] runes_four [of r s]
    by (meson linorder_not_le)
  with False show ?thesis by (auto simp: scalar_def)
qed

lemma runes_encode: "runes (concat (map encode_rune rs)) = map scalar rs"
  by (induction rs) (simp_all add: runes_encode_rune)

lemma utf8_coerce_idem [simp]: "utf8_coerce (utf8_coerce s) = utf8_coerce s"
  by (simp add: utf8_coerce_def runes_encode comp_def)

lemma fold_mput_append:
  assumes "distinct (map fst (acc @ m))"
  shows "fold (\<lambda>(k, v). mput k v) m acc = acc @ m"
  using assms
proof (induction m arbitrary: acc)
  case Nil
  then show ?case by simp
next
  case (Cons p m)
  obtain k v where p: "p = (k, v)" by (cases p)
  with Cons.prems have "mput k v acc = acc @ [(k, v)]"
    by (intro mput_fresh) auto
  with Cons.IH [of "acc @ [p]"] Cons.prems p show ?case by simp
qed

lemma fold_coerce_keys:
  assumes "mkeys_distinct acc" and "\<forall>p \<in> set acc. utf8_coerce (fst p) = fst p \<and> f (snd p) = snd p"
    and "\<And>v. f (f v) = f v"
  shows "mkeys_distinct (fold (\<lambda>(k, v). mput (utf8_coerce k) (f v)) m acc) \<and>
    (\<forall>p \<in> set (fold (\<lambda>(k, v). mput (utf8_coerce k) (f v)) m acc).
       utf8_coerce (fst p) = fst p \<and> f (snd p) = snd p)"
  using assms(1,2)
proof (induction m arbitrary: acc)
  case Nil
  then show ?case by simp
next
  case (Cons p m)
  obtain k v where p: "p = (k, v)" by (cases p)
  let ?acc = "mput (utf8_coerce k) (f v) acc"
  have dist: "mkeys_distinct ?acc" using Cons.prems(1) by simp
  have fixed: "\<forall>q \<in> set ?acc. utf8_coerce (fst q) = fst q \<and> f (snd q) = snd q"
  proof
    fix q assume "q \<in> set ?acc"
    then consider "q = (utf8_coerce k, f v)" | "q \<in> set acc"
      using set_mput_subset [of "utf8_coerce k" "f v" acc] by blast
    then show "utf8_coerce (fst q) = fst q \<and> f (snd q) = snd q"
    proof cases
      case 1
      then show ?thesis by (simp add: assms(3))
    next
      case 2
      with Cons.prems(2) show ?thesis by blast
    qed
  qed
  show ?case
    using Cons.IH [OF dist fixed] unfolding p fold.simps comp_apply prod.case .
qed

lemma fold_mput_not_Nil: "acc \<noteq> [] \<or> m \<noteq> [] \<Longrightarrow> fold (\<lambda>(k, v). mput (g k) (f v)) m acc \<noteq> []"
proof (induction m arbitrary: acc)
  case (Cons p m)
  have "mput k v acc \<noteq> []" for k v by (cases acc) auto
  with Cons.IH show ?case by (cases p) simp
qed simp

lemma coerce_opt_idem:
  assumes f: "\<And>v. f (f v) = f v"
  shows "coerce_opt f (coerce_opt f mo) = coerce_opt f mo"
proof (cases "mo = None \<or> mo = Some []")
  case True
  then show ?thesis by (auto simp: coerce_opt_def coerce_map_def)
next
  case False
  then obtain m where m: "mo = Some m" "m \<noteq> []" by auto
  let ?m = "fold (\<lambda>(k, v). mput (utf8_coerce k) (f v)) m []"
  have ok: "mkeys_distinct ?m" "\<forall>p \<in> set ?m. utf8_coerce (fst p) = fst p \<and> f (snd p) = snd p"
    using fold_coerce_keys [of "[]" f m] f by auto
  have "fold (\<lambda>(k, v). mput (utf8_coerce k) (f v)) ?m [] = fold (\<lambda>(k, v). mput k v) ?m []"
    by (rule fold_cong) (use ok(2) in auto)
  also have "\<dots> = ?m"
    using fold_mput_append [of "[]" ?m] ok(1) by (simp add: mkeys_distinct_def)
  finally show ?thesis
    using m fold_mput_not_Nil [of "[]" m utf8_coerce f] by (simp add: coerce_opt_def coerce_map_def)
qed

lemma minute_offset_idem [simp]: "minute_offset (minute_offset off) = minute_offset off"
  by (auto simp: minute_offset_def)

lemma minute_offset_bound: "\<bar>off\<bar> < 86400 \<Longrightarrow> \<bar>minute_offset off\<bar> < 86400"
  by (auto simp: minute_offset_def)

lemma coerce_time_idem [simp]: "coerce_time (coerce_time t) = coerce_time t"
  by (simp add: coerce_time_def Let_def)

lemma coerce_time_wall:
  "tnanos (coerce_time t) div 10 ^ 9 + toffset (coerce_time t) = tnanos t div 10 ^ 9 + toffset t"
  by (simp add: coerce_time_def Let_def)

lemma encodable_coerce_time: "encodable_time t \<Longrightarrow> encodable_time (coerce_time t)"
  using minute_offset_bound [of "toffset t"] coerce_time_wall [of t]
  by (auto simp: encodable_time_def Let_def) (simp add: coerce_time_def Let_def)

lemma transmit_stable: "transmit m = Some m' \<Longrightarrow> transmit m' = Some m'"
  by (auto simp: transmit_def encodable_coerce_time coerce_opt_idem comp_def split: if_splits)

lemma valid_utf8_ascii:
  assumes "list_all (\<lambda>c. bval c < 0x80) s"
  shows "valid_utf8 s"
proof -
  have "utf8_coerce s = s" using assms
    by (induction s) (simp_all add: utf8_coerce_def decode_rune_def Let_def encode_rune_def)
  then show ?thesis by (simp add: valid_utf8_def)
qed

lemma fold_coerce_id:
  \<comment> \<open>a map whose keys and values need no coercion goes through unchanged\<close>
  assumes "mkeys_distinct m" and "\<And>k v. (k, v) \<in> set m \<Longrightarrow> utf8_coerce k = k \<and> f v = v"
  shows "fold (\<lambda>(k, v). mput (utf8_coerce k) (f v)) m [] = m"
proof -
  have "fold (\<lambda>(k, v). mput (utf8_coerce k) (f v)) m [] = fold (\<lambda>(k, v). mput k v) m []"
    by (rule fold_cong) (use assms(2) in \<open>auto split: prod.splits\<close>)
  also have "\<dots> = m"
    using fold_mput_append [of "[]" m] assms(1) by (simp add: mkeys_distinct_def)
  finally show ?thesis .
qed

end
