(* ===== verification/FileUtil.thy ===== *)
theory FileUtil
  imports Prelude
begin

text \<open>
  \<open>internal/fileutil/fileutil.go\<close>: \<open>AtomicWriteFile\<close>, which the authenticator and the channel
  manager save with. A file system is a map from names to contents; the contents' type is a
  parameter, each client uses its own.

  What the operating system does is an argument (\<open>write_env\<close>): whether \<open>os.WriteFile\<close> succeeds
  and what it leaves in the temporary file while it runs and where it fails, and whether the
  rename succeeds. The states a crash can leave are the elements of \<open>atomic_write_states\<close>.
  The locale \<open>durable_write\<close> is what the clients rely on: in each of those states the file holds
  its old contents or the new ones, and afterwards the new ones exactly if the write reports
  success.
\<close>

type_synonym 'd fs = "(string, 'd) gomap"

record 'd write_env =
  partials :: "'d list"             \<comment> \<open>contents of the temporary file while it is written\<close>
  write_fails :: "'d option option" \<comment> \<open>\<open>Some\<close>: \<open>WriteFile\<close> fails and leaves this in the temporary file\<close>
  rename_fails :: bool

definition no_faults :: "'d write_env" where
  "no_faults = \<lparr>partials = [], write_fails = None, rename_fails = False\<rparr>"

definition tmp_name :: "string \<Rightarrow> string" where
  "tmp_name filename = filename @ ''.tmp''"

definition atomic_write_states :: "'d write_env \<Rightarrow> string \<Rightarrow> 'd \<Rightarrow> 'd fs \<Rightarrow> 'd fs list" where
  \<comment> \<open>the file system after each of the calls \<open>AtomicWriteFile\<close> makes, in order; \<open>Sync\<close> and
     \<open>Close\<close> change no contents\<close>
  "atomic_write_states e filename d fs =
     (let tmp = tmp_name filename;
          writing = fs # map (\<lambda>p. mput tmp p fs) (partials e)
      in case write_fails e of
           Some None \<Rightarrow> writing @ [fs]
         | Some (Some p) \<Rightarrow> writing @ [mput tmp p fs]
         | None \<Rightarrow>
             if rename_fails e then writing @ [mput tmp d fs, mdel tmp fs]
             else writing @ [mput tmp d fs, mput filename d (mdel tmp fs)])"

definition AtomicWriteFile :: "'d write_env \<Rightarrow> string \<Rightarrow> 'd \<Rightarrow> 'd fs \<Rightarrow> 'd fs \<times> bool" where
  \<comment> \<open>the file system afterwards, and whether \<open>nil\<close> is returned\<close>
  "AtomicWriteFile e filename d fs =
     (last (atomic_write_states e filename d fs), write_fails e = None \<and> \<not> rename_fails e)"

lemma tmp_name_neq [simp]: "tmp_name f \<noteq> f" "f \<noteq> tmp_name f"
  by (auto simp: tmp_name_def)

lemma atomic_write_states_not_Nil [simp]: "atomic_write_states e f d fs \<noteq> []"
  by (simp add: atomic_write_states_def Let_def split: option.split)

lemma AtomicWriteFile_ok:
  "AtomicWriteFile e f d fs = (fs', True) \<Longrightarrow> fs' = mput f d (mdel (tmp_name f) fs)"
  by (auto simp: AtomicWriteFile_def atomic_write_states_def Let_def)

lemma AtomicWriteFile_no_faults:
  "AtomicWriteFile no_faults f d fs = (mput f d (mdel (tmp_name f) fs), True)"
  by (simp add: AtomicWriteFile_def atomic_write_states_def no_faults_def Let_def)

lemma AtomicWriteFile_fail:
  assumes "AtomicWriteFile e f d fs = (fs', False)" and "g \<noteq> tmp_name f"
  shows "mget fs' g = mget fs g"
  using assms
  by (auto simp: AtomicWriteFile_def atomic_write_states_def Let_def split: option.splits if_splits)

lemma atomic_write_states_old_or_new:
  assumes "s \<in> set (atomic_write_states e f d fs)"
  shows "mget s f = mget fs f \<or> mget s f = Some d"
  using assms
  by (auto simp: atomic_write_states_def Let_def split: option.splits if_splits)

lemma atomic_write_states_frame:
  assumes "s \<in> set (atomic_write_states e f d fs)" and "g \<noteq> f" and "g \<noteq> tmp_name f"
  shows "mget s g = mget fs g"
  using assms
  by (auto simp: atomic_write_states_def Let_def split: option.splits if_splits)

text \<open>The contract, for any way of writing a file that visits a list of states.\<close>

locale durable_write =
  fixes states :: "'d write_env \<Rightarrow> string \<Rightarrow> 'd \<Rightarrow> 'd fs \<Rightarrow> 'd fs list"
    and wr :: "'d write_env \<Rightarrow> string \<Rightarrow> 'd \<Rightarrow> 'd fs \<Rightarrow> 'd fs \<times> bool"
  assumes old_or_new: "s \<in> set (states e f d fs) \<Longrightarrow> mget s f = mget fs f \<or> mget s f = Some d"
    and result: "fst (wr e f d fs) \<in> set (states e f d fs)"
    and written: "wr e f d fs = (fs', True) \<Longrightarrow> mget fs' f = Some d"
    and unwritten: "wr e f d fs = (fs', False) \<Longrightarrow> mget fs' f = mget fs f"
begin

lemma never_torn:
  \<comment> \<open>a property both the old and the new contents have is one of the file in every state\<close>
  assumes "P (mget fs f)" and "P (Some d)" and "s \<in> set (states e f d fs)"
  shows "P (mget s f)"
  using old_or_new [OF assms(3)] assms(1,2) by auto

lemma result_contents:
  "mget (fst (wr e f d fs)) f = (if snd (wr e f d fs) then Some d else mget fs f)"
  using written unwritten by (cases "wr e f d fs"; cases "snd (wr e f d fs)") auto

end

interpretation atomic: durable_write atomic_write_states AtomicWriteFile
proof unfold_locales
  fix e :: "'d write_env" and f d s fs fs'
  show "s \<in> set (atomic_write_states e f d fs) \<Longrightarrow> mget s f = mget fs f \<or> mget s f = Some d"
    by (rule atomic_write_states_old_or_new)
  show "fst (AtomicWriteFile e f d fs) \<in> set (atomic_write_states e f d fs)"
    by (simp add: AtomicWriteFile_def)
  show "mget fs' f = Some d" if "AtomicWriteFile e f d fs = (fs', True)"
    using AtomicWriteFile_ok [OF that] by simp
  show "mget fs' f = mget fs f" if "AtomicWriteFile e f d fs = (fs', False)"
    using AtomicWriteFile_fail [OF that tmp_name_neq(2)] .
qed

text \<open>
  C25. Writing a file with \<open>AtomicWriteFile\<close> is atomic: whatever the operating system does, and
  in every state a crash can leave behind, the file holds its old contents or the new ones, no
  other file than it and its temporary file changes, and the new contents are there at the end
  exactly if success is reported.
\<close>

theorem AtomicWriteFile_atomic:
  "(\<forall>s \<in> set (atomic_write_states e f d fs).
      (mget s f = mget fs f \<or> mget s f = Some d)
      \<and> (\<forall>g. g \<noteq> f \<longrightarrow> g \<noteq> tmp_name f \<longrightarrow> mget s g = mget fs g))
   \<and> mget (fst (AtomicWriteFile e f d fs)) f
       = (if snd (AtomicWriteFile e f d fs) then Some d else mget fs f)"
proof (intro conjI ballI allI impI)
  fix s assume s: "s \<in> set (atomic_write_states e f d fs)"
  show "mget s f = mget fs f \<or> mget s f = Some d" using s by (rule atomic.old_or_new)
  show "mget s g = mget fs g" if "g \<noteq> f" "g \<noteq> tmp_name f" for g
    using s that by (rule atomic_write_states_frame)
qed (rule atomic.result_contents)

theorem AtomicWriteFile_atomic_witness:
  "let fs = [(''users.json'', 1::nat), (''a'', 7)];
       e = \<lparr>partials = [5], write_fails = None, rename_fails = True\<rparr>;
       crashed = [(''users.json'', 1), (''a'', 7), (''users.json.tmp'', 5)]
   in crashed \<in> set (atomic_write_states e ''users.json'' 2 fs)
      \<and> (mget crashed ''users.json'' = mget fs ''users.json'' \<or> mget crashed ''users.json'' = Some 2)
      \<and> mget crashed ''a'' = mget fs ''a''"
proof -
  let ?fs = "[(''users.json'', 1::nat), (''a'', 7)]"
  let ?e = "\<lparr>partials = [5::nat], write_fails = None, rename_fails = True\<rparr>"
  let ?s = "[(''users.json'', 1::nat), (''a'', 7), (''users.json.tmp'', 5)]"
  have "?s \<in> set (atomic_write_states ?e ''users.json'' 2 ?fs)"
    by (simp add: atomic_write_states_def tmp_name_def Let_def)
  moreover have "''a'' \<noteq> ''users.json''" "''a'' \<noteq> tmp_name ''users.json''"
    by (simp_all add: tmp_name_def)
  ultimately show ?thesis
    using AtomicWriteFile_atomic [of ?e "''users.json''" 2 ?fs] by (simp only: Let_def) blast
qed

end
