(* ===== verification/Argon2.thy ===== *)
theory Argon2
  imports Prelude
begin

text \<open>
  The interface of \<open>golang.org/x/crypto/argon2\<close>, which is not part of the repository: \<open>IDKey\<close> (it panics
  for parameters out of range) and the \<open>Version\<close> constant. \<open>auth.go\<close> and \<open>crypto.go\<close> both call it with
  time 1, memory \<open>64 * 1024\<close> (in KiB, so 64 MiB), four threads and a key of 32 bytes. \<open>argon2_ok\<close> is what
  the package documents and the code relies on: with these parameters it returns a key of the length
  asked for. \<open>toy_argon2\<close> is a concrete instance for the witnesses.
\<close>

record argon2 =
  IDKey :: "string \<Rightarrow> string \<Rightarrow> nat \<Rightarrow> nat \<Rightarrow> nat \<Rightarrow> nat \<Rightarrow> string outcome"
    \<comment> \<open>password, salt, time, memory, threads, key length\<close>
  argon2_Version :: int

definition argon2_ok :: "argon2 \<Rightarrow> bool" where
  "argon2_ok A =
     (in_int64 (argon2_Version A) \<and>
      (\<forall>p s. \<exists>k. IDKey A p s 1 (64 * 1024) 4 32 = Ret k \<and> length k = 32))"

definition toy_argon2 :: argon2 where
  \<comment> \<open>the key is the password and the salt, padded and cut to the key length\<close>
  "toy_argon2 =
     \<lparr>IDKey = (\<lambda>p s t m th n. if t < 1 \<or> th < 1 then Panic else Ret (take n (p @ s @ replicate n CHR ''x''))),
      argon2_Version = 19\<rparr>"

lemma toy_argon2_ok: "argon2_ok toy_argon2"
  by (auto simp: argon2_ok_def toy_argon2_def in_int64_def min_def)

lemma argon2_okD:
  assumes "argon2_ok A"
  obtains k where "IDKey A p s 1 (64 * 1024) 4 32 = Ret k" and "length k = 32"
  using assms unfolding argon2_ok_def by blast

end
