(* ===== verification/Auth.thy ===== *)
theory Auth
  imports Protocol FileUtil Argon2
begin

text \<open>
  \<open>internal/auth/auth.go\<close>: the authenticator. Its state is the map of users, the failed login attempts
  (brute-force protection), the dirty flag and the file system that holds \<open>users.json\<close>. Every
  operation takes what the environment gives it: the time, the random salt, the outcome of writing
  the file. \<open>MalformedUsers\<close> is a text that is not JSON; JSON of another shape is not modelled. Operations run one after
  another: each holds \<open>a.mu\<close>.

  \<open>golang.org/x/crypto/argon2\<close> is a parameter (theory \<open>Argon2\<close>).

  The lemmas show: a password verifies against its own hash; who gets in; a locked account answers no
  one; how many wrong passwords can be tried in a span of time; registration; restart.
\<close>

section \<open>Password hashes\<close>

definition ArgonTime :: nat where "ArgonTime = 1"
definition ArgonMemory :: nat where "ArgonMemory = 64 * 1024"
definition ArgonThreads :: nat where "ArgonThreads = 4"
definition ArgonKeyLen :: nat where "ArgonKeyLen = 32"
definition SaltLen :: nat where "SaltLen = 16"

lemmas argon_params = ArgonTime_def ArgonMemory_def ArgonThreads_def ArgonKeyLen_def

lemma IDKey_ok:
  assumes "argon2_ok A"
  obtains k where "IDKey A p s ArgonTime ArgonMemory ArgonThreads ArgonKeyLen = Ret k" and "length k = ArgonKeyLen"
  using argon2_okD [OF assms] unfolding argon_params .

definition encode_hash :: "argon2 \<Rightarrow> string \<Rightarrow> string \<Rightarrow> string" where
  \<comment> \<open>\<open>Sprintf("$argon2id$v=%d$m=%d,t=%d,p=%d$%s$%s", ...)\<close>\<close>
  "encode_hash A salt hash =
     ''$argon2id$v='' @ Itoa (argon2_Version A) @ ''$m='' @ show_nat ArgonMemory @ '',t='' @ show_nat ArgonTime
       @ '',p='' @ show_nat ArgonThreads @ ''$'' @ RawStdEncode salt @ ''$'' @ RawStdEncode hash"

definition HashPassword :: "argon2 \<Rightarrow> string option \<Rightarrow> string \<Rightarrow> string option outcome" where
  \<comment> \<open>the second argument is the salt \<open>rand.Read\<close> delivers; \<open>None\<close> is an error\<close>
  "HashPassword A rnd password =
     (case rnd of
        None \<Rightarrow> Ret None
      | Some salt \<Rightarrow>
          obind (IDKey A password salt ArgonTime ArgonMemory ArgonThreads ArgonKeyLen)
            (\<lambda>hash. Ret (Some (encode_hash A salt hash))))"

definition scan_params :: "string \<Rightarrow> (nat \<times> nat \<times> nat) option" where
  \<comment> \<open>\<open>Sscanf(s, "m=%d,t=%d,p=%d", ...)\<close> into a \<open>uint32\<close>, a \<open>uint32\<close> and a \<open>uint8\<close>\<close>
  "scan_params s =
     Option.bind (scan_lit ''m='' s) (\<lambda>s1.
     Option.bind (scan_uint 32 s1) (\<lambda>(m, s2).
     Option.bind (scan_lit '',t='' s2) (\<lambda>s3.
     Option.bind (scan_uint 32 s3) (\<lambda>(t, s4).
     Option.bind (scan_lit '',p='' s4) (\<lambda>s5.
     Option.bind (scan_uint 8 s5) (\<lambda>(p, _).
     Some (m, t, p)))))))"

definition VerifyPassword :: "argon2 \<Rightarrow> string \<Rightarrow> string \<Rightarrow> bool option outcome" where
  \<comment> \<open>\<open>None\<close> is an error\<close>
  "VerifyPassword A password encodedHash =
     (let parts = Split encodedHash CHR ''$'' in
      if length parts \<noteq> 6 then Ret None
      else if parts ! 1 \<noteq> ''argon2id'' then Ret None
      else case Option.bind (scan_lit ''v='' (parts ! 2)) scan_int of
        None \<Rightarrow> Ret None
      | Some (version, _) \<Rightarrow>
          if version \<noteq> argon2_Version A then Ret None
          else case scan_params (parts ! 3) of
            None \<Rightarrow> Ret None
          | Some (memory, time, threads) \<Rightarrow>
              case RawStdDecode (parts ! 4) of
                None \<Rightarrow> Ret None
              | Some salt \<Rightarrow>
                  case RawStdDecode (parts ! 5) of
                    None \<Rightarrow> Ret None
                  | Some decodedHash \<Rightarrow>
                      obind (IDKey A password salt time memory threads (length decodedHash mod 2 ^ 32))
                        (\<lambda>comparisonHash. Ret (Some (decodedHash = comparisonHash))))"

lemma nth_list6:
  "[a, b, c, d, e, f] ! 1 = b" "[a, b, c, d, e, f] ! 2 = c" "[a, b, c, d, e, f] ! 3 = d"
  "[a, b, c, d, e, f] ! 4 = e" "[a, b, c, d, e, f] ! 5 = f"
  by simp_all

lemma digits_no_dollar: "CHR ''$'' \<notin> set (show_nat n)"
  using show_nat_digits by (force simp: is_digit_def)

lemma Itoa_no_dollar: "CHR ''$'' \<notin> set (Itoa i)"
  using digits_no_dollar by (auto simp: Itoa_def)

lemma Split_encode_hash:
  "Split (encode_hash A salt hash) CHR ''$'' =
     [[], ''argon2id'', ''v='' @ Itoa (argon2_Version A),
      ''m='' @ show_nat ArgonMemory @ '',t='' @ show_nat ArgonTime @ '',p='' @ show_nat ArgonThreads,
      RawStdEncode salt, RawStdEncode hash]"
proof -
  let ?m = "''m='' @ show_nat ArgonMemory @ '',t='' @ show_nat ArgonTime @ '',p='' @ show_nat ArgonThreads"
  let ?d = "CHR ''$''"
  have "encode_hash A salt hash =
      [] @ ?d # ''argon2id'' @ ?d # (''v='' @ Itoa (argon2_Version A)) @ ?d # ?m @ ?d
        # RawStdEncode salt @ ?d # RawStdEncode hash"
    by (simp add: encode_hash_def)
  moreover have "?d \<notin> set ''argon2id''" "?d \<notin> set (''v='' @ Itoa (argon2_Version A))" "?d \<notin> set ?m"
    using digits_no_dollar Itoa_no_dollar by auto
  ultimately show ?thesis
    by (simp only: Split_append_sep rawstd.Split_enc_append rawstd.Split_enc b64_not_ok
        list.set empty_iff not_False_eq_True)
qed

lemma scan_params_encoded:
  "scan_params (''m='' @ show_nat ArgonMemory @ '',t='' @ show_nat ArgonTime @ '',p='' @ show_nat ArgonThreads)
     = Some (ArgonMemory, ArgonTime, ArgonThreads)"
  using scan_uint_show_nat [of ArgonMemory 32 "'',t='' @ show_nat ArgonTime @ '',p='' @ show_nat ArgonThreads"]
    scan_uint_show_nat [of ArgonTime 32 "'',p='' @ show_nat ArgonThreads"]
    scan_uint_show_nat [of ArgonThreads 8 "[]"]
  by (simp add: scan_params_def scan_lit_def HasPrefix_def is_digit_def ArgonMemory_def ArgonTime_def
      ArgonThreads_def)

lemma VerifyPassword_own_hash:
  assumes "argon2_ok A" and "HashPassword A (Some salt) p = Ret (Some h)"
  shows "VerifyPassword A p' h = Ret (Some
      (IDKey A p salt ArgonTime ArgonMemory ArgonThreads ArgonKeyLen
       = IDKey A p' salt ArgonTime ArgonMemory ArgonThreads ArgonKeyLen))"
proof -
  obtain k where k: "IDKey A p salt ArgonTime ArgonMemory ArgonThreads ArgonKeyLen = Ret k" "length k = ArgonKeyLen"
    using assms(1) by (rule IDKey_ok)
  obtain k' where k': "IDKey A p' salt ArgonTime ArgonMemory ArgonThreads ArgonKeyLen = Ret k'"
    using assms(1) by (rule IDKey_ok)
  have h: "h = encode_hash A salt k" using assms(2) k by (simp add: HashPassword_def)
  have version: "Option.bind (scan_lit ''v='' (''v='' @ Itoa (argon2_Version A))) scan_int
      = Some (argon2_Version A, [])"
    using scan_int_Itoa [of "argon2_Version A" "[]"] assms(1)
    by (simp add: argon2_ok_def scan_lit_def HasPrefix_def)
  have len: "length k mod 2 ^ 32 = ArgonKeyLen" using k by (simp add: ArgonKeyLen_def)
  show ?thesis
    unfolding VerifyPassword_def Let_def h Split_encode_hash nth_list6 version scan_params_encoded
      option.case prod.case rawstd.dec_enc len
    using k(1) k' by simp
qed

text \<open>
  C15. A stored hash verifies exactly the passwords that hash alike: whatever salt and version, verifying a
  password \<open>p'\<close> against the hash \<open>HashPassword\<close> made of \<open>p\<close> succeeds without error, and answers
  whether Argon2 gives both the same key under that salt. In particular every password verifies
  against its own hash.
\<close>

theorem VerifyPassword_HashPassword:
  assumes "argon2_ok A" and "HashPassword A (Some salt) p = Ret (Some h)"
  shows "VerifyPassword A p' h = Ret (Some
      (IDKey A p salt ArgonTime ArgonMemory ArgonThreads ArgonKeyLen
       = IDKey A p' salt ArgonTime ArgonMemory ArgonThreads ArgonKeyLen))"
  using assms by (rule VerifyPassword_own_hash)

theorem VerifyPassword_HashPassword_witness:
  "\<exists>h. HashPassword toy_argon2 (Some ''0123456789abcdef'') ''secret'' = Ret (Some h) \<and>
       VerifyPassword toy_argon2 ''secret'' h = Ret (Some True) \<and>
       VerifyPassword toy_argon2 ''guess'' h = Ret (Some False)"
proof -
  obtain h where h: "HashPassword toy_argon2 (Some ''0123456789abcdef'') ''secret'' = Ret (Some h)"
    by (simp add: HashPassword_def toy_argon2_def ArgonTime_def ArgonThreads_def)
  note * = VerifyPassword_HashPassword [OF toy_argon2_ok h]
  from *[of "''secret''"] *[of "''guess''"] h show ?thesis
    by (intro exI [of _ h]) (simp add: toy_argon2_def ArgonTime_def ArgonThreads_def ArgonKeyLen_def)
qed

section \<open>The authenticator\<close>

record user_profile =
  PasswordHash :: string
  Role :: string
  DisplayName :: string
  Status :: string
  LastSeen :: gotime

record login_attempt =
  count :: nat
  lockUntil :: gotime

datatype users_file =
    UsersFile "(string, user_profile) gomap"  \<comment> \<open>what decodes as \<open>map[string]*UserProfile\<close>\<close>
  | OldUsersFile "(string, string) gomap"     \<comment> \<open>what decodes only as \<open>map[string]string\<close>\<close>
  | MalformedUsers

record authenticator =
  users :: "(string, user_profile) gomap"
  failedAttempts :: "(string, login_attempt) gomap"
  dirty :: bool
  auth_fs :: "users_file fs"

definition maxLoginAttempts :: nat where "maxLoginAttempts = 5"
definition lockoutDuration :: int where "lockoutDuration = 15 * 60 * 10 ^ 9"
definition users_name :: string where "users_name = ''users.json''"

definition username_char :: "char \<Rightarrow> bool" where
  "username_char c =
     ((97 \<le> bval c \<and> bval c \<le> 122) \<or> (65 \<le> bval c \<and> bval c \<le> 90) \<or> is_digit c \<or> c = CHR ''_'' \<or> c = CHR ''-'')"

definition ValidateUsername :: "string \<Rightarrow> bool" where
  \<comment> \<open>the regular expression \<open>^[a-zA-Z0-9_-]{2,32}$\<close>; true where the code returns \<open>nil\<close>\<close>
  "ValidateUsername username = (2 \<le> length username \<and> length username \<le> 32 \<and> list_all username_char username)"

definition coerce_profile :: "user_profile \<Rightarrow> user_profile" where
  \<comment> \<open>what marshalling and unmarshalling makes of a profile\<close>
  "coerce_profile p =
     \<lparr>PasswordHash = utf8_coerce (PasswordHash p), Role = utf8_coerce (Role p),
      DisplayName = utf8_coerce (DisplayName p), Status = utf8_coerce (Status p),
      LastSeen = coerce_time (LastSeen p)\<rparr>"

definition users_json :: "(string, user_profile) gomap \<Rightarrow> (string, user_profile) gomap option" where
  "users_json m =
     (if list_all (\<lambda>(_, p). encodable_time (LastSeen p)) m
      then Some (fold (\<lambda>(k, p). mput (utf8_coerce k) (coerce_profile p)) m [])
      else None)"

definition saveIfDirty :: "users_file write_env \<Rightarrow> authenticator \<Rightarrow> authenticator" where
  "saveIfDirty e a =
     (if \<not> dirty a then a
      else case users_json (users a) of
        None \<Rightarrow> a
      | Some d \<Rightarrow>
          (case AtomicWriteFile e users_name (UsersFile d) (auth_fs a) of
             (fs, ok) \<Rightarrow> if ok then a\<lparr>auth_fs := fs, dirty := False\<rparr> else a\<lparr>auth_fs := fs\<rparr>))"

definition migrated :: "gotime \<Rightarrow> string \<Rightarrow> string \<Rightarrow> user_profile" where
  "migrated now name hash =
     \<lparr>PasswordHash = hash, Role = (if name = ''admin'' then ''admin'' else ''member''),
      DisplayName = name, Status = ''offline'', LastSeen = now\<rparr>"

definition Auth_migrate :: "users_file write_env \<Rightarrow> gotime \<Rightarrow> (string, string) gomap \<Rightarrow> authenticator \<Rightarrow> authenticator" where
  "Auth_migrate e now oldFormat a =
     saveIfDirty e (a\<lparr>users := fold (\<lambda>(name, hash). mput name (migrated now name hash)) oldFormat (users a),
                      dirty := True\<rparr>)"

definition Auth_load :: "users_file write_env \<Rightarrow> gotime \<Rightarrow> authenticator \<Rightarrow> authenticator \<times> bool" where
  \<comment> \<open>true where \<open>nil\<close> is returned. The profile looked at is whichever the iteration yields first; an object
     whose values are objects does not decode as the old format, an empty one does\<close>
  "Auth_load e now a =
     (case mget (auth_fs a) users_name of
        None \<Rightarrow> (a, False)
      | Some (UsersFile []) \<Rightarrow> (Auth_migrate e now [] a, True)
      | Some (UsersFile ((name, v) # rest)) \<Rightarrow>
          if PasswordHash v \<noteq> [] then (a\<lparr>users := (name, v) # rest\<rparr>, True) else (a, False)
      | Some (OldUsersFile oldFormat) \<Rightarrow> (Auth_migrate e now oldFormat a, True)
      | Some MalformedUsers \<Rightarrow> (a, False))"

definition NewAuthenticator :: "users_file write_env \<Rightarrow> gotime \<Rightarrow> users_file fs \<Rightarrow> authenticator" where
  "NewAuthenticator e now fs =
     fst (Auth_load e now \<lparr>users = [], failedAttempts = [], dirty = False, auth_fs = fs\<rparr>)"

section \<open>Operations\<close>

definition recordFailedAttempt :: "gotime \<Rightarrow> string \<Rightarrow> authenticator \<Rightarrow> authenticator" where
  "recordFailedAttempt now username a =
     (let att = mget_or \<lparr>count = 0, lockUntil = zero_time\<rparr> (failedAttempts a) username;
          att1 = att\<lparr>count := count att + 1\<rparr>;
          att2 = (if maxLoginAttempts \<le> count att1
                  then att1\<lparr>lockUntil := now\<lparr>tnanos := tnanos now + lockoutDuration\<rparr>\<rparr>
                  else att1)
      in a\<lparr>failedAttempts := mput username att2 (failedAttempts a)\<rparr>)"

definition is_locked :: "gotime \<Rightarrow> string \<Rightarrow> authenticator \<Rightarrow> bool" where
  \<comment> \<open>\<open>time.Now().Before(attempt.lockUntil)\<close> for the recorded attempt, if there is one\<close>
  "is_locked now username a =
     (case mget (failedAttempts a) username of None \<Rightarrow> False | Some att \<Rightarrow> After (lockUntil att) now)"

definition reset_expired :: "string \<Rightarrow> authenticator \<Rightarrow> authenticator" where
  "reset_expired username a =
     (case mget (failedAttempts a) username of
        None \<Rightarrow> a
      | Some att \<Rightarrow>
          if maxLoginAttempts \<le> count att
          then a\<lparr>failedAttempts := mput username (att\<lparr>count := 0\<rparr>) (failedAttempts a)\<rparr>
          else a)"

definition Auth_Check ::
  "argon2 \<Rightarrow> users_file write_env \<Rightarrow> gotime \<Rightarrow> string option \<Rightarrow> string \<Rightarrow> string \<Rightarrow> authenticator \<Rightarrow> (authenticator \<times> bool) outcome" where
  "Auth_Check A e now rnd username password a =
     (if is_locked now username a then Ret (a, False)
      else
        (let a = reset_expired username a in
         case mget (users a) username of
           None \<Rightarrow>
             obind (HashPassword A rnd ''dummy-password-for-timing'')
               (\<lambda>_. Ret (recordFailedAttempt now username a, False))
         | Some profile \<Rightarrow>
             if Status profile = ''banned'' then Ret (a, False)
             else
               obind (VerifyPassword A password (PasswordHash profile))
                 (\<lambda>res. case res of
                    None \<Rightarrow> Ret (a, False)
                  | Some True \<Rightarrow>
                      Ret (saveIfDirty e
                        (a\<lparr>failedAttempts := mdel username (failedAttempts a),
                           users := mput username (profile\<lparr>LastSeen := now, Status := ''online''\<rparr>) (users a),
                           dirty := True\<rparr>), True)
                  | Some False \<Rightarrow> Ret (recordFailedAttempt now username a, False))))"

definition Auth_Register ::
  "argon2 \<Rightarrow> users_file write_env \<Rightarrow> gotime \<Rightarrow> string option \<Rightarrow> string \<Rightarrow> string \<Rightarrow> authenticator \<Rightarrow> (authenticator \<times> bool) outcome" where
  "Auth_Register A e now rnd username password a =
     (if \<not> ValidateUsername username then Ret (a, False)
      else if length password < 4 then Ret (a, False)
      else if mhas (users a) username then Ret (a, False)
      else obind (HashPassword A rnd password)
        (\<lambda>res. case res of
           None \<Rightarrow> Ret (a, False)
         | Some hash \<Rightarrow>
             (let role = (if users a = [] then ''admin'' else ''member'');
                  p = \<lparr>PasswordHash = hash, Role = role, DisplayName = username,
                       Status = ''offline'', LastSeen = now\<rparr>
              in Ret (saveIfDirty e (a\<lparr>users := mput username p (users a), dirty := True\<rparr>), True))))"

definition Auth_SetRole :: "users_file write_env \<Rightarrow> string \<Rightarrow> string \<Rightarrow> authenticator \<Rightarrow> authenticator" where
  "Auth_SetRole e username role a =
     (case mget (users a) username of
        None \<Rightarrow> a
      | Some p \<Rightarrow> saveIfDirty e (a\<lparr>users := mput username (p\<lparr>Role := role\<rparr>) (users a), dirty := True\<rparr>))"

definition Auth_GetRole :: "authenticator \<Rightarrow> string \<Rightarrow> string" where
  "Auth_GetRole a username = (case mget (users a) username of None \<Rightarrow> ''member'' | Some p \<Rightarrow> Role p)"

definition Auth_SetStatus :: "users_file write_env \<Rightarrow> gotime \<Rightarrow> string \<Rightarrow> string \<Rightarrow> authenticator \<Rightarrow> authenticator" where
  "Auth_SetStatus e now username status a =
     (case mget (users a) username of
        None \<Rightarrow> a
      | Some p \<Rightarrow>
          saveIfDirty e (a\<lparr>users := mput username (p\<lparr>Status := status, LastSeen := now\<rparr>) (users a), dirty := True\<rparr>))"

definition Auth_GetStatus :: "authenticator \<Rightarrow> string \<Rightarrow> string" where
  "Auth_GetStatus a username = (case mget (users a) username of None \<Rightarrow> [] | Some p \<Rightarrow> Status p)"

datatype profile_value = PString string | PTime gotime

definition Auth_GetAllProfiles :: "authenticator \<Rightarrow> (string, (string, profile_value) gomap) gomap" where
  "Auth_GetAllProfiles a =
     map (\<lambda>(name, p). (name,
        [(''role'', PString (Role p)), (''display_name'', PString (DisplayName p)),
         (''status'', PString (Status p)), (''last_seen'', PTime (LastSeen p))])) (users a)"

definition Auth_UserExists :: "authenticator \<Rightarrow> string \<Rightarrow> bool" where
  "Auth_UserExists a username = mhas (users a) username"

definition ParseCredentials :: "string \<Rightarrow> string \<times> string" where
  "ParseCredentials cred =
     (let parts = SplitN2 cred CHR '':'' in if length parts \<noteq> 2 then ([], []) else (parts ! 0, parts ! 1))"

section \<open>Sequences of calls and the invariant\<close>

datatype auth_op =
    CheckOp string string
  | RegisterOp string string
  | SetRoleOp string string
  | SetStatusOp string string

record auth_env =
  env_write :: "users_file write_env"
  env_now :: gotime
  env_rnd :: "string option"

fun auth_call :: "argon2 \<Rightarrow> auth_env \<times> auth_op \<Rightarrow> authenticator \<Rightarrow> (authenticator \<times> bool) outcome" where
  "auth_call A (v, CheckOp u p) a = Auth_Check A (env_write v) (env_now v) (env_rnd v) u p a"
| "auth_call A (v, RegisterOp u p) a = Auth_Register A (env_write v) (env_now v) (env_rnd v) u p a"
| "auth_call A (v, SetRoleOp u r) a = Ret (Auth_SetRole (env_write v) u r a, True)"
| "auth_call A (v, SetStatusOp u st) a = Ret (Auth_SetStatus (env_write v) (env_now v) u st a, True)"

definition auth_step :: "argon2 \<Rightarrow> auth_env \<times> auth_op \<Rightarrow> authenticator \<Rightarrow> authenticator" where
  \<comment> \<open>a panic ends the program: the state it left is kept\<close>
  "auth_step A op a = (case auth_call A op a of Ret (a', _) \<Rightarrow> a' | _ \<Rightarrow> a)"

lemma saveIfDirty_simps [simp]:
  "users (saveIfDirty e a) = users a" "failedAttempts (saveIfDirty e a) = failedAttempts a"
  by (simp_all add: saveIfDirty_def split: option.split prod.split)

lemma reset_expired_simps [simp]:
  "users (reset_expired u a) = users a" "auth_fs (reset_expired u a) = auth_fs a"
  by (simp_all add: reset_expired_def split: option.split)

lemma recordFailedAttempt_simps [simp]:
  "users (recordFailedAttempt now u a) = users a" "auth_fs (recordFailedAttempt now u a) = auth_fs a"
  by (simp_all add: recordFailedAttempt_def Let_def)

definition attempt_ok :: "login_attempt \<Rightarrow> bool" where
  "attempt_ok att = (count att \<le> maxLoginAttempts)"

definition auth_ok :: "authenticator \<Rightarrow> bool" where
  "auth_ok a =
     (mkeys_distinct (users a) \<and> list_all (\<lambda>(name, _). ValidateUsername name) (users a) \<and>
      mkeys_distinct (failedAttempts a) \<and> list_all (\<lambda>(_, att). attempt_ok att) (failedAttempts a))"

lemma list_all_mput: "list_all P m \<Longrightarrow> P (k, v) \<Longrightarrow> list_all P (mput k v m)"
  using set_mput_subset [of k v m] by (auto simp: list_all_iff)

lemma list_all_mdel: "list_all P m \<Longrightarrow> list_all P (mdel k m)"
  using set_mdel_subset [of k m] by (auto simp: list_all_iff)

lemma list_all_mget: "list_all P m \<Longrightarrow> mget m k = Some v \<Longrightarrow> P (k, v)"
  using mget_Some_mem [of m k v] by (auto simp: list_all_iff)

lemma auth_ok_save [simp]: "auth_ok (saveIfDirty e a) = auth_ok a"
  by (simp add: auth_ok_def)

lemma auth_ok_reset: "auth_ok a \<Longrightarrow> auth_ok (reset_expired u a)"
  by (auto simp: auth_ok_def reset_expired_def attempt_ok_def intro!: list_all_mput split: option.split)

text \<open>After the reset of an expired lockout an attempt has a count below the maximum.\<close>

lemma reset_expired_count:
  "mget_or \<lparr>count = 0, lockUntil = zero_time\<rparr> (failedAttempts (reset_expired u a)) u = att
    \<Longrightarrow> count att < maxLoginAttempts"
  by (auto simp: reset_expired_def mget_or_def maxLoginAttempts_def split: option.splits if_splits)

lemma auth_ok_record: "auth_ok a \<Longrightarrow> auth_ok (recordFailedAttempt now u (reset_expired u a))"
  using reset_expired_count [OF refl, of u a] auth_ok_reset [of a u]
  by (auto simp: auth_ok_def recordFailedAttempt_def Let_def attempt_ok_def intro!: list_all_mput)

lemma auth_ok_user:
  "auth_ok a \<Longrightarrow> ValidateUsername u \<Longrightarrow> auth_ok (a\<lparr>users := mput u p (users a), dirty := d\<rparr>)"
  by (auto simp: auth_ok_def intro!: list_all_mput)

lemma auth_ok_first: "auth_ok a \<Longrightarrow> ValidateUsername u \<Longrightarrow> auth_ok (a\<lparr>users := [(u, p)], dirty := d\<rparr>)"
  by (simp add: auth_ok_def mkeys_distinct_def)

lemma auth_ok_name: "auth_ok a \<Longrightarrow> mget (users a) u = Some p \<Longrightarrow> ValidateUsername u"
  using list_all_mget [of "\<lambda>(name, _). ValidateUsername name" "users a" u p] by (simp add: auth_ok_def)

lemma auth_ok_cleared: "auth_ok a \<Longrightarrow> auth_ok (a\<lparr>failedAttempts := mdel u (failedAttempts a)\<rparr>)"
  by (auto simp: auth_ok_def intro!: list_all_mdel)

section \<open>Who gets in\<close>

lemma Auth_Check_cases:
  \<comment> \<open>the branches of a call that returns\<close>
  assumes "Auth_Check A e now rnd u pw a = Ret (a', r)"
  obtains
    (locked) "is_locked now u a" "a' = a" "\<not> r"
  | (unknown) "\<not> is_locked now u a" "mget (users a) u = None"
      "a' = recordFailedAttempt now u (reset_expired u a)" "\<not> r"
  | (banned) p where "\<not> is_locked now u a" "mget (users a) u = Some p" "Status p = ''banned''"
      "a' = reset_expired u a" "\<not> r"
  | (bad_hash) p where "\<not> is_locked now u a" "mget (users a) u = Some p" "Status p \<noteq> ''banned''"
      "VerifyPassword A pw (PasswordHash p) = Ret None" "a' = reset_expired u a" "\<not> r"
  | (wrong) p where "\<not> is_locked now u a" "mget (users a) u = Some p" "Status p \<noteq> ''banned''"
      "VerifyPassword A pw (PasswordHash p) = Ret (Some False)"
      "a' = recordFailedAttempt now u (reset_expired u a)" "\<not> r"
  | (success) p where "\<not> is_locked now u a" "mget (users a) u = Some p" "Status p \<noteq> ''banned''"
      "VerifyPassword A pw (PasswordHash p) = Ret (Some True)"
      "a' = saveIfDirty e ((reset_expired u a)
         \<lparr>failedAttempts := mdel u (failedAttempts (reset_expired u a)),
          users := mput u (p\<lparr>LastSeen := now, Status := ''online''\<rparr>) (users a), dirty := True\<rparr>)" "r"
proof (cases "is_locked now u a")
  case True
  with assms show thesis by (intro locked) (simp_all add: Auth_Check_def)
next
  case nl: False
  show thesis
  proof (cases "mget (users a) u")
    case None
    with assms nl show thesis by (intro unknown) (auto simp: Auth_Check_def Let_def obind_Ret_iff)
  next
    case (Some p)
    show thesis
    proof (cases "Status p = ''banned''")
      case True
      with assms nl Some show thesis by (intro banned [OF nl Some]) (auto simp: Auth_Check_def Let_def)
    next
      case False
      with assms nl Some obtain res where res: "VerifyPassword A pw (PasswordHash p) = Ret res"
        and rest: "Ret (a', r) = (case res of None \<Rightarrow> Ret (reset_expired u a, False)
            | Some True \<Rightarrow> Ret (saveIfDirty e ((reset_expired u a)
                \<lparr>failedAttempts := mdel u (failedAttempts (reset_expired u a)),
                 users := mput u (p\<lparr>LastSeen := now, Status := ''online''\<rparr>) (users a), dirty := True\<rparr>), True)
            | Some False \<Rightarrow> Ret (recordFailedAttempt now u (reset_expired u a), False))"
        by (auto simp: Auth_Check_def Let_def obind_Ret_iff)
      show thesis
      proof (cases res)
        case None
        with res rest show thesis by (intro bad_hash [OF nl Some False]) simp_all
      next
        case (Some b)
        with res rest show thesis
          by (cases b) (intro success [OF nl \<open>mget (users a) u = Some p\<close> False], simp_all,
            intro wrong [OF nl \<open>mget (users a) u = Some p\<close> False], simp_all)
      qed
    qed
  qed
qed

lemma auth_ok_step:
  assumes "auth_ok a"
  shows "auth_ok (auth_step A op a)"
proof (cases "auth_call A op a")
  case (Ret x)
  obtain v op' a' r where op: "op = (v, op')" and x: "x = (a', r)" by (cases op; cases x)
  have "auth_ok a'"
  proof (cases op')
    case (CheckOp u pw)
    with Ret x op have "Auth_Check A (env_write v) (env_now v) (env_rnd v) u pw a = Ret (a', r)" by simp
    then show ?thesis
    proof (cases rule: Auth_Check_cases)
      case (success p)
      then show ?thesis
        using auth_ok_user [OF auth_ok_cleared [OF auth_ok_reset [OF assms, of u], of u], of u]
          auth_ok_name [OF assms] by (simp add: auth_ok_def)
    qed (use assms auth_ok_reset auth_ok_record in auto)
  next
    case (RegisterOp u pw)
    then show ?thesis using Ret x op assms
      by (auto simp: auth_ok_first Auth_Register_def obind_Ret_iff Let_def auth_ok_user split: if_splits option.splits)
  next
    case (SetRoleOp u r)
    then show ?thesis using Ret x op assms auth_ok_name
      by (auto simp: Auth_SetRole_def auth_ok_user split: option.splits)
  next
    case (SetStatusOp u st)
    then show ?thesis using Ret x op assms auth_ok_name
      by (auto simp: Auth_SetStatus_def auth_ok_user split: option.splits)
  qed
  with Ret x show ?thesis by (simp add: auth_step_def)
qed (simp_all add: auth_step_def assms)

interpretation authn: invariant_machine "auth_step A" auth_ok for A
  by unfold_locales (rule auth_ok_step)

lemma reset_expired_other: "v \<noteq> u \<Longrightarrow> mget (failedAttempts (reset_expired u a)) v = mget (failedAttempts a) v"
  by (auto simp: reset_expired_def split: option.split)

lemma recordFailedAttempt_other:
  "v \<noteq> u \<Longrightarrow> mget (failedAttempts (recordFailedAttempt now u a)) v = mget (failedAttempts a) v"
  by (simp add: recordFailedAttempt_def Let_def)

definition empty_auth :: authenticator where
  "empty_auth = NewAuthenticator no_faults zero_time []"

text \<open>
  C9. Who gets in: a call of \<open>Check\<close> that returns answers yes exactly if the account is not locked, is
  registered, is not banned and the password verifies against the stored hash without error. On a yes
  the failed attempts are forgotten and the user is online as of now; on a no no profile changes. The
  attempts of other names are never touched.
\<close>

theorem Check_answer:
  assumes "Auth_Check A e now rnd u pw a = Ret (a', r)"
  shows "r = (\<not> is_locked now u a \<and>
        (case mget (users a) u of
           None \<Rightarrow> False
         | Some p \<Rightarrow> Status p \<noteq> ''banned'' \<and> VerifyPassword A pw (PasswordHash p) = Ret (Some True))) \<and>
    (if r
     then mget (failedAttempts a') u = None \<and>
          (case mget (users a) u of
             None \<Rightarrow> False
           | Some p \<Rightarrow> users a' = mput u (p\<lparr>LastSeen := now, Status := ''online''\<rparr>) (users a))
     else users a' = users a) \<and>
    (\<forall>v. v \<noteq> u \<longrightarrow> mget (failedAttempts a') v = mget (failedAttempts a) v)"
  using assms
  by (cases rule: Auth_Check_cases; simp add: reset_expired_other recordFailedAttempt_other)

theorem Check_answer_witness:
  "\<exists>a'. Auth_Check toy_argon2 no_faults zero_time (Some ''0123456789abcdef'') ''bob'' ''guess'' empty_auth = Ret (a', False) \<and>
     users a' = [] \<and> mget (failedAttempts a') ''ann'' = None"
proof -
  obtain a' where c: "Auth_Check toy_argon2 no_faults zero_time (Some ''0123456789abcdef'') ''bob'' ''guess'' empty_auth = Ret (a', False)"
    by (simp add: Auth_Check_def is_locked_def reset_expired_def HashPassword_def toy_argon2_def argon_params
        empty_auth_def NewAuthenticator_def Auth_load_def Let_def)
  from Check_answer [OF c] c show ?thesis
    by (simp add: empty_auth_def NewAuthenticator_def Auth_load_def)
qed

section \<open>Brute force\<close>

text \<open>
  A wrong guess is a call of \<open>Check\<close> in which a password is tried against an unlocked name and turned
  down; a right one lets the caller in.
\<close>

definition guess_result :: "argon2 \<Rightarrow> gotime \<Rightarrow> string \<Rightarrow> string \<Rightarrow> authenticator \<Rightarrow> bool option" where
  \<comment> \<open>\<open>None\<close>: nothing is learnt about a password\<close>
  "guess_result A now u pw a =
     (if is_locked now u a then None
      else case mget (users a) u of
        None \<Rightarrow> Some False
      | Some p \<Rightarrow>
          if Status p = ''banned'' then None
          else case VerifyPassword A pw (PasswordHash p) of Ret res \<Rightarrow> res | _ \<Rightarrow> None)"

fun op_guess :: "argon2 \<Rightarrow> string \<Rightarrow> auth_env \<times> auth_op \<Rightarrow> authenticator \<Rightarrow> bool option" where
  "op_guess A u (v, CheckOp w pw) a = (if w = u then guess_result A (env_now v) u pw a else None)"
| "op_guess A u (v, _) a = None"

fun guesses :: "argon2 \<Rightarrow> string \<Rightarrow> (auth_env \<times> auth_op) list \<Rightarrow> authenticator \<Rightarrow> bool list" where
  \<comment> \<open>the outcomes of the guesses at \<open>u\<close>'s password in a run, which a panic ends\<close>
  "guesses A u [] a = []"
| "guesses A u (op # ops) a =
     (case auth_call A op a of
        Ret (a', _) \<Rightarrow> (case op_guess A u op a of None \<Rightarrow> [] | Some g \<Rightarrow> [g]) @ guesses A u ops a'
      | _ \<Rightarrow> [])"

definition op_nanos :: "auth_env \<times> auth_op \<Rightarrow> int" where
  "op_nanos op = tnanos (env_now (fst op))"

fun lock_state :: "login_attempt option \<Rightarrow> int \<Rightarrow> int \<Rightarrow> int" where
  \<comment> \<open>how many more wrong guesses the attempt record \<open>att\<close> allows from \<open>t\<close> until \<open>T\<close>\<close>
  "lock_state None t T = 5 + 5 * ((T - t) div lockoutDuration)"
| "lock_state (Some att) t T =
     (if t < tnanos (lockUntil att) then 5 + 5 * ((T - tnanos (lockUntil att)) div lockoutDuration)
      else 5 - int (if maxLoginAttempts \<le> count att then 0 else count att) + 5 * ((T - t) div lockoutDuration))"

abbreviation allowance :: "string \<Rightarrow> authenticator \<Rightarrow> int \<Rightarrow> int \<Rightarrow> int" where
  "allowance u a t T \<equiv> lock_state (mget (failedAttempts a) u) t T"

definition lock_sound :: "string \<Rightarrow> authenticator \<Rightarrow> int \<Rightarrow> bool" where
  \<comment> \<open>no lock reaches further than the lockout duration from now\<close>
  "lock_sound u a t =
     (case mget (failedAttempts a) u of None \<Rightarrow> True | Some att \<Rightarrow> tnanos (lockUntil att) \<le> t + lockoutDuration)"

lemma lockout_pos [simp]: "0 < lockoutDuration" "lockoutDuration \<noteq> 0"
  by (simp_all add: lockoutDuration_def)

lemma lock_state_later:
  assumes "t \<le> t'" and "t' \<le> T"
  shows "lock_state att t' T \<le> lock_state att t T"
proof (cases att)
  case None
  then show ?thesis using assms zdiv_mono1 [of "T - t'" "T - t" lockoutDuration] by simp
next
  case (Some x)
  have "(T - t') div lockoutDuration \<le> (T - t) div lockoutDuration"
    using assms by (intro zdiv_mono1) simp_all
  moreover have "(T - t') div lockoutDuration \<le> (T - tnanos (lockUntil x)) div lockoutDuration"
    if "tnanos (lockUntil x) \<le> t'"
    using that by (intro zdiv_mono1) simp_all
  ultimately show ?thesis using assms Some by auto
qed

lemma lock_sound_later: "lock_sound u a t \<Longrightarrow> t \<le> t' \<Longrightarrow> lock_sound u a t'"
  by (auto simp: lock_sound_def split: option.splits)

lemma lock_state_nonneg:
  assumes "lock_sound u a t" and "t \<le> T" and "auth_ok a"
  shows "0 \<le> allowance u a t T"
proof (cases "mget (failedAttempts a) u")
  case None
  then show ?thesis using assms by (simp add: pos_imp_zdiv_nonneg_iff)
next
  case (Some att)
  have "- 1 \<le> (T - tnanos (lockUntil att)) div lockoutDuration"
    using assms(1,2) Some zdiv_mono1 [of "- lockoutDuration" "T - tnanos (lockUntil att)" lockoutDuration]
    by (simp add: lock_sound_def lockoutDuration_def)
  moreover have "0 \<le> (T - t) div lockoutDuration"
    using assms(2) by (simp add: pos_imp_zdiv_nonneg_iff)
  ultimately show ?thesis using Some by (simp add: maxLoginAttempts_def)
qed

lemma lock_state_le:
  assumes "t \<le> T"
  shows "lock_state att t T \<le> 5 + 5 * ((T - t) div lockoutDuration)"
proof (cases att)
  case (Some x)
  have "(T - tnanos (lockUntil x)) div lockoutDuration \<le> (T - t) div lockoutDuration"
    if "t < tnanos (lockUntil x)"
    using that by (intro zdiv_mono1) simp_all
  with Some show ?thesis by simp
qed simp

text \<open>A wrong guess costs one of what the record allows, and the fifth one buys a lockout.\<close>

lemma record_allowance:
  assumes "\<not> is_locked now u a" and "tnanos now \<le> T" and "tnanos zero_time \<le> tnanos now"
  shows "allowance u (recordFailedAttempt now u (reset_expired u a)) (tnanos now) T + 1
      \<le> allowance u a (tnanos now) T"
proof -
  have minus: "(T - (tnanos now + lockoutDuration)) div lockoutDuration = (T - tnanos now) div lockoutDuration - 1"
    using div_add_self2 [of lockoutDuration "T - tnanos now - lockoutDuration"] by (simp add: algebra_simps)
  show ?thesis
  proof (cases "mget (failedAttempts a) u")
    case None
    then show ?thesis using assms
      by (simp add: reset_expired_def recordFailedAttempt_def mget_or_def maxLoginAttempts_def zero_time_def
          Let_def lockoutDuration_def)
  next
    case (Some att)
    have "tnanos (lockUntil att) \<le> tnanos now" using assms(1) Some by (simp add: is_locked_def After_def)
    then show ?thesis using Some minus
      by (auto simp: reset_expired_def recordFailedAttempt_def mget_or_def maxLoginAttempts_def Let_def)
  qed
qed

lemma reset_allowance: "\<not> is_locked now u a \<Longrightarrow>
    allowance u (reset_expired u a) (tnanos now) T = allowance u a (tnanos now) T"
  by (auto simp: reset_expired_def maxLoginAttempts_def is_locked_def After_def split: option.splits)

lemma lock_sound_reset: "lock_sound u a t \<Longrightarrow> lock_sound u (reset_expired w a) t"
  by (auto simp: lock_sound_def reset_expired_def split: option.splits)

lemma lock_sound_record:
  assumes "lock_sound u a (tnanos now)" and "tnanos zero_time \<le> tnanos now"
  shows "lock_sound u (recordFailedAttempt now w a) (tnanos now)"
proof -
  have "(case mget (failedAttempts a) u of None \<Rightarrow> tnanos zero_time | Some att \<Rightarrow> tnanos (lockUntil att))
      \<le> tnanos now + lockoutDuration"
    using assms by (auto simp: lock_sound_def lockoutDuration_def split: option.splits)
  with assms show ?thesis
    by (auto simp: lock_sound_def recordFailedAttempt_def mget_or_def Let_def split: option.splits)
qed

lemma guess_step:
  assumes call: "auth_call A op a = Ret (a', r)" and guess: "op_guess A u op a \<noteq> Some True"
    and ok: "lock_sound u a (op_nanos op)" "tnanos zero_time \<le> op_nanos op" "op_nanos op \<le> T"
  shows "allowance u a' (op_nanos op) T + (if op_guess A u op a = None then 0 else 1)
      \<le> allowance u a (op_nanos op) T \<and> lock_sound u a' (op_nanos op)"
proof -
  obtain v op' where op: "op = (v, op')" by (cases op)
  have now: "op_nanos op = tnanos (env_now v)" by (simp add: op_nanos_def op)
  show ?thesis
  proof (cases op')
    case (CheckOp w pw)
    with call op have call': "Auth_Check A (env_write v) (env_now v) (env_rnd v) w pw a = Ret (a', r)" by simp
    show ?thesis
    proof (cases "w = u")
      case False
      with call' have "mget (failedAttempts a') u = mget (failedAttempts a) u"
        by (cases rule: Auth_Check_cases; simp add: reset_expired_other recordFailedAttempt_other)
      with False op CheckOp ok show ?thesis by (simp add: lock_sound_def)
    next
      case True
      from call' show ?thesis
      proof (cases rule: Auth_Check_cases)
        case locked
        with True op CheckOp ok show ?thesis by (simp add: guess_result_def)
      next
        case (success p)
        with True op CheckOp guess show ?thesis by (simp add: guess_result_def)
      qed (use True op CheckOp ok now reset_allowance [of "env_now v" u a T] record_allowance [of "env_now v" u a T] in
          \<open>simp_all add: guess_result_def lock_sound_reset lock_sound_record\<close>)
    qed
  next
    case (RegisterOp w pw)
    with call op have "failedAttempts a' = failedAttempts a"
      by (auto simp: Auth_Register_def obind_Ret_iff Let_def split: if_splits option.splits)
    with RegisterOp op ok show ?thesis by (simp add: lock_sound_def)
  next
    case (SetRoleOp w r)
    with call op have "failedAttempts a' = failedAttempts a"
      by (auto simp: Auth_SetRole_def split: option.splits)
    with SetRoleOp op ok show ?thesis by (simp add: lock_sound_def)
  next
    case (SetStatusOp w st)
    with call op have "failedAttempts a' = failedAttempts a"
      by (auto simp: Auth_SetStatus_def split: option.splits)
    with SetStatusOp op ok show ?thesis by (simp add: lock_sound_def)
  qed
qed

lemma guesses_allowance:
  assumes "auth_ok a" and "lock_sound u a t" and "tnanos zero_time \<le> t" and "t \<le> T"
    and "sorted (t # map op_nanos ops)" and "list_all (\<lambda>op. op_nanos op \<le> T) ops"
    and "True \<notin> set (guesses A u ops a)"
  shows "int (length (guesses A u ops a)) \<le> allowance u a t T"
  using assms
proof (induction ops arbitrary: a t)
  case Nil
  then show ?case using lock_state_nonneg [of u a t T] by simp
next
  case (Cons op ops)
  let ?n = "op_nanos op"
  have n: "t \<le> ?n" "?n \<le> T" "tnanos zero_time \<le> ?n" "lock_sound u a ?n"
    using Cons.prems lock_sound_later [of u a t ?n] by auto
  have later: "allowance u a ?n T \<le> allowance u a t T" using n by (intro lock_state_later)
  show ?case
  proof (cases "auth_call A op a")
    case (Ret x)
    obtain a' r where x: "x = (a', r)" by (cases x)
    have guess: "op_guess A u op a \<noteq> Some True" using Cons.prems(7) Ret x by auto
    note step = guess_step [OF Ret [unfolded x] guess n(4,3,2)]
    have "auth_ok a'" using authn.step_invar [OF Cons.prems(1), of A op] Ret x by (simp add: auth_step_def)
    then have "int (length (guesses A u ops a')) \<le> allowance u a' ?n T"
      using Cons.prems step n Ret x by (intro Cons.IH) auto
    with step later Ret x show ?thesis by (auto split: option.split)
  qed (use lock_state_nonneg [of u a t T] Cons.prems in simp_all)
qed

text \<open>
  C10. Brute force is bounded: in any run of calls of the authenticator, on any names, with a clock that
  does not run backwards, as long as nobody guesses \<open>u\<close>'s password, at most five wrong guesses at it
  are evaluated, and five more for each full lockout duration (15 minutes) the run lasts.
\<close>

theorem brute_force_bounded:
  assumes "auth_ok a" and "lock_sound u a t" and "tnanos zero_time \<le> t" and "t \<le> T"
    and "sorted (t # map op_nanos ops)" and "list_all (\<lambda>op. op_nanos op \<le> T) ops"
    and "True \<notin> set (guesses A u ops a)"
  shows "int (length (guesses A u ops a)) \<le> 5 + 5 * ((T - t) div lockoutDuration)"
  using guesses_allowance [OF assms] lock_state_le [OF assms(4)] by (rule order_trans)

definition at_time :: "int \<Rightarrow> auth_env" where
  "at_time t = \<lparr>env_write = no_faults, env_now = \<lparr>tnanos = t, toffset = 0\<rparr>, env_rnd = Some ''0123456789abcdef''\<rparr>"

lemma empty_auth_simps [simp]:
  "users empty_auth = []" "failedAttempts empty_auth = []" "auth_ok empty_auth"
  by (simp_all add: empty_auth_def NewAuthenticator_def Auth_load_def auth_ok_def)

theorem brute_force_bounded_witness:
  "let ops = replicate 9 (at_time 0, CheckOp ''bob'' ''guess'')
   in length (guesses toy_argon2 ''bob'' ops empty_auth) = 5 \<and>
      int (length (guesses toy_argon2 ''bob'' ops empty_auth)) \<le> 5 + 5 * ((7 - 0) div lockoutDuration)"
proof -
  let ?ops = "replicate 9 (at_time 0, CheckOp ''bob'' ''guess'')"
  have g: "guesses toy_argon2 ''bob'' ?ops empty_auth = [False, False, False, False, False]"
    by (simp add: eval_nat_numeral at_time_def Auth_Check_def is_locked_def reset_expired_def HashPassword_def
        toy_argon2_def ArgonTime_def ArgonThreads_def recordFailedAttempt_def guess_result_def mget_or_def
        maxLoginAttempts_def After_def zero_time_def lockoutDuration_def Let_def)
  have "int (length (guesses toy_argon2 ''bob'' ?ops empty_auth)) \<le> 5 + 5 * ((7 - 0) div lockoutDuration)"
  proof (rule brute_force_bounded)
    show "True \<notin> set (guesses toy_argon2 ''bob'' ?ops empty_auth)" unfolding g by simp
  qed (simp_all add: lock_sound_def op_nanos_def at_time_def zero_time_def list_all_iff)
  with g show ?thesis by (simp add: Let_def)
qed

section \<open>Registration\<close>

text \<open>
  A user who registers gets in: after a successful \<open>Register\<close> the same name and password pass
  \<open>Check\<close>, at any later time, unless the name is locked (failed logins on a name count before
  it is registered, too); the user is then online, and the first user there ever was is the admin.
\<close>

theorem registered_user_gets_in:
  assumes "argon2_ok A" and "Auth_Register A e now (Some salt) u pw a = Ret (a1, True)"
    and "\<not> is_locked now2 u a1"
  shows "\<exists>a2. Auth_Check A e2 now2 rnd u pw a1 = Ret (a2, True) \<and> Auth_GetStatus a2 u = ''online'' \<and>
      Auth_GetRole a2 u = (if users a = [] then ''admin'' else ''member'')"
proof -
  obtain h where h: "HashPassword A (Some salt) pw = Ret (Some h)"
    and u: "mget (users a1) u = Some \<lparr>PasswordHash = h, Role = (if users a = [] then ''admin'' else ''member''),
        DisplayName = u, Status = ''offline'', LastSeen = now\<rparr>"
    using assms(2) by (auto simp: Auth_Register_def obind_Ret_iff Let_def split: if_splits option.splits)
  have "VerifyPassword A pw h = Ret (Some True)" using VerifyPassword_own_hash [OF assms(1) h, of pw] by simp
  with u assms(3) show ?thesis
    by (auto simp: Auth_Check_def Let_def Auth_GetStatus_def Auth_GetRole_def)
qed

lemma empty_auth_state:
  "empty_auth = \<lparr>users = [], failedAttempts = [], dirty = False, auth_fs = []\<rparr>"
  by (simp add: empty_auth_def NewAuthenticator_def Auth_load_def)

theorem registered_user_gets_in_witness:
  "\<exists>a1 a2. Auth_Register toy_argon2 no_faults zero_time (Some ''0123456789abcdef'') ''ann'' ''pass'' empty_auth
        = Ret (a1, True) \<and>
      Auth_Check toy_argon2 no_faults zero_time None ''ann'' ''pass'' a1 = Ret (a2, True) \<and>
      Auth_GetStatus a2 ''ann'' = ''online'' \<and> Auth_GetRole a2 ''ann'' = ''admin''"
proof -
  let ?reg = "Auth_Register toy_argon2 no_faults zero_time (Some ''0123456789abcdef'') ''ann'' ''pass'' empty_auth"
  obtain a1 where reg: "?reg = Ret (a1, True)" and "failedAttempts a1 = []"
    by (simp add: Auth_Register_def ValidateUsername_def username_char_def mhas_def HashPassword_def
        toy_argon2_def ArgonTime_def ArgonThreads_def Let_def)
  then have "\<not> is_locked zero_time ''ann'' a1" by (simp add: is_locked_def)
  from registered_user_gets_in [OF toy_argon2_ok reg this, of no_faults None] reg show ?thesis by auto
qed

definition admins :: "authenticator \<Rightarrow> (string, user_profile) gomap" where
  "admins a = filter (\<lambda>(_, p). Role p = ''admin'') (users a)"

definition one_admin :: "authenticator \<Rightarrow> bool" where
  "one_admin a = (length (admins a) = (if users a = [] then 0 else 1))"

lemma admins_mput_role:
  "mget m u = Some p \<Longrightarrow> Role q = Role p \<Longrightarrow>
    length (filter (\<lambda>(_, p). Role p = ''admin'') (mput u q m)) = length (filter (\<lambda>(_, p). Role p = ''admin'') m)"
  by (induction m) (auto split: if_splits)

lemma one_admin_save [simp]: "one_admin (saveIfDirty e a) = one_admin a"
  by (simp add: one_admin_def admins_def)

lemma one_admin_mput:
  assumes "one_admin a" and "mget (users a) u = Some p" and "Role q = Role p"
  shows "one_admin (a\<lparr>users := mput u q (users a), dirty := d\<rparr>)"
  using assms admins_mput_role [OF assms(2,3)]
  by (cases "users a") (auto simp: one_admin_def admins_def split: if_splits)

lemma one_admin_new:
  assumes "one_admin a" and "mget (users a) u = None"
  shows "one_admin (a\<lparr>users := mput u \<lparr>PasswordHash = h, Role = (if users a = [] then ''admin'' else ''member''),
      DisplayName = u, Status = ''offline'', LastSeen = now\<rparr> (users a), dirty := d\<rparr>)"
  using assms by (auto simp: one_admin_def admins_def mput_fresh map_of_eq_None_iff)

lemma one_admin_cong: "users a' = users a \<Longrightarrow> one_admin a' = one_admin a"
  by (simp add: one_admin_def admins_def)

fun grants_role :: "auth_env \<times> auth_op \<Rightarrow> bool" where
  "grants_role (v, SetRoleOp u r) = True"
| "grants_role (v, _) = False"

lemma one_admin_step:
  assumes "one_admin a" and "\<not> grants_role op"
  shows "one_admin (auth_step A op a)"
proof (cases "auth_call A op a")
  case (Ret x)
  obtain v op' a' r where op: "op = (v, op')" and x: "x = (a', r)" by (cases op; cases x)
  have "one_admin a'"
  proof (cases op')
    case (CheckOp u pw)
    with Ret x op have "Auth_Check A (env_write v) (env_now v) (env_rnd v) u pw a = Ret (a', r)" by simp
    then show ?thesis
    proof (cases rule: Auth_Check_cases)
      case (success p)
      then have "users a' = users (a\<lparr>users := mput u (p\<lparr>LastSeen := env_now v, Status := ''online''\<rparr>) (users a), dirty := True\<rparr>)"
        by simp
      from one_admin_cong [OF this] show ?thesis
        using one_admin_mput [OF assms(1) success(2), of "p\<lparr>LastSeen := env_now v, Status := ''online''\<rparr>" True] by simp
    qed (use assms(1) one_admin_cong [of a' a] in simp_all)
  next
    case (RegisterOp u pw)
    then show ?thesis using Ret x op assms one_admin_new [OF assms(1), of u]
      by (auto simp: Auth_Register_def mhas_def obind_Ret_iff Let_def split: if_splits option.splits)
  next
    case (SetStatusOp u st)
    then show ?thesis using Ret x op assms
      by (auto simp: Auth_SetStatus_def intro!: one_admin_mput [OF assms(1)] split: option.splits)
  qed (use assms(2) op in simp)
  with Ret x show ?thesis by (simp add: auth_step_def)
qed (simp_all add: auth_step_def assms)

text \<open>
  C29. There is exactly one admin: starting without users, after any sequence of registrations, logins
  and status changes (everything but \<open>SetRole\<close>), and whatever the clock, the random source and the
  disk do, exactly one user is an admin as soon as there is a user at all.
\<close>

theorem exactly_one_admin:
  assumes "list_all (\<lambda>op. \<not> grants_role op) ops"
  shows "length (admins (fold (auth_step A) ops empty_auth))
    = (if users (fold (auth_step A) ops empty_auth) = [] then 0 else 1)"
proof -
  have "one_admin (fold (auth_step A) ops a)" if "one_admin a" for a
    using that assms by (induction ops arbitrary: a) (simp_all add: one_admin_step)
  from this [of empty_auth] show ?thesis by (simp add: one_admin_def admins_def)
qed

theorem exactly_one_admin_witness:
  "let ops = [(at_time 1, RegisterOp ''ann'' ''pass''), (at_time 2, RegisterOp ''bob'' ''word''),
              (at_time 3, SetStatusOp ''bob'' ''away'')]
   in length (admins (fold (auth_step toy_argon2) ops empty_auth))
      = (if users (fold (auth_step toy_argon2) ops empty_auth) = [] then 0 else 1) \<and>
      map fst (users (fold (auth_step toy_argon2) ops empty_auth)) = [''ann'', ''bob'']"
proof -
  let ?ops = "[(at_time 1, RegisterOp ''ann'' ''pass''), (at_time 2, RegisterOp ''bob'' ''word''),
    (at_time 3, SetStatusOp ''bob'' ''away'')]"
  have names: "map fst (users (fold (auth_step toy_argon2) ?ops empty_auth)) = [''ann'', ''bob'']"
    by (simp add: auth_step_def at_time_def Auth_Register_def Auth_SetStatus_def ValidateUsername_def
        username_char_def mhas_def HashPassword_def toy_argon2_def ArgonTime_def ArgonThreads_def Let_def)
  have "list_all (\<lambda>op. \<not> grants_role op) ?ops" by simp
  from conjI [OF exactly_one_admin [OF this, of toy_argon2] names] show ?thesis by (simp only: Let_def)
qed

section \<open>Restart\<close>

definition clean_instant :: "gotime \<Rightarrow> bool" where
  "clean_instant t = (encodable_time t \<and> coerce_time t = t)"

definition clean_user :: "string \<times> user_profile \<Rightarrow> bool" where
  \<comment> \<open>an entry that marshalling keeps as it is, and that the new format is recognised by\<close>
  "clean_user x = (case x of (name, p) \<Rightarrow>
     valid_utf8 name \<and> valid_utf8 (PasswordHash p) \<and> PasswordHash p \<noteq> [] \<and> valid_utf8 (Role p) \<and>
     valid_utf8 (DisplayName p) \<and> valid_utf8 (Status p) \<and> clean_instant (LastSeen p))"

definition auth_durable :: "authenticator \<Rightarrow> bool" where
  \<comment> \<open>the file holds exactly the users in memory; there is none before the first user registers\<close>
  "auth_durable a =
     (mkeys_distinct (users a) \<and> list_all clean_user (users a) \<and>
      mget (auth_fs a) users_name = (if users a = [] then None else Some (UsersFile (users a))))"

lemma users_json_clean:
  assumes "mkeys_distinct m" and "list_all clean_user m"
  shows "users_json m = Some m"
proof -
  have "fold (\<lambda>(k, p). mput (utf8_coerce k) (coerce_profile p)) m [] = m"
    using assms by (intro fold_coerce_id)
      (auto simp: list_all_iff clean_user_def clean_instant_def coerce_profile_def valid_utf8_def)
  with assms(2) show ?thesis
    by (auto simp: users_json_def list_all_iff clean_user_def clean_instant_def)
qed

lemma mput_not_Nil [simp]: "mput k v m \<noteq> []"
  by (cases m) auto

lemma durable_user:
  assumes "auth_durable a" and "clean_user (u, p)"
  shows "auth_durable (saveIfDirty no_faults (a\<lparr>failedAttempts := fa, users := mput u p (users a), dirty := True\<rparr>))"
proof -
  have "users_json (mput u p (users a)) = Some (mput u p (users a))"
    using assms by (intro users_json_clean) (auto simp: auth_durable_def intro: list_all_mput)
  with assms show ?thesis
    by (auto simp: auth_durable_def saveIfDirty_def AtomicWriteFile_no_faults intro: list_all_mput)
qed

lemma durable_user':
  assumes "auth_durable a" and "clean_user (u, p)"
  shows "auth_durable (saveIfDirty no_faults (a\<lparr>users := mput u p (users a), dirty := True\<rparr>))"
  using durable_user [OF assms, of "failedAttempts a"] by simp

lemma durable_first:
  assumes "auth_durable a" and "clean_user (u, p)" and "users a = []"
  shows "auth_durable (saveIfDirty no_faults (a\<lparr>users := [(u, p)], dirty := True\<rparr>))"
  using durable_user' [OF assms(1,2)] assms(3) by simp

lemma durable_same: "auth_durable a \<Longrightarrow> users a' = users a \<Longrightarrow> auth_fs a' = auth_fs a \<Longrightarrow> auth_durable a'"
  by (simp add: auth_durable_def)

lemma clean_user_get: "auth_durable a \<Longrightarrow> mget (users a) u = Some p \<Longrightarrow> clean_user (u, p)"
  using list_all_mget [of clean_user "users a" u p] by (simp add: auth_durable_def)

lemma ascii_append: "list_all (\<lambda>c. bval c < 0x80) (s @ t) \<longleftrightarrow> list_all (\<lambda>c. bval c < 0x80) s \<and> list_all (\<lambda>c. bval c < 0x80) t"
  by simp

lemma ascii_show_nat: "list_all (\<lambda>c. bval c < 0x80) (show_nat n)"
  using show_nat_digits [of _ n] by (force simp: list_all_iff is_digit_def)

lemma ascii_Itoa: "list_all (\<lambda>c. bval c < 0x80) (Itoa i)"
  using ascii_show_nat by (simp add: Itoa_def)

lemma ascii_b64: "list_all (\<lambda>c. bval c < 0x80) (b64_encode pad s)"
proof -
  have "bval c < 0x80" if "b64_ok c" for c
    using that by (auto simp: b64_ok_def b64_val_def Let_def split: if_splits)
  with b64_encode_chars show ?thesis by (fastforce simp: list_all_iff)
qed

lemma encode_hash_clean: "valid_utf8 (encode_hash A salt hash) \<and> encode_hash A salt hash \<noteq> []"
  using ascii_show_nat ascii_Itoa ascii_b64
  by (intro conjI valid_utf8_ascii) (simp_all add: encode_hash_def)

lemma ascii_username: "ValidateUsername u \<Longrightarrow> valid_utf8 u"
  by (rule valid_utf8_ascii)
    (auto simp: ValidateUsername_def list_all_iff username_char_def is_digit_def)

fun clean_call :: "auth_env \<times> auth_op \<Rightarrow> bool" where
  "clean_call (v, op) =
     (env_write v = no_faults \<and> clean_instant (env_now v) \<and>
      (case op of SetRoleOp u r \<Rightarrow> valid_utf8 r | SetStatusOp u s \<Rightarrow> valid_utf8 s | _ \<Rightarrow> True))"

lemma auth_durable_step:
  assumes "auth_durable a" and "clean_call op"
  shows "auth_durable (auth_step A op a)"
proof (cases "auth_call A op a")
  case (Ret x)
  obtain v op' a' r where op: "op = (v, op')" and x: "x = (a', r)" by (cases op; cases x)
  have v: "env_write v = no_faults" "clean_instant (env_now v)" using assms(2) op by simp_all
  have strings: "valid_utf8 ''online''" "valid_utf8 ''offline''" "valid_utf8 ''admin''" "valid_utf8 ''member''"
    by (simp_all add: valid_utf8_ascii)
  have "auth_durable a'"
  proof (cases op')
    case (CheckOp u pw)
    with Ret x op have "Auth_Check A (env_write v) (env_now v) (env_rnd v) u pw a = Ret (a', r)" by simp
    then show ?thesis
    proof (cases rule: Auth_Check_cases)
      case (success p)
      have "clean_user (u, p\<lparr>LastSeen := env_now v, Status := ''online''\<rparr>)"
        using clean_user_get [OF assms(1) success(2)] v strings by (simp add: clean_user_def)
      from durable_user [OF durable_same [OF assms(1), of "reset_expired u a"] this,
          of "mdel u (failedAttempts (reset_expired u a))"] success(5)
      show ?thesis by (simp add: v reset_expired_def split: option.splits if_splits)
    qed (use durable_same [OF assms(1), of a'] in simp_all)
  next
    case (RegisterOp u pw)
    then show ?thesis
      using Ret x op assms v strings encode_hash_clean ascii_username [of u]
      by (auto simp: Auth_Register_def HashPassword_def obind_Ret_iff Let_def clean_user_def
          intro!: durable_user' durable_first split: if_splits option.splits)
  next
    case (SetRoleOp u r)
    then show ?thesis using Ret x op assms v clean_user_get [OF assms(1), of u]
      by (auto simp: Auth_SetRole_def clean_user_def intro!: durable_user' split: option.splits)
  next
    case (SetStatusOp u st)
    then show ?thesis using Ret x op assms v clean_user_get [OF assms(1), of u]
      by (auto simp: Auth_SetStatus_def clean_user_def intro!: durable_user' split: option.splits)
  qed
  with Ret x show ?thesis by (simp add: auth_step_def)
qed (simp_all add: auth_step_def assms)

text \<open>
  Users survive a restart, lockouts do not: after any sequence of calls, on a disk that works and with
  UTF-8 texts, an authenticator that starts from the file has exactly the users, hashes, roles and
  statuses of the running one, and no failed attempts.
\<close>

theorem restart_keeps_users:
  assumes "auth_durable a" and "list_all clean_call ops"
  shows "users (NewAuthenticator e now (auth_fs (fold (auth_step A) ops a))) = users (fold (auth_step A) ops a) \<and>
    failedAttempts (NewAuthenticator e now (auth_fs (fold (auth_step A) ops a))) = []"
proof -
  define b where "b = fold (auth_step A) ops a"
  have b: "auth_durable b"
    unfolding b_def using assms by (induction ops arbitrary: a) (simp_all add: auth_durable_step)
  show ?thesis
  proof (cases "users b")
    case Nil
    with b show ?thesis by (simp add: b_def [symmetric] NewAuthenticator_def Auth_load_def auth_durable_def)
  next
    case (Cons x rest)
    obtain name p where x: "x = (name, p)" by (cases x)
    have "PasswordHash p \<noteq> []" using b Cons x by (simp add: auth_durable_def clean_user_def)
    with b Cons x show ?thesis
      by (simp add: b_def [symmetric] NewAuthenticator_def Auth_load_def auth_durable_def)
  qed
qed

lemma auth_durable_empty: "auth_durable empty_auth"
  by (simp add: auth_durable_def empty_auth_state)

theorem restart_keeps_users_witness:
  "let v = \<lparr>env_write = no_faults, env_now = zero_time, env_rnd = Some ''0123456789abcdef''\<rparr>;
       b = fold (auth_step toy_argon2) [(v, RegisterOp ''ann'' ''pass''), (v, CheckOp ''ann'' ''nope'')] empty_auth
   in users (NewAuthenticator no_faults zero_time (auth_fs b)) = users b \<and>
      failedAttempts (NewAuthenticator no_faults zero_time (auth_fs b)) = []"
proof -
  let ?v = "\<lparr>env_write = no_faults, env_now = zero_time, env_rnd = Some ''0123456789abcdef''\<rparr>"
  have "clean_instant zero_time"
    by (simp add: clean_instant_def zero_time_def encodable_time_def coerce_time_def minute_offset_def Let_def)
  then have "list_all clean_call [(?v, RegisterOp ''ann'' ''pass''), (?v, CheckOp ''ann'' ''nope'')]" by simp
  from restart_keeps_users [OF auth_durable_empty this, of no_faults zero_time toy_argon2]
  show ?thesis by (simp only: Let_def)
qed

end
