(* ===== verification/ChannelManager.thy ===== *)
theory ChannelManager
  imports Protocol FileUtil
begin

text \<open>
  \<open>internal/channel/channel.go\<close>: the channel manager. Its state is the map of channels and the
  file system that holds \<open>channels.json\<close>; every operation that changes a channel saves the whole map,
  and its result is ignored by all callers, as in the code. The contents of the file are the map that
  \<open>json.Unmarshal\<close> gives for it, or \<open>MalformedChannels\<close>, a text that is not JSON. A file changed by hand into JSON of
  another shape (a value of a wrong type, after which \<open>Unmarshal\<close> keeps what it has decoded so far, or a \<open>null\<close> for a
  map or a channel) is not modelled. Operations run one after another: each holds
  \<open>m.mu\<close> from start to end.

  \<open>spec_step\<close> is the abstract specification: a channel is its set of members with their roles, its topic,
  description and privacy, and an operation changes that map. The lemmas show that the manager
  implements it, keeps its invariant, and is the same after a restart.
\<close>

section \<open>Channels\<close>

definition RoleAdmin :: string where "RoleAdmin = ''admin''"
definition RoleModerator :: string where "RoleModerator = ''moderator''"
definition RoleMember :: string where "RoleMember = ''member''"

definition channel_name_char :: "char \<Rightarrow> bool" where
  "channel_name_char c =
     ((97 \<le> bval c \<and> bval c \<le> 122) \<or> is_digit c \<or> c = CHR ''_'' \<or> c = CHR ''-'')"

definition ValidateChannelName :: "string \<Rightarrow> bool" where
  \<comment> \<open>the regular expression \<open>^[a-z0-9_-]{2,32}$\<close>; true where the code returns \<open>nil\<close>\<close>
  "ValidateChannelName name = (2 \<le> length name \<and> length name \<le> 32 \<and> list_all channel_name_char name)"

record channel =
  Name :: string
  Topic :: string
  Description :: string
  IsPrivate :: bool
  CreatedBy :: string
  CreatedAt :: gotime
  Members :: "(string, string) gomap"

datatype channels_file = ChannelsFile "(string, channel) gomap" | MalformedChannels

record manager =
  channels :: "(string, channel) gomap"
  mgr_fs :: "channels_file fs"

definition channels_name :: string where "channels_name = ''channels.json''"

definition coerce_channel :: "channel \<Rightarrow> channel" where
  \<comment> \<open>what marshalling and unmarshalling makes of a channel\<close>
  "coerce_channel c =
     \<lparr>Name = utf8_coerce (Name c), Topic = utf8_coerce (Topic c),
      Description = utf8_coerce (Description c), IsPrivate = IsPrivate c,
      CreatedBy = utf8_coerce (CreatedBy c), CreatedAt = coerce_time (CreatedAt c),
      Members = fold (\<lambda>(u, r). mput (utf8_coerce u) (utf8_coerce r)) (Members c) []\<rparr>"

definition channels_json :: "(string, channel) gomap \<Rightarrow> (string, channel) gomap option" where
  "channels_json m =
     (if list_all (\<lambda>(_, c). encodable_time (CreatedAt c)) m
      then Some (fold (\<lambda>(k, c). mput (utf8_coerce k) (coerce_channel c)) m [])
      else None)"

definition Manager_save :: "channels_file write_env \<Rightarrow> manager \<Rightarrow> manager" where
  "Manager_save e m =
     (case channels_json (channels m) of
        None \<Rightarrow> m
      | Some d \<Rightarrow> m\<lparr>mgr_fs := fst (AtomicWriteFile e channels_name (ChannelsFile d) (mgr_fs m))\<rparr>)"

definition Manager_load :: "channels_file fs \<Rightarrow> (string, channel) gomap option" where
  "Manager_load fs =
     (case mget fs channels_name of Some (ChannelsFile d) \<Rightarrow> Some d | _ \<Rightarrow> None)"

definition general_channel :: "gotime \<Rightarrow> channel" where
  "general_channel now =
     \<lparr>Name = ''general'', Topic = ''General discussion'', Description = [], IsPrivate = False,
      CreatedBy = ''system'', CreatedAt = now, Members = []\<rparr>"

definition NewManager :: "channels_file write_env \<Rightarrow> gotime \<Rightarrow> channels_file fs \<Rightarrow> manager" where
  "NewManager e now fs =
     (case Manager_load fs of
        Some d \<Rightarrow> \<lparr>channels = d, mgr_fs = fs\<rparr>
      | None \<Rightarrow> Manager_save e \<lparr>channels = [(''general'', general_channel now)], mgr_fs = fs\<rparr>)"

section \<open>Operations\<close>

definition Manager_Create ::
  "channels_file write_env \<Rightarrow> gotime \<Rightarrow> string \<Rightarrow> string \<Rightarrow> bool \<Rightarrow> manager \<Rightarrow> manager \<times> bool" where
  "Manager_Create e now name createdBy isPrivate m =
     (if \<not> ValidateChannelName name then (m, False)
      else if mhas (channels m) name then (m, False)
      else
        (let c = \<lparr>Name = name, Topic = [], Description = [], IsPrivate = isPrivate,
                  CreatedBy = createdBy, CreatedAt = now, Members = [(createdBy, RoleAdmin)]\<rparr>
         in (Manager_save e (m\<lparr>channels := mput name c (channels m)\<rparr>), True)))"

definition update_channel :: "channels_file write_env \<Rightarrow> string \<Rightarrow> (channel \<Rightarrow> channel) \<Rightarrow> manager \<Rightarrow> manager \<times> bool" where
  \<comment> \<open>the shape the four operations below share: find the channel, change it through its pointer, save\<close>
  "update_channel e name f m =
     (case mget (channels m) name of
        None \<Rightarrow> (m, False)
      | Some ch \<Rightarrow> (Manager_save e (m\<lparr>channels := mput name (f ch) (channels m)\<rparr>), True))"

definition Manager_Join :: "channels_file write_env \<Rightarrow> string \<Rightarrow> string \<Rightarrow> manager \<Rightarrow> manager \<times> bool" where
  "Manager_Join e channelName user m =
     (case mget (channels m) channelName of
        None \<Rightarrow> (m, False)
      | Some ch \<Rightarrow>
          if mhas (Members ch) user then (m, True)
          else update_channel e channelName
                 (\<lambda>ch. ch\<lparr>Members := mput user RoleMember (Members ch)\<rparr>) m)"

definition Manager_Leave :: "channels_file write_env \<Rightarrow> string \<Rightarrow> string \<Rightarrow> manager \<Rightarrow> manager \<times> bool" where
  "Manager_Leave e channelName user =
     update_channel e channelName (\<lambda>ch. ch\<lparr>Members := mdel user (Members ch)\<rparr>)"

definition Manager_SetTopic :: "channels_file write_env \<Rightarrow> string \<Rightarrow> string \<Rightarrow> manager \<Rightarrow> manager \<times> bool" where
  "Manager_SetTopic e channelName topic = update_channel e channelName (\<lambda>ch. ch\<lparr>Topic := topic\<rparr>)"

definition Manager_SetDescription :: "channels_file write_env \<Rightarrow> string \<Rightarrow> string \<Rightarrow> manager \<Rightarrow> manager \<times> bool" where
  "Manager_SetDescription e channelName desc = update_channel e channelName (\<lambda>ch. ch\<lparr>Description := desc\<rparr>)"

definition Manager_IsMember :: "manager \<Rightarrow> string \<Rightarrow> string \<Rightarrow> bool" where
  "Manager_IsMember m channelName user =
     (case mget (channels m) channelName of None \<Rightarrow> False | Some ch \<Rightarrow> mhas (Members ch) user)"

definition Manager_GetRole :: "manager \<Rightarrow> string \<Rightarrow> string \<Rightarrow> string" where
  "Manager_GetRole m channelName user =
     (case mget (channels m) channelName of None \<Rightarrow> [] | Some ch \<Rightarrow> mget_or [] (Members ch) user)"

definition Manager_List :: "bool \<Rightarrow> manager \<Rightarrow> channel list" where
  "Manager_List includePrivate m =
     filter (\<lambda>ch. \<not> IsPrivate ch \<or> includePrivate) (map snd (channels m))"

definition Manager_ListUserChannels :: "string \<Rightarrow> manager \<Rightarrow> string list" where
  "Manager_ListUserChannels user m =
     map fst (filter (\<lambda>(name, ch). mhas (Members ch) user) (channels m))"

definition Manager_Exists :: "manager \<Rightarrow> string \<Rightarrow> bool" where
  "Manager_Exists m name = mhas (channels m) name"

definition Manager_GetMembers :: "manager \<Rightarrow> string \<Rightarrow> (string, string) gomap option" where
  "Manager_GetMembers m channelName = map_option Members (mget (channels m) channelName)"

definition Manager_Get :: "manager \<Rightarrow> string \<Rightarrow> channel option" where
  "Manager_Get m name = mget (channels m) name"

datatype manager_op =
    CreateOp gotime string string bool
  | JoinOp string string
  | LeaveOp string string
  | SetTopicOp string string
  | SetDescriptionOp string string

fun manager_call :: "channels_file write_env \<times> manager_op \<Rightarrow> manager \<Rightarrow> manager \<times> bool" where
  "manager_call (e, CreateOp now name by p) m = Manager_Create e now name by p m"
| "manager_call (e, JoinOp ch u) m = Manager_Join e ch u m"
| "manager_call (e, LeaveOp ch u) m = Manager_Leave e ch u m"
| "manager_call (e, SetTopicOp ch t) m = Manager_SetTopic e ch t m"
| "manager_call (e, SetDescriptionOp ch d) m = Manager_SetDescription e ch d m"

definition manager_step :: "channels_file write_env \<times> manager_op \<Rightarrow> manager \<Rightarrow> manager" where
  "manager_step op m = fst (manager_call op m)"

lemmas manager_defs = Manager_Create_def Manager_Join_def Manager_Leave_def Manager_SetTopic_def
  Manager_SetDescription_def update_channel_def

lemma Manager_save_channels [simp]: "channels (Manager_save e m) = channels m"
  by (simp add: Manager_save_def split: option.split)

section \<open>The invariant\<close>

definition channel_ok :: "string \<times> channel \<Rightarrow> bool" where
  "channel_ok p =
     (ValidateChannelName (fst p) \<and> Name (snd p) = fst p \<and> mkeys_distinct (Members (snd p)) \<and>
      list_all (\<lambda>(u, r). r = RoleMember \<or> r = RoleAdmin \<and> u = CreatedBy (snd p)) (Members (snd p)))"

definition manager_ok :: "manager \<Rightarrow> bool" where
  "manager_ok m =
     (mkeys_distinct (channels m) \<and> list_all channel_ok (channels m) \<and> mhas (channels m) ''general'')"

lemma manager_ok_get:
  assumes "manager_ok m" and "mget (channels m) name = Some ch"
  shows "channel_ok (name, ch)"
  using assms mget_Some_mem [of "channels m" name ch] by (auto simp: manager_ok_def list_all_iff)

lemma manager_ok_put:
  assumes "manager_ok m" and "channel_ok (name, ch)"
  shows "manager_ok (m\<lparr>channels := mput name ch (channels m)\<rparr>)"
  using assms set_mput_subset [of name ch "channels m"]
  by (auto simp: manager_ok_def list_all_iff mhas_def)

lemma manager_ok_save [simp]: "manager_ok (Manager_save e m) = manager_ok m"
  by (simp add: manager_ok_def)

lemma manager_ok_update:
  assumes "manager_ok m" and "\<And>ch. channel_ok (name, ch) \<Longrightarrow> channel_ok (name, f ch)"
  shows "manager_ok (fst (update_channel e name f m))"
  using assms manager_ok_get [OF assms(1)]
  by (auto simp: update_channel_def intro!: manager_ok_put split: option.split)

lemma channel_ok_join: "channel_ok (name, ch) \<Longrightarrow>
    channel_ok (name, ch\<lparr>Members := mput u RoleMember (Members ch)\<rparr>)"
  using set_mput_subset [of u RoleMember "Members ch"]
  by (fastforce simp: channel_ok_def list_all_iff)

lemma channel_ok_leave: "channel_ok (name, ch) \<Longrightarrow>
    channel_ok (name, ch\<lparr>Members := mdel u (Members ch)\<rparr>)"
  using set_mdel_subset [of u "Members ch"]
  by (fastforce simp: channel_ok_def list_all_iff)

lemma manager_ok_step:
  assumes "manager_ok m"
  shows "manager_ok (manager_step op m)"
proof -
  obtain e o' where op: "op = (e, o')" by (cases op)
  show ?thesis
  proof (cases o')
    case (CreateOp now name by' p)
    have "ValidateChannelName name \<Longrightarrow> channel_ok (name,
        \<lparr>Name = name, Topic = [], Description = [], IsPrivate = p, CreatedBy = by', CreatedAt = now,
         Members = [(by', RoleAdmin)]\<rparr>)"
      by (simp add: channel_ok_def mkeys_distinct_def)
    with assms show ?thesis
      by (simp add: manager_step_def op CreateOp Manager_Create_def Let_def manager_ok_put)
  qed (use assms in \<open>auto simp: manager_step_def op Manager_Join_def Manager_Leave_def Manager_SetTopic_def
      Manager_SetDescription_def channel_ok_def intro!: manager_ok_update split: option.split
      dest: channel_ok_join channel_ok_leave\<close>)
qed

interpretation mgr: invariant_machine manager_step manager_ok
  by unfold_locales (rule manager_ok_step)

lemma manager_ok_NewManager:
  assumes "case Manager_load fs of None \<Rightarrow> True | Some d \<Rightarrow> manager_ok \<lparr>channels = d, mgr_fs = fs\<rparr>"
  shows "manager_ok (NewManager e now fs)"
proof -
  have "channel_ok (''general'', general_channel now)"
    by (simp add: channel_ok_def general_channel_def ValidateChannelName_def channel_name_char_def)
  with assms show ?thesis
    by (auto simp: NewManager_def split: option.splits) (simp add: manager_ok_def mhas_def mkeys_distinct_def)
qed

text \<open>
  C18. Channels stay well formed. Whatever calls a manager that started without a file has answered, and whatever
  became of its writes: each channel is kept under its own, valid name, with one role for each member; only the one who
  created a channel can be its admin, everybody else, and a creator who left and came back, is a plain member; nobody
  is ever a moderator; and \<open>general\<close> is always there.
\<close>

theorem channels_well_formed:
  assumes "Manager_load fs = None" and "mget (channels (fold manager_step ops (NewManager e now fs))) name = Some ch"
  shows "ValidateChannelName name \<and> Name ch = name \<and> mkeys_distinct (Members ch) \<and>
    (\<forall>u r. mget (Members ch) u = Some r \<longrightarrow> r = RoleMember \<or> r = RoleAdmin \<and> u = CreatedBy ch) \<and>
    Manager_Exists (fold manager_step ops (NewManager e now fs)) ''general''"
proof -
  let ?m = "fold manager_step ops (NewManager e now fs)"
  have ok: "manager_ok ?m" using mgr.run_invar [of "NewManager e now fs"] manager_ok_NewManager [of fs] assms(1) by simp
  have "channel_ok (name, ch)" using manager_ok_get [OF ok assms(2)] .
  then have "ValidateChannelName name" "Name ch = name" "mkeys_distinct (Members ch)"
    "\<forall>u r. mget (Members ch) u = Some r \<longrightarrow> r = RoleMember \<or> r = RoleAdmin \<and> u = CreatedBy ch"
    by (auto simp: channel_ok_def list_all_iff dest!: mget_Some_mem)
  then show ?thesis using ok by (simp add: manager_ok_def Manager_Exists_def)
qed

theorem channels_well_formed_witness:
  "let ops = [(no_faults, CreateOp zero_time ''go'' ''ann'' False), (no_faults, LeaveOp ''go'' ''ann''), (no_faults, JoinOp ''go'' ''ann'')];
       m = fold manager_step ops (NewManager no_faults zero_time [])
   in \<exists>ch. mget (channels m) ''go'' = Some ch \<and> mget (Members ch) ''ann'' = Some RoleMember \<and> Name ch = ''go''"
proof -
  let ?ops = "[(no_faults, CreateOp zero_time ''go'' ''ann'' False), (no_faults, LeaveOp ''go'' ''ann''), (no_faults, JoinOp ''go'' ''ann'')]"
  have load: "Manager_load [] = None" by (simp add: Manager_load_def)
  obtain ch where ch: "mget (channels (fold manager_step ?ops (NewManager no_faults zero_time []))) ''go'' = Some ch"
    and m: "mget (Members ch) ''ann'' = Some RoleMember"
    by (simp add: manager_step_def Manager_Create_def Manager_Leave_def Manager_Join_def update_channel_def NewManager_def load
        ValidateChannelName_def channel_name_char_def mhas_def Let_def)
  from channels_well_formed [OF load ch] ch m show ?thesis by (auto simp: Let_def)
qed

section \<open>The manager implements its specification\<close>

record spec_channel =
  sp_members :: "string \<rightharpoonup> string"
  sp_topic :: string
  sp_desc :: string
  sp_private :: bool

type_synonym spec_channels = "string \<rightharpoonup> spec_channel"

definition channel_abs :: "channel \<Rightarrow> spec_channel" where
  "channel_abs c =
     \<lparr>sp_members = mget (Members c), sp_topic = Topic c, sp_desc = Description c, sp_private = IsPrivate c\<rparr>"

definition manager_abs :: "manager \<Rightarrow> spec_channels" where
  "manager_abs m = (\<lambda>name. map_option channel_abs (mget (channels m) name))"

definition spec_update :: "string \<Rightarrow> (spec_channel \<Rightarrow> spec_channel) \<Rightarrow> spec_channels \<Rightarrow> spec_channels \<times> bool" where
  "spec_update name f A = (case A name of None \<Rightarrow> (A, False) | Some c \<Rightarrow> (A(name \<mapsto> f c), True))"

fun spec_manager_call :: "manager_op \<Rightarrow> spec_channels \<Rightarrow> spec_channels \<times> bool" where
  "spec_manager_call (CreateOp now name by p) A =
     (if ValidateChannelName name \<and> A name = None
      then (A(name \<mapsto> \<lparr>sp_members = [by \<mapsto> RoleAdmin], sp_topic = [], sp_desc = [], sp_private = p\<rparr>), True)
      else (A, False))"
| "spec_manager_call (JoinOp name u) A =
     spec_update name (\<lambda>c. if u \<in> dom (sp_members c) then c
                          else c\<lparr>sp_members := (sp_members c)(u \<mapsto> RoleMember)\<rparr>) A"
| "spec_manager_call (LeaveOp name u) A = spec_update name (\<lambda>c. c\<lparr>sp_members := (sp_members c)(u := None)\<rparr>) A"
| "spec_manager_call (SetTopicOp name t) A = spec_update name (\<lambda>c. c\<lparr>sp_topic := t\<rparr>) A"
| "spec_manager_call (SetDescriptionOp name d) A = spec_update name (\<lambda>c. c\<lparr>sp_desc := d\<rparr>) A"

lemma manager_abs_save [simp]: "manager_abs (Manager_save e m) = manager_abs m"
  by (simp add: manager_abs_def)

lemma manager_abs_put:
  "manager_abs (m\<lparr>channels := mput name c (channels m)\<rparr>) = (manager_abs m)(name \<mapsto> channel_abs c)"
  by (rule ext) (simp add: manager_abs_def)

lemma manager_abs_update:
  assumes "\<And>c. channel_abs (f c) = g (channel_abs c)"
  shows "(case update_channel e name f m of (m', r) \<Rightarrow> (manager_abs m', r)) = spec_update name g (manager_abs m)"
  using assms
  by (simp add: update_channel_def spec_update_def manager_abs_put split: option.split)
    (simp add: manager_abs_def)

text \<open>
  C17. The channel manager implements its specification: whatever the file system does, each of
  \<open>Create\<close>, \<open>Join\<close>, \<open>Leave\<close>, \<open>SetTopic\<close> and \<open>SetDescription\<close> has the effect of the
  abstract operation on the map from channels to members with roles, and gives its answer: \<open>Create\<close>
  refuses an invalid or taken name and makes the creator the admin and only member, \<open>Join\<close> keeps the
  role of a user who is a member already, and nothing else changes.
\<close>

theorem manager_refines_spec:
  "(case manager_call (e, op) m of (m', r) \<Rightarrow> (manager_abs m', r)) = spec_manager_call op (manager_abs m)"
proof (cases op)
  case (CreateOp now name by' p)
  have "channel_abs \<lparr>Name = name, Topic = [], Description = [], IsPrivate = p, CreatedBy = by',
      CreatedAt = now, Members = [(by', RoleAdmin)]\<rparr>
    = \<lparr>sp_members = [by' \<mapsto> RoleAdmin], sp_topic = [], sp_desc = [], sp_private = p\<rparr>"
    by (auto simp: channel_abs_def)
  then show ?thesis
    by (simp add: CreateOp Manager_Create_def Let_def manager_abs_put mhas_def)
      (simp add: manager_abs_def)
next
  case (JoinOp name u)
  let ?f = "\<lambda>ch. ch\<lparr>Members := mput u RoleMember (Members ch)\<rparr>"
  have f: "channel_abs (?f c) = (channel_abs c)\<lparr>sp_members := (sp_members (channel_abs c))(u \<mapsto> RoleMember)\<rparr>" for c
    by (auto simp: channel_abs_def)
  show ?thesis
  proof (cases "mget (channels m) name")
    case None
    then show ?thesis by (simp add: JoinOp Manager_Join_def spec_update_def manager_abs_def)
  next
    case (Some ch)
    have A: "manager_abs m name = Some (channel_abs ch)" by (simp add: manager_abs_def Some)
    have dom: "u \<in> dom (sp_members (channel_abs ch)) \<longleftrightarrow> mhas (Members ch) u"
      by (auto simp: channel_abs_def mhas_def)
    show ?thesis
      using manager_abs_update [where f = ?f and e = e and name = name and m = m
          and g = "\<lambda>c. c\<lparr>sp_members := (sp_members c)(u \<mapsto> RoleMember)\<rparr>", OF f] A dom fun_upd_triv [of "manager_abs m" name]
      by (simp add: JoinOp Manager_Join_def Some spec_update_def)
  qed
next
  case (LeaveOp name u)
  have "channel_abs (c\<lparr>Members := mdel u (Members c)\<rparr>)
      = (channel_abs c)\<lparr>sp_members := (sp_members (channel_abs c))(u := None)\<rparr>" for c
    by (auto simp: channel_abs_def)
  from manager_abs_update [where g = "\<lambda>c. c\<lparr>sp_members := (sp_members c)(u := None)\<rparr>", OF this] show ?thesis by (simp add: LeaveOp Manager_Leave_def)
next
  case (SetTopicOp name t)
  have "channel_abs (c\<lparr>Topic := t\<rparr>) = (channel_abs c)\<lparr>sp_topic := t\<rparr>" for c
    by (simp add: channel_abs_def)
  from manager_abs_update [where g = "\<lambda>c. c\<lparr>sp_topic := t\<rparr>", OF this] show ?thesis by (simp add: SetTopicOp Manager_SetTopic_def)
next
  case (SetDescriptionOp name d)
  have "channel_abs (c\<lparr>Description := d\<rparr>) = (channel_abs c)\<lparr>sp_desc := d\<rparr>" for c
    by (simp add: channel_abs_def)
  from manager_abs_update [where g = "\<lambda>c. c\<lparr>sp_desc := d\<rparr>", OF this] show ?thesis
    by (simp add: SetDescriptionOp Manager_SetDescription_def)
qed

text \<open>
  A private channel is not closed: \<open>Join\<close> never looks at \<open>IsPrivate\<close>, so any user who knows the name
  of a channel becomes a member of it, private or not.
\<close>

theorem private_channel_joinable:
  assumes "mget (channels m) name = Some ch" and "IsPrivate ch"
  shows "Manager_IsMember (fst (Manager_Join e name u m)) name u \<and> snd (Manager_Join e name u m)"
  using assms by (simp add: Manager_IsMember_def Manager_Join_def update_channel_def mhas_def)

theorem private_channel_joinable_witness:
  "let m = fst (Manager_Create no_faults zero_time ''staff'' ''root'' True (NewManager no_faults zero_time []))
   in Manager_IsMember (fst (Manager_Join no_faults ''staff'' ''mallory'' m)) ''staff'' ''mallory''"
proof -
  let ?c = "\<lparr>Name = ''staff'', Topic = [], Description = [], IsPrivate = True, CreatedBy = ''root'',
    CreatedAt = zero_time, Members = [(''root'', RoleAdmin)]\<rparr>"
  let ?m = "fst (Manager_Create no_faults zero_time ''staff'' ''root'' True (NewManager no_faults zero_time []))"
  have "mget (channels ?m) ''staff'' = Some ?c"
    by (simp add: Manager_Create_def NewManager_def Manager_load_def ValidateChannelName_def
        channel_name_char_def mhas_def Let_def)
  from private_channel_joinable [OF this, of no_faults "''mallory''"] show ?thesis by (simp add: Let_def)
qed

section \<open>Restart\<close>

definition clean_time :: "gotime \<Rightarrow> bool" where
  "clean_time t = (encodable_time t \<and> coerce_time t = t)"

definition clean_channel :: "channel \<Rightarrow> bool" where
  \<comment> \<open>a channel that marshalling keeps as it is\<close>
  "clean_channel c =
     (valid_utf8 (Name c) \<and> valid_utf8 (Topic c) \<and> valid_utf8 (Description c) \<and> valid_utf8 (CreatedBy c) \<and>
      clean_time (CreatedAt c) \<and> mkeys_distinct (Members c) \<and>
      list_all (\<lambda>(u, r). valid_utf8 u \<and> valid_utf8 r) (Members c))"

fun clean_op :: "manager_op \<Rightarrow> bool" where
  "clean_op (CreateOp now name by p) = (clean_time now \<and> valid_utf8 by)"
| "clean_op (JoinOp name u) = valid_utf8 u"
| "clean_op (LeaveOp name u) = True"
| "clean_op (SetTopicOp name t) = valid_utf8 t"
| "clean_op (SetDescriptionOp name d) = valid_utf8 d"

definition manager_durable :: "manager \<Rightarrow> bool" where
  \<comment> \<open>the file holds exactly the channels in memory\<close>
  "manager_durable m =
     (mkeys_distinct (channels m) \<and>
      list_all (\<lambda>(name, c). valid_utf8 name \<and> clean_channel c) (channels m) \<and>
      Manager_load (mgr_fs m) = Some (channels m))"

lemma coerce_clean_channel: "clean_channel c \<Longrightarrow> coerce_channel c = c"
proof -
  assume c: "clean_channel c"
  have "fold (\<lambda>(u, r). mput (utf8_coerce u) (utf8_coerce r)) (Members c) [] = Members c"
    using c by (intro fold_coerce_id) (auto simp: clean_channel_def list_all_iff valid_utf8_def)
  with c show ?thesis by (simp add: coerce_channel_def clean_channel_def clean_time_def valid_utf8_def)
qed

lemma channels_json_clean:
  assumes "mkeys_distinct m" and "list_all (\<lambda>(name, c). valid_utf8 name \<and> clean_channel c) m"
  shows "channels_json m = Some m"
proof -
  have "fold (\<lambda>(k, c). mput (utf8_coerce k) (coerce_channel c)) m [] = m"
    using assms by (intro fold_coerce_id) (auto simp: list_all_iff coerce_clean_channel valid_utf8_def)
  with assms(2) show ?thesis
    by (auto simp: channels_json_def list_all_iff clean_channel_def clean_time_def)
qed

lemma Manager_save_durable:
  assumes "mkeys_distinct (channels m)"
    and "list_all (\<lambda>(name, c). valid_utf8 name \<and> clean_channel c) (channels m)"
  shows "manager_durable (Manager_save no_faults m)"
  using assms channels_json_clean [OF assms]
  by (simp add: manager_durable_def Manager_save_def Manager_load_def AtomicWriteFile_no_faults)

lemma durable_put:
  assumes "manager_durable m" and "valid_utf8 name" and "clean_channel c"
  shows "manager_durable (Manager_save no_faults (m\<lparr>channels := mput name c (channels m)\<rparr>))"
  using assms set_mput_subset [of name c "channels m"]
  by (intro Manager_save_durable) (auto simp: manager_durable_def list_all_iff)

lemma durable_get:
  assumes "manager_durable m" and "mget (channels m) name = Some c"
  shows "valid_utf8 name" and "clean_channel c"
  using assms mget_Some_mem [of "channels m" name c] by (auto simp: manager_durable_def list_all_iff)

lemma durable_update:
  assumes "manager_durable m" and "\<And>c. clean_channel c \<Longrightarrow> clean_channel (f c)"
  shows "manager_durable (fst (update_channel no_faults name f m))"
  using assms durable_get [OF assms(1), of name]
  by (auto simp: update_channel_def intro!: durable_put split: option.split)

lemma valid_utf8_RoleMember [simp]: "valid_utf8 RoleMember" "valid_utf8 RoleAdmin"
  by (simp_all add: RoleMember_def RoleAdmin_def valid_utf8_ascii)

lemma valid_channel_name_utf8: "ValidateChannelName name \<Longrightarrow> valid_utf8 name"
  by (rule valid_utf8_ascii)
    (auto simp: ValidateChannelName_def list_all_iff channel_name_char_def is_digit_def)

lemma clean_join: "clean_channel c \<Longrightarrow> valid_utf8 u \<Longrightarrow> clean_channel (c\<lparr>Members := mput u RoleMember (Members c)\<rparr>)"
  using set_mput_subset [of u RoleMember "Members c"]
  by (fastforce simp: clean_channel_def list_all_iff)

lemma clean_leave: "clean_channel c \<Longrightarrow> clean_channel (c\<lparr>Members := mdel u (Members c)\<rparr>)"
  using set_mdel_subset [of u "Members c"]
  by (fastforce simp: clean_channel_def list_all_iff)

lemma valid_utf8_Nil [simp]: "valid_utf8 []"
  by (simp add: valid_utf8_ascii)

lemma durable_step:
  assumes "manager_durable m" and "clean_op op"
  shows "manager_durable (fst (manager_call (no_faults, op) m))"
proof (cases op)
  case (CreateOp now name by' p)
  then show ?thesis
    using assms valid_channel_name_utf8 [of name]
    by (auto simp: Manager_Create_def Let_def clean_channel_def mkeys_distinct_def intro!: durable_put)
next
  case (JoinOp name u)
  then show ?thesis
    using assms by (auto simp: Manager_Join_def intro!: durable_update clean_join split: option.split)
next
  case (LeaveOp name u)
  then show ?thesis using assms by (auto simp: Manager_Leave_def intro!: durable_update clean_leave)
qed (use assms in \<open>auto simp: Manager_SetTopic_def Manager_SetDescription_def clean_channel_def
    intro!: durable_update\<close>)

definition on_file :: "manager \<Rightarrow> bool" where
  \<comment> \<open>if the channels can be written as JSON, the file holds what JSON makes of them\<close>
  "on_file m = (\<forall>d. channels_json (channels m) = Some d \<longrightarrow> Manager_load (mgr_fs m) = Some d)"

lemma on_file_save: "on_file (Manager_save no_faults m)"
  by (simp add: on_file_def Manager_save_def Manager_load_def AtomicWriteFile_no_faults split: option.split)

lemma on_file_call: "on_file m \<Longrightarrow> on_file (fst (manager_call (no_faults, op) m))"
  by (cases op) (auto simp: manager_defs Let_def on_file_save split: option.split)

lemma on_file_durable:
  assumes "manager_ok m"
  shows "manager_durable m \<longleftrightarrow> on_file m \<and> list_all (\<lambda>(name, c). clean_channel c) (channels m)"
proof -
  have d: "mkeys_distinct (channels m)" using assms by (simp add: manager_ok_def)
  have "list_all (\<lambda>(name, c). valid_utf8 name \<and> clean_channel c) (channels m) \<longleftrightarrow> list_all (\<lambda>(name, c). clean_channel c) (channels m)"
    using assms valid_channel_name_utf8 by (fastforce simp: manager_ok_def channel_ok_def list_all_iff)
  then show ?thesis using channels_json_clean [OF d] d by (auto simp: manager_durable_def on_file_def)
qed

text \<open>
  Channels survive a restart: after any sequence of operations, on a disk that works and with
  texts that are UTF-8, a manager that starts from the file has exactly the channels the running one
  has in memory.
\<close>

theorem restart_keeps_channels:
  assumes "manager_durable m" and "list_all clean_op ops"
  shows "channels (NewManager e now (mgr_fs (fold (\<lambda>op. manager_step (no_faults, op)) ops m)))
    = channels (fold (\<lambda>op. manager_step (no_faults, op)) ops m)"
proof -
  have "manager_durable (fold (\<lambda>op. manager_step (no_faults, op)) ops m)"
    using assms by (induction ops arbitrary: m) (simp_all add: manager_step_def durable_step)
  then show ?thesis by (simp add: NewManager_def manager_durable_def)
qed

lemma durable_NewManager:
  assumes "clean_time now" and "Manager_load fs = None"
  shows "manager_durable (NewManager no_faults now fs)"
proof -
  have "valid_utf8 ''general''" "valid_utf8 ''General discussion''" "valid_utf8 ''system''"
    by (simp_all add: valid_utf8_ascii)
  then have "clean_channel (general_channel now)" "valid_utf8 ''general''"
    using assms(1) by (simp_all add: clean_channel_def general_channel_def)
  with assms(2) show ?thesis
    by (simp add: NewManager_def) (intro Manager_save_durable, simp_all add: mkeys_distinct_def)
qed

lemma clean_zero_time [simp]: "clean_time zero_time"
  by (simp add: clean_time_def zero_time_def encodable_time_def coerce_time_def minute_offset_def Let_def)

theorem restart_keeps_channels_witness:
  "let ops = [CreateOp zero_time ''go'' ''ann'' False, JoinOp ''go'' ''bob'', SetTopicOp ''go'' ''hi''];
       m = fold (\<lambda>op. manager_step (no_faults, op)) ops (NewManager no_faults zero_time [])
   in channels (NewManager no_faults zero_time (mgr_fs m)) = channels m"
proof -
  have "manager_durable (NewManager no_faults zero_time [])"
    by (intro durable_NewManager) (simp_all add: Manager_load_def)
  moreover have "valid_utf8 ''ann''" "valid_utf8 ''bob''" "valid_utf8 ''hi''"
    by (simp_all add: valid_utf8_ascii)
  ultimately show ?thesis
    using restart_keeps_channels [of "NewManager no_faults zero_time []"
        "[CreateOp zero_time ''go'' ''ann'' False, JoinOp ''go'' ''bob'', SetTopicOp ''go'' ''hi'']"
        no_faults zero_time]
    by (simp only: Let_def list.pred_inject clean_op.simps clean_zero_time simp_thms)
qed

end
