(* ===== verification/Crypto.thy ===== *)
theory Crypto
  imports Argon2 Base64
begin

text \<open>
  \<open>internal/crypto/crypto.go\<close>: message encryption with a passphrase. \<open>aes.NewCipher\<close> followed by
  \<open>cipher.NewGCM\<close> is the parameter \<open>new_gcm\<close>, a function from keys to Go's interface \<open>cipher.AEAD\<close> (here
  the record \<open>aead\<close>); \<open>gcm_ok\<close> is the documented contract: keys of 32 bytes are accepted, the nonce has 12 bytes,
  the result is 16 bytes longer than the plain text, and \<open>Open\<close> succeeds exactly on what \<open>Seal\<close> made.

  The lemmas show: decryption undoes encryption; decryption accepts nothing else; the size of the result;
  text that is not base64 is refused.
\<close>

record aead =
  NonceSize :: nat
  Seal :: "string \<Rightarrow> string \<Rightarrow> string"          \<comment> \<open>nonce, plain text\<close>
  Open :: "string \<Rightarrow> string \<Rightarrow> string option"   \<comment> \<open>nonce, cipher text\<close>

type_synonym new_gcm = "string \<Rightarrow> aead option"

definition aead_ok :: "aead \<Rightarrow> bool" where
  "aead_ok g =
     (NonceSize g = 12 \<and>
      (\<forall>n p. length n = 12 \<longrightarrow> length (Seal g n p) = length p + 16 \<and> Open g n (Seal g n p) = Some p) \<and>
      (\<forall>n c p. length n = 12 \<longrightarrow> Open g n c = Some p \<longrightarrow> c = Seal g n p))"

definition gcm_ok :: "new_gcm \<Rightarrow> bool" where
  "gcm_ok G = (\<forall>key. length key = 32 \<longrightarrow> (\<exists>g. G key = Some g \<and> aead_ok g))"

definition deriveKey :: "argon2 \<Rightarrow> string \<Rightarrow> string \<Rightarrow> string outcome" where
  "deriveKey A passphrase salt = IDKey A passphrase salt 1 (64 * 1024) 4 32"

definition Encrypt ::
  "argon2 \<Rightarrow> new_gcm \<Rightarrow> string option \<Rightarrow> (nat \<Rightarrow> string option) \<Rightarrow> string \<Rightarrow> string \<Rightarrow> string option outcome" where
  \<comment> \<open>the salt and, for its size, the nonce that \<open>rand.Reader\<close> delivers; \<open>None\<close> is an error\<close>
  "Encrypt A G rsalt rnonce plainText passphrase =
     (case rsalt of
        None \<Rightarrow> Ret None
      | Some salt \<Rightarrow>
          obind (deriveKey A passphrase salt)
            (\<lambda>key. case G key of
               None \<Rightarrow> Ret None
             | Some gcm \<Rightarrow>
                 case rnonce (NonceSize gcm) of
                   None \<Rightarrow> Ret None
                 | Some nonce \<Rightarrow>
                     (let cipherText = nonce @ Seal gcm nonce plainText;
                          final = salt @ cipherText
                      in Ret (Some (StdEncode final)))))"

definition Decrypt :: "argon2 \<Rightarrow> new_gcm \<Rightarrow> string \<Rightarrow> string \<Rightarrow> string option outcome" where
  "Decrypt A G cipherTextStr passphrase =
     (case StdDecode cipherTextStr of
        None \<Rightarrow> Ret None
      | Some data \<Rightarrow>
          if length data < 16 then Ret None
          else
            (let salt = take 16 data; cipherTextWithNonce = drop 16 data in
             obind (deriveKey A passphrase salt)
               (\<lambda>key. case G key of
                  None \<Rightarrow> Ret None
                | Some gcm \<Rightarrow>
                    if length cipherTextWithNonce < NonceSize gcm then Ret None
                    else
                      (let nonce = take (NonceSize gcm) cipherTextWithNonce;
                           cipherText = drop (NonceSize gcm) cipherTextWithNonce
                       in Ret (Open gcm nonce cipherText)))))"

lemma deriveKey_ok:
  assumes "argon2_ok A" and "gcm_ok G"
  obtains key g where "deriveKey A passphrase salt = Ret key" and "G key = Some g" and "aead_ok g"
proof -
  obtain key where key: "deriveKey A passphrase salt = Ret key" "length key = 32"
    using argon2_okD [OF assms(1)] unfolding deriveKey_def .
  with assms(2) that show thesis unfolding gcm_ok_def by blast
qed

definition toy_gcm :: new_gcm where
  \<comment> \<open>a concrete instance for the witnesses: the tag is the first half of the key\<close>
  "toy_gcm key =
     (if length key = 32
      then Some \<lparr>NonceSize = 12, Seal = (\<lambda>n p. p @ take 16 key),
                 Open = (\<lambda>n c. if 16 \<le> length c \<and> drop (length c - 16) c = take 16 key
                               then Some (take (length c - 16) c) else None)\<rparr>
      else None)"

lemma toy_gcm_ok: "gcm_ok toy_gcm"
  unfolding gcm_ok_def toy_gcm_def aead_ok_def by (auto split: if_splits) (metis append_take_drop_id)

text \<open>
  C21. Encryption round trip: with the salt and the nonce the random source delivered, \<open>Encrypt\<close> succeeds for
  every text and passphrase; the result has 4 characters for every 3 bytes of a text longer by 44 bytes; and
  \<open>Decrypt\<close> with the same passphrase gives the text back.
\<close>

theorem Decrypt_Encrypt:
  assumes "argon2_ok A" and "gcm_ok G" and "length salt = 16" and "length nonce = 12"
  shows "\<exists>c. Encrypt A G (Some salt) (\<lambda>_. Some nonce) p pass = Ret (Some c) \<and>
      length c = 4 * ((length p + 44 + 2) div 3) \<and> Decrypt A G c pass = Ret (Some p)"
proof -
  obtain key g where k: "deriveKey A pass salt = Ret key" "G key = Some g" "aead_ok g"
    using assms(1,2) by (rule deriveKey_ok)
  have g: "NonceSize g = 12" "length (Seal g nonce p) = length p + 16" "Open g nonce (Seal g nonce p) = Some p"
    using k(3) assms(4) by (simp_all add: aead_ok_def)
  have "Encrypt A G (Some salt) (\<lambda>_. Some nonce) p pass = Ret (Some (StdEncode (salt @ nonce @ Seal g nonce p)))"
    using k by (simp add: Encrypt_def)
  moreover have "length (StdEncode (salt @ nonce @ Seal g nonce p)) = 4 * ((length p + 44 + 2) div 3)"
    using assms(3,4) g by (simp add: length_b64_encode_std)
  moreover have "Decrypt A G (StdEncode (salt @ nonce @ Seal g nonce p)) pass = Ret (Some p)"
    using assms(3,4) g k by (simp add: Decrypt_def Let_def std.dec_enc)
  ultimately show ?thesis by blast
qed

theorem Decrypt_Encrypt_witness:
  "\<exists>c. Encrypt toy_argon2 toy_gcm (Some ''0123456789abcdef'') (\<lambda>_. Some ''nonce-nonce-'') ''hello'' ''key'' = Ret (Some c) \<and>
      length c = 68 \<and> Decrypt toy_argon2 toy_gcm c ''key'' = Ret (Some ''hello'')"
  using Decrypt_Encrypt [OF toy_argon2_ok toy_gcm_ok, of "''0123456789abcdef''" "''nonce-nonce-''" "''hello''" "''key''"]
  by simp

text \<open>
  Nothing else decrypts: if \<open>Decrypt\<close> succeeds on a text under a passphrase, the text is, up to its
  spelling in base64, what \<open>Encrypt\<close> makes of the result under that passphrase with some salt and nonce.
\<close>

theorem Decrypt_only_Encrypted:
  assumes "argon2_ok A" and "gcm_ok G" and "Decrypt A G t pass = Ret (Some p)"
  shows "\<exists>salt nonce c. length salt = 16 \<and> length nonce = 12 \<and>
      Encrypt A G (Some salt) (\<lambda>_. Some nonce) p pass = Ret (Some c) \<and> StdDecode c = StdDecode t"
proof -
  obtain data where d: "StdDecode t = Some data" "16 \<le> length data"
    using assms(3) by (auto simp: Decrypt_def split: option.splits if_splits)
  obtain key g where k: "deriveKey A pass (take 16 data) = Ret key" "G key = Some g" "aead_ok g"
    using assms(1,2) by (rule deriveKey_ok)
  define nonce where "nonce = take 12 (drop 16 data)"
  have "NonceSize g = 12" using k(3) by (simp add: aead_ok_def)
  with assms(3) d k have n: "length nonce = 12" and o: "Open g nonce (drop 12 (drop 16 data)) = Some p"
    by (auto simp: Decrypt_def Let_def nonce_def split: if_splits)
  have "data = take 16 data @ nonce @ drop 12 (drop 16 data)"
    unfolding nonce_def by (metis append_take_drop_id)
  moreover have "drop 12 (drop 16 data) = Seal g nonce p" using k(3) n o unfolding aead_ok_def by blast
  ultimately have data: "take 16 data @ nonce @ Seal g nonce p = data" by simp
  have "Encrypt A G (Some (take 16 data)) (\<lambda>_. Some nonce) p pass = Ret (Some (StdEncode data))"
    using k data by (simp add: Encrypt_def)
  moreover have "StdDecode (StdEncode data) = StdDecode t" using d by (simp add: std.dec_enc)
  moreover have "length (take 16 data) = 16" using d by simp
  ultimately show ?thesis using n by blast
qed

theorem Decrypt_only_Encrypted_witness:
  "\<exists>t salt nonce c. Decrypt toy_argon2 toy_gcm t ''key'' = Ret (Some ''hello'') \<and> length salt = 16 \<and> length nonce = 12 \<and>
      Encrypt toy_argon2 toy_gcm (Some salt) (\<lambda>_. Some nonce) ''hello'' ''key'' = Ret (Some c) \<and> StdDecode c = StdDecode t"
proof -
  let ?d = "''0123456789abcdefnonce-nonce-hellokey0123456789abc''"
  have "Decrypt toy_argon2 toy_gcm (StdEncode ?d) ''key'' = Ret (Some ''hello'')"
    by (simp only: Decrypt_def std.dec_enc option.case)
      (simp add: deriveKey_def toy_argon2_def toy_gcm_def Let_def)
  from this Decrypt_only_Encrypted [OF toy_argon2_ok toy_gcm_ok this] show ?thesis by blast
qed

lemma Decrypt_bad_char:
  "c \<in> set t \<Longrightarrow> \<not> b64_ok c \<Longrightarrow> c \<noteq> CHR 0x0A \<Longrightarrow> c \<noteq> CHR 0x0D \<Longrightarrow> Decrypt A G t pass = Ret None"
  by (simp add: Decrypt_def b64_decode_bad_char)

end
