(* ===== verification/Float64.thy ===== *)
theory Float64
  imports Complex_Main Prelude "HOL-Library.Log_Nat"
begin

text \<open>
  Go's \<open>float64\<close> arithmetic as the rate limiter uses it. The result of an operation is the
  exact result rounded to 53 significant bits, to even in case of a tie (\<open>fl64\<close>). The exponent
  is not bounded here: the limiter's values are 0 or lie between \<open>10 ^ -9\<close> and \<open>10 ^ 12\<close>, far
  inside the range of normal numbers.

  What the limiter's proofs need of the rounding is the locale \<open>rounding\<close>: it is monotone, it
  keeps the integers up to \<open>2 ^ 53\<close>, and it errs by at most one part in \<open>2 ^ 53\<close>. It is interpreted on
  \<open>fl64\<close>.
\<close>

definition eps64 :: rat where "eps64 = 1 / 2 ^ 53"

locale rounding =
  fixes rnd :: "rat \<Rightarrow> rat"
  assumes mono: "0 \<le> x \<Longrightarrow> x \<le> y \<Longrightarrow> rnd x \<le> rnd y"
    and exact: "0 \<le> n \<Longrightarrow> n \<le> 2 ^ 53 \<Longrightarrow> rnd (of_int n) = of_int n"
    and rel_err: "0 \<le> x \<Longrightarrow> rnd x \<le> x * (1 + eps64)"
begin

lemma rnd_0 [simp]: "rnd 0 = 0"
  using exact [of 0] by simp

lemma rnd_nonneg: "0 \<le> x \<Longrightarrow> 0 \<le> rnd x"
  using mono [of 0 x] by simp

lemma rnd_ge_int: "of_int n \<le> x \<Longrightarrow> 0 \<le> n \<Longrightarrow> n \<le> 2 ^ 53 \<Longrightarrow> of_int n \<le> rnd x"
  using mono [of "of_int n" x] exact [of n] by simp

lemma rel_err_bound:
  assumes "0 \<le> x" and "x \<le> b"
  shows "rnd x \<le> x + b * eps64"
proof -
  have "x * eps64 \<le> b * eps64"
    using assms by (intro mult_right_mono) (simp_all add: eps64_def)
  with rel_err [OF assms(1)] show ?thesis by (simp add: algebra_simps)
qed

end

section \<open>Rounding to the nearest integer, ties to even\<close>

definition rne :: "rat \<Rightarrow> int" where
  "rne r =
     (let f = \<lfloor>r\<rfloor>; d = r - of_int f
      in if d < 1 / 2 then f else if 1 / 2 < d then f + 1 else if even f then f else f + 1)"

lemma rne_of_int [simp]: "rne (of_int n) = n"
  by (simp add: rne_def)

lemma rne_bounds: "\<lfloor>r\<rfloor> \<le> rne r \<and> rne r \<le> \<lfloor>r\<rfloor> + 1"
  by (simp add: rne_def Let_def)

lemma rne_mono: "r \<le> s \<Longrightarrow> rne r \<le> rne s"
proof -
  assume rs: "r \<le> s"
  then have "\<lfloor>r\<rfloor> \<le> \<lfloor>s\<rfloor>" by (rule floor_mono)
  then consider "\<lfloor>r\<rfloor> = \<lfloor>s\<rfloor>" | "\<lfloor>r\<rfloor> + 1 \<le> \<lfloor>s\<rfloor>" by linarith
  then show "rne r \<le> rne s"
  proof cases
    case 1
    with rs show ?thesis by (auto simp: rne_def Let_def)
  next
    case 2
    with rne_bounds [of r] rne_bounds [of s] show ?thesis by linarith
  qed
qed

lemma rne_error: "of_int (rne r) \<le> r + 1 / 2"
  using floor_correct [of r] by (auto simp: rne_def Let_def) linarith

section \<open>Binary exponents\<close>

definition fexp :: "rat \<Rightarrow> int" where
  \<comment> \<open>the exponent \<open>e\<close> with \<open>2 ^ e \<le> x < 2 ^ (e + 1)\<close>, for a positive \<open>x\<close>\<close>
  "fexp x =
     (let (p, q) = quotient_of x; e = bitlen p - bitlen q
      in if 2 powi e \<le> x then e else e - 1)"

definition fl64 :: "rat \<Rightarrow> rat" where
  "fl64 x =
     (if x = 0 then 0
      else let u = 2 powi (fexp \<bar>x\<bar> - 52) in of_int (rne (x / u)) * u)"

lemma bitlen_pow:
  assumes "0 < p"
  shows "(2::rat) powi (bitlen p - 1) \<le> of_int p" and "(of_int p :: rat) < 2 powi (bitlen p)"
proof -
  have b: "2 ^ nat (bitlen p - 1) \<le> p \<and> p < 2 ^ nat (bitlen p)"
    using bitlen_bounds [OF assms] .
  have pos: "0 < bitlen p" using assms bitlen_nonneg [of p] bitlen_eq_zero_iff [of p] by linarith
  have "(2::rat) powi (bitlen p - 1) = of_int (2 ^ nat (bitlen p - 1))"
    "(2::rat) powi (bitlen p) = of_int (2 ^ nat (bitlen p))"
    using pos by (simp_all add: power_int_def)
  with b show "(2::rat) powi (bitlen p - 1) \<le> of_int p" "(of_int p :: rat) < 2 powi (bitlen p)"
    by (simp_all only: of_int_le_iff of_int_less_iff)
qed

lemma fexp_bounds:
  assumes "0 < x"
  shows "2 powi fexp x \<le> x" and "x < 2 powi (fexp x + 1)"
proof -
  obtain p q where pq: "quotient_of x = (p, q)" by (cases "quotient_of x")
  have q: "0 < q" using quotient_of_denom_pos [OF pq] .
  have x: "x = of_int p / of_int q" using quotient_of_div [OF pq] .
  with assms q have p: "0 < p" by (simp add: zero_less_divide_iff)
  let ?e = "bitlen p - bitlen q"
  have qp: "(0::rat) < of_int q" using q by simp
  have "x < 2 powi bitlen p / 2 powi (bitlen q - 1)"
    unfolding x using bitlen_pow [OF p] bitlen_pow [OF q]
    by (intro frac_less) (simp_all add: p q order_less_imp_le)
  also have "\<dots> = 2 powi (?e + 1)"
    by (simp add: power_int_diff [symmetric] algebra_simps)
  finally have hi: "x < 2 powi (?e + 1)" .
  have "2 powi (bitlen p - 1) / 2 powi bitlen q \<le> x"
    unfolding x using bitlen_pow [OF p] bitlen_pow [OF q]
    by (intro frac_le) (simp_all add: p q order_less_imp_le)
  moreover have "(2::rat) powi (?e - 1) = 2 powi (bitlen p - 1) / 2 powi bitlen q"
    by (simp add: power_int_diff [symmetric] algebra_simps)
  ultimately have lo: "2 powi (?e - 1) \<le> x" by simp
  show "2 powi fexp x \<le> x" "x < 2 powi (fexp x + 1)"
    using lo hi by (auto simp: fexp_def pq Let_def not_le)
qed

lemma powi_add_nat: "(2::rat) powi (e + int n) = 2 powi e * 2 ^ n"
  by (simp add: power_int_add)

lemma fexp_mono:
  assumes "0 < x" and "x \<le> y"
  shows "fexp x \<le> fexp y"
proof (rule ccontr)
  assume "\<not> fexp x \<le> fexp y"
  then have "(2::rat) powi (fexp y + 1) \<le> 2 powi fexp x"
    by (intro power_int_increasing) auto
  with fexp_bounds(2) [of y] fexp_bounds(1) [of x] assms show False by linarith
qed

section \<open>The rounding satisfies its contract\<close>

lemma fl64_pos:
  assumes "0 < x"
  shows "fl64 x = of_int (rne (x / 2 powi (fexp x - 52))) * 2 powi (fexp x - 52)"
  using assms by (simp add: fl64_def Let_def)

lemma scaled_bounds:
  assumes "0 < x"
  shows "of_int (2 ^ 52) \<le> x / 2 powi (fexp x - 52)"
    and "x / 2 powi (fexp x - 52) \<le> of_int (2 ^ 53)"
proof -
  have "(2::rat) powi fexp x = 2 powi (fexp x - 52) * 2 ^ 52"
    using powi_add_nat [of "fexp x - 52" 52] by simp
  moreover have "(2::rat) powi (fexp x + 1) = 2 powi (fexp x - 52) * 2 ^ 53"
    using powi_add_nat [of "fexp x - 52" 53] by (simp add: add.commute)
  moreover have "(0::rat) < 2 powi (fexp x - 52)" by simp
  ultimately show "of_int (2 ^ 52) \<le> x / 2 powi (fexp x - 52)"
    "x / 2 powi (fexp x - 52) \<le> of_int (2 ^ 53)"
    using fexp_bounds [OF assms] by (simp_all add: field_simps)
qed

lemma fl64_between:
  \<comment> \<open>rounding does not leave the binade\<close>
  assumes "0 < x"
  shows "2 powi fexp x \<le> fl64 x" and "fl64 x \<le> 2 powi (fexp x + 1)"
proof -
  let ?u = "(2::rat) powi (fexp x - 52)"
  let ?r = "rne (x / ?u)"
  have lo: "2 ^ 52 \<le> ?r" and hi: "?r \<le> 2 ^ 53"
    using rne_mono [OF scaled_bounds(1) [OF assms]] rne_mono [OF scaled_bounds(2) [OF assms]]
    by (simp_all only: rne_of_int)
  have u: "0 \<le> ?u" by simp
  have "2 powi fexp x = of_int (2 ^ 52) * ?u" "2 powi (fexp x + 1) = of_int (2 ^ 53) * ?u"
    using powi_add_nat [of "fexp x - 52" 52] powi_add_nat [of "fexp x - 52" 53]
    by (simp_all add: mult.commute add.commute)
  moreover have "of_int (2 ^ 52) * ?u \<le> of_int ?r * ?u" "of_int ?r * ?u \<le> of_int (2 ^ 53) * ?u"
    using lo hi u by (intro mult_right_mono; simp only: of_int_le_iff)+
  ultimately show "2 powi fexp x \<le> fl64 x" "fl64 x \<le> 2 powi (fexp x + 1)"
    unfolding fl64_pos [OF assms] by simp_all
qed

lemma fl64_mono:
  assumes "0 \<le> x" and "x \<le> y"
  shows "fl64 x \<le> fl64 y"
proof (cases "x = 0")
  case True
  show ?thesis
  proof (cases "y = 0")
    case False
    with assms True have "0 < y" by simp
    from fl64_between(1) [OF this] have "0 \<le> fl64 y"
      by (rule order_trans [rotated]) simp
    with True show ?thesis by (simp add: fl64_def)
  qed (use True in simp)
next
  case False
  with assms have x: "0 < x" and y: "0 < y" by simp_all
  show ?thesis
  proof (cases "fexp x = fexp y")
    case True
    have "rne (x / 2 powi (fexp y - 52)) \<le> rne (y / 2 powi (fexp y - 52))"
      using assms by (intro rne_mono divide_right_mono) simp_all
    then show ?thesis
      unfolding fl64_pos [OF x] fl64_pos [OF y] True by (intro mult_right_mono) simp_all
  next
    case False
    with fexp_mono [OF x assms(2)] have "(2::rat) powi (fexp x + 1) \<le> 2 powi fexp y"
      by (intro power_int_increasing) auto
    with fl64_between(2) [OF x] fl64_between(1) [OF y] show ?thesis by linarith
  qed
qed

lemma fl64_rel_err:
  assumes "0 \<le> x"
  shows "fl64 x \<le> x * (1 + eps64)"
proof (cases "x = 0")
  case False
  with assms have x: "0 < x" by simp
  let ?u = "(2::rat) powi (fexp x - 52)"
  have u: "0 < ?u" by simp
  have "fl64 x \<le> (x / ?u + 1 / 2) * ?u"
    unfolding fl64_pos [OF x] using u by (intro mult_right_mono rne_error) simp
  also have "\<dots> = x + ?u / 2" using u by (simp add: field_simps)
  also have "?u / 2 \<le> x * eps64"
    using scaled_bounds(1) [OF x] u by (simp add: eps64_def field_simps)
  finally show ?thesis by (simp add: algebra_simps)
qed (simp add: fl64_def)

lemma fl64_exact_pos:
  assumes "0 < n" and "n \<le> 2 ^ 53"
  shows "fl64 (of_int n) = of_int n"
proof -
  let ?x = "of_int n :: rat"
  have x: "0 < ?x" using assms by simp
  have n53: "?x \<le> 2 ^ 53"
    using assms(2) of_int_le_iff [of n "2 ^ 53", where 'a = rat] by simp
  with fexp_bounds(1) [OF x] have "(2::rat) powi fexp ?x \<le> 2 powi 53"
    by simp
  then have e53: "fexp ?x \<le> 53"
    by (rule power_int_le_imp_le_exp [rotated]) simp_all
  show ?thesis
  proof (cases "fexp ?x = 53")
    case True
    with fexp_bounds(1) [OF x] n53 have n: "of_int n = (2::rat) ^ 53" by simp
    have "?x / 2 powi (fexp ?x - 52) = of_int (2 ^ 52)"
      unfolding True by (simp add: n)
    then have "fl64 ?x = of_int (2 ^ 52) * 2 powi (fexp ?x - 52)"
      unfolding fl64_pos [OF x] by (simp only: rne_of_int)
    then show ?thesis unfolding True by (simp add: n)
  next
    case False
    define k where "k = nat (52 - fexp ?x)"
    have u: "(2::rat) powi (fexp ?x - 52) = 1 / 2 ^ k"
      using e53 False by (simp add: k_def power_int_def field_simps)
    have "?x / 2 powi (fexp ?x - 52) = of_int (n * 2 ^ k)"
      unfolding u by simp
    then show ?thesis
      unfolding fl64_pos [OF x] by (simp only: rne_of_int) (simp add: u)
  qed
qed

lemma fl64_exact:
  assumes "0 \<le> n" and "n \<le> 2 ^ 53"
  shows "fl64 (of_int n) = of_int n"
  using fl64_exact_pos [of n] assms by (cases "n = 0") (simp_all add: fl64_def)

interpretation fl: rounding fl64
  by unfold_locales (simp_all add: fl64_mono fl64_exact fl64_rel_err)

end
