(* ===== verification/RateLimit.thy ===== *)
theory RateLimit
  imports Float64
begin

text \<open>
  \<open>internal/ratelimit/ratelimit.go\<close>: the per-user token bucket. Times are readings of the
  monotonic clock in nanoseconds, and token counts are \<open>float64\<close> values (theory \<open>Float64\<close>; every
  arithmetic operation rounds). \<open>Allow\<close> and \<open>Cleanup\<close> take the reading \<open>time.Now()\<close> gives.

  A history of calls is a list of \<open>limiter_op\<close>, each with the nanoseconds since the call before, so
  that the clock never goes back; \<open>limiter_step\<close> runs one call on a limiter and its clock.

  The lemmas show: the token count stays between 0 and the burst size; deleting stale buckets never
  changes an answer; and a user is allowed no more calls in a window than the burst size plus what
  the rate refills, up to rounding.
\<close>

section \<open>The limiter\<close>

record bucket =
  tokens :: rat
  lastTime :: int

record limiter =
  buckets :: "(string, bucket) gomap"
  rate :: rat
  burst :: int

definition NewLimiter :: "rat \<Rightarrow> int \<Rightarrow> limiter" where
  "NewLimiter r n = \<lparr>buckets = [], rate = r, burst = n\<rparr>"

definition duration_sub :: "int \<Rightarrow> int \<Rightarrow> int" where
  \<comment> \<open>\<open>t.Sub(u)\<close> saturates at the bounds of a \<open>Duration\<close>\<close>
  "duration_sub t u = max (- (2 ^ 63)) (min (2 ^ 63 - 1) (t - u))"

definition go_quot :: "int \<Rightarrow> int \<Rightarrow> int" where
  \<comment> \<open>Go's \<open>/\<close> for a positive divisor: truncation towards zero\<close>
  "go_quot a b = (if a < 0 then - (- a div b) else a div b)"

definition Seconds :: "int \<Rightarrow> rat" where
  \<comment> \<open>\<open>Duration.Seconds\<close>\<close>
  "Seconds d =
     (let sec = go_quot d (10 ^ 9); nsec = d - sec * 10 ^ 9
      in fl64 (fl64 (of_int sec) + fl64 (fl64 (of_int nsec) / 10 ^ 9)))"

definition refilled :: "limiter \<Rightarrow> int \<Rightarrow> bucket \<Rightarrow> rat" where
  \<comment> \<open>the token count after the refill of a call to \<open>Allow\<close>\<close>
  "refilled l now b =
     (let elapsed = Seconds (duration_sub now (lastTime b));
          t = fl64 (tokens b + fl64 (elapsed * rate l));
          full = fl64 (of_int (burst l))
      in if full < t then full else t)"

definition bucket_of :: "limiter \<Rightarrow> int \<Rightarrow> string \<Rightarrow> bucket" where
  "bucket_of l now user =
     (case mget (buckets l) user of
        None \<Rightarrow> \<lparr>tokens = fl64 (of_int (burst l)), lastTime = now\<rparr>
      | Some b \<Rightarrow> b)"

definition Allow :: "int \<Rightarrow> string \<Rightarrow> limiter \<Rightarrow> limiter \<times> bool" where
  "Allow now user l =
     (let t = refilled l now (bucket_of l now user) in
      if 1 \<le> t
      then (l\<lparr>buckets := mput user \<lparr>tokens = fl64 (t - 1), lastTime = now\<rparr> (buckets l)\<rparr>, True)
      else (l\<lparr>buckets := mput user \<lparr>tokens = t, lastTime = now\<rparr> (buckets l)\<rparr>, False))"

definition Cleanup :: "int \<Rightarrow> int \<Rightarrow> limiter \<Rightarrow> limiter" where
  "Cleanup maxAge now l =
     l\<lparr>buckets := filter (\<lambda>p. \<not> maxAge < duration_sub now (lastTime (snd p))) (buckets l)\<rparr>"

lemmas limiter_defs = Allow_def Cleanup_def refilled_def bucket_of_def NewLimiter_def

section \<open>The token count stays within its bounds\<close>

definition limiter_ok :: "limiter \<Rightarrow> int \<Rightarrow> bool" where
  \<comment> \<open>at clock reading \<open>now\<close>\<close>
  "limiter_ok l now =
     (mkeys_distinct (buckets l) \<and> 0 \<le> rate l \<and> 0 \<le> burst l \<and> burst l \<le> 2 ^ 53 \<and>
      list_all (\<lambda>(_, b). 0 \<le> tokens b \<and> tokens b \<le> of_int (burst l) \<and> lastTime b \<le> now) (buckets l))"

lemma limiter_ok_bucket:
  assumes "limiter_ok l now" and "mget (buckets l) u = Some b"
  shows "0 \<le> tokens b" and "tokens b \<le> of_int (burst l)" and "lastTime b \<le> now"
  using assms mget_Some_mem [of "buckets l" u b] by (auto simp: limiter_ok_def list_all_iff)

lemma limiter_ok_NewLimiter: "0 \<le> r \<Longrightarrow> 0 \<le> n \<Longrightarrow> n \<le> 2 ^ 53 \<Longrightarrow> limiter_ok (NewLimiter r n) now"
  by (simp add: limiter_ok_def NewLimiter_def)

lemma limiter_ok_later: "limiter_ok l now \<Longrightarrow> now \<le> now' \<Longrightarrow> limiter_ok l now'"
  by (auto simp: limiter_ok_def list_all_iff)

lemma full_burst: "limiter_ok l now \<Longrightarrow> fl64 (of_int (burst l)) = of_int (burst l)"
  by (simp add: limiter_ok_def fl64_exact)

lemma duration_sub_nonneg: "u \<le> t \<Longrightarrow> 0 \<le> duration_sub t u"
  by (simp add: duration_sub_def)

lemma Seconds_ge:
  assumes "0 \<le> d" and "k * 10 ^ 9 \<le> d" and "0 \<le> k" and "k \<le> 2 ^ 53"
  shows "of_int k \<le> Seconds d"
proof -
  let ?s = "d div 10 ^ 9" and ?n = "d - d div 10 ^ 9 * 10 ^ 9"
  have "k \<le> ?s" using zdiv_mono1 [OF assms(2), of "10 ^ 9"] by simp
  then have "of_int k \<le> (of_int ?s :: rat)" by simp
  then have k: "of_int k \<le> fl64 (of_int ?s)" using assms(3,4) by (rule fl.rnd_ge_int)
  have "0 \<le> ?n" by (simp add: minus_div_mult_eq_mod)
  then have "0 \<le> fl64 (fl64 (of_int ?n) / 10 ^ 9)"
    by (intro fl.rnd_nonneg divide_nonneg_nonneg) (simp_all add: minus_div_mult_eq_mod)
  with k have "of_int k \<le> fl64 (of_int ?s) + fl64 (fl64 (of_int ?n) / 10 ^ 9)" by linarith
  then have "of_int k \<le> fl64 (fl64 (of_int ?s) + fl64 (fl64 (of_int ?n) / 10 ^ 9))"
    using assms(3,4) by (rule fl.rnd_ge_int)
  with assms(1) show ?thesis by (simp add: Seconds_def go_quot_def Let_def)
qed

lemma Seconds_nonneg: "0 \<le> d \<Longrightarrow> 0 \<le> Seconds d"
  using Seconds_ge [of d 0] by simp

lemma bucket_of_ok:
  assumes "limiter_ok l now"
  shows "0 \<le> tokens (bucket_of l now u)" and "tokens (bucket_of l now u) \<le> of_int (burst l)"
    and "lastTime (bucket_of l now u) \<le> now"
  using assms limiter_ok_bucket [OF assms, of u] full_burst [OF assms]
  by (auto simp: bucket_of_def limiter_ok_def split: option.split)

lemma refilled_bounds:
  assumes "limiter_ok l now"
  shows "0 \<le> refilled l now (bucket_of l now u)"
    and "refilled l now (bucket_of l now u) \<le> of_int (burst l)"
proof -
  let ?b = "bucket_of l now u"
  have "0 \<le> Seconds (duration_sub now (lastTime ?b)) * rate l"
    using bucket_of_ok(3) [OF assms] assms
    by (intro mult_nonneg_nonneg Seconds_nonneg duration_sub_nonneg) (simp_all add: limiter_ok_def)
  then have "0 \<le> fl64 (tokens ?b + fl64 (Seconds (duration_sub now (lastTime ?b)) * rate l))"
    using bucket_of_ok(1) [OF assms] by (intro fl.rnd_nonneg add_nonneg_nonneg) auto
  then show "0 \<le> refilled l now ?b" "refilled l now ?b \<le> of_int (burst l)"
    using full_burst [OF assms] assms by (auto simp: refilled_def Let_def limiter_ok_def)
qed

lemma fl64_minus_1:
  assumes "1 \<le> t" and "t \<le> of_int n" and "n \<le> 2 ^ 53"
  shows "0 \<le> fl64 (t - 1)" and "fl64 (t - 1) \<le> of_int n"
proof -
  show "0 \<le> fl64 (t - 1)" using assms(1) by (intro fl.rnd_nonneg) simp
  have "(1::rat) \<le> of_int n" using assms by linarith
  then have n: "0 \<le> n - 1" by simp
  have "fl64 (t - 1) \<le> fl64 (of_int (n - 1))" using assms by (intro fl.mono) simp_all
  also have "\<dots> = of_int (n - 1)" using n assms(3) by (intro fl.exact) simp_all
  finally show "fl64 (t - 1) \<le> of_int n" by simp
qed

lemma Allow_frame [simp]:
  "rate (fst (Allow now u l)) = rate l" "burst (fst (Allow now u l)) = burst l"
  "rate (Cleanup age now l) = rate l" "burst (Cleanup age now l) = burst l"
  by (simp_all add: Allow_def Cleanup_def Let_def)

lemma limiter_ok_put:
  assumes "limiter_ok l now" and "0 \<le> t" and "t \<le> of_int (burst l)"
  shows "limiter_ok (l\<lparr>buckets := mput u \<lparr>tokens = t, lastTime = now\<rparr> (buckets l)\<rparr>) now"
  using assms set_mput_subset [of u "\<lparr>tokens = t, lastTime = now\<rparr>" "buckets l"]
  by (fastforce simp: limiter_ok_def list_all_iff)

lemma limiter_ok_Allow:
  assumes "limiter_ok l now"
  shows "limiter_ok (fst (Allow now u l)) now"
proof -
  let ?t = "refilled l now (bucket_of l now u)"
  have b: "burst l \<le> 2 ^ 53" using assms by (simp add: limiter_ok_def)
  note t = refilled_bounds [OF assms, of u]
  show ?thesis
    using limiter_ok_put [OF assms t] limiter_ok_put [OF assms fl64_minus_1 [OF _ t(2) b]]
    by (simp add: Allow_def Let_def)
qed

lemma limiter_ok_Cleanup: "limiter_ok l now \<Longrightarrow> limiter_ok (Cleanup age now l) now"
  by (auto simp: limiter_ok_def Cleanup_def list_all_iff)

section \<open>Histories of calls\<close>

datatype limiter_op = AllowOp nat string | CleanupOp nat int

fun limiter_step :: "limiter_op \<Rightarrow> int \<times> limiter \<Rightarrow> int \<times> limiter" where
  "limiter_step (AllowOp dt u) (now, l) = (now + int dt, fst (Allow (now + int dt) u l))"
| "limiter_step (CleanupOp dt age) (now, l) = (now + int dt, Cleanup age (now + int dt) l)"

fun answers :: "int \<times> limiter \<Rightarrow> limiter_op list \<Rightarrow> (string \<times> bool) list" where
  \<comment> \<open>what the calls to \<open>Allow\<close> answer, with the user each is for\<close>
  "answers s [] = []"
| "answers (now, l) (AllowOp dt u # ops) =
     (u, snd (Allow (now + int dt) u l)) # answers (limiter_step (AllowOp dt u) (now, l)) ops"
| "answers s (CleanupOp dt age # ops) = answers (limiter_step (CleanupOp dt age) s) ops"

fun limiter_inv :: "int \<times> limiter \<Rightarrow> bool" where
  "limiter_inv (now, l) = limiter_ok l now"

lemma limiter_step_inv: "limiter_inv s \<Longrightarrow> limiter_inv (limiter_step op s)"
  by (cases s; cases op)
    (simp_all add: limiter_ok_Allow limiter_ok_Cleanup limiter_ok_later)

interpretation limiter: invariant_machine limiter_step limiter_inv
  by unfold_locales (rule limiter_step_inv)

section \<open>Deleting stale buckets changes no answer\<close>

fun without_cleanup :: "nat \<Rightarrow> limiter_op list \<Rightarrow> limiter_op list" where
  \<comment> \<open>the history with the calls to \<open>Cleanup\<close> left out; the first argument is the time that has
     passed since the last call kept\<close>
  "without_cleanup c [] = []"
| "without_cleanup c (AllowOp dt u # ops) = AllowOp (c + dt) u # without_cleanup 0 ops"
| "without_cleanup c (CleanupOp dt age # ops) = without_cleanup (c + dt) ops"

fun cleanup_age :: "int \<Rightarrow> limiter_op \<Rightarrow> bool" where
  "cleanup_age age (AllowOp dt u) = True"
| "cleanup_age age (CleanupOp dt a) = (a = age)"

definition refills_within :: "limiter \<Rightarrow> int \<Rightarrow> bool" where
  \<comment> \<open>an idle bucket is full again after \<open>k\<close> seconds\<close>
  "refills_within l k = (0 \<le> k \<and> k \<le> 2 ^ 53 \<and> of_int (burst l) \<le> of_int k * rate l)"

definition stale_sim :: "int \<Rightarrow> int \<Rightarrow> limiter \<Rightarrow> limiter \<Rightarrow> bool" where
  "stale_sim age now l1 l2 =
     (rate l1 = rate l2 \<and> burst l1 = burst l2 \<and>
      (\<forall>u. mget (buckets l1) u = mget (buckets l2) u \<or>
           (mget (buckets l1) u = None \<and>
            (\<exists>b. mget (buckets l2) u = Some b \<and> age < duration_sub now (lastTime b)))))"

lemma Seconds_0 [simp]: "Seconds 0 = 0"
  by (simp add: Seconds_def go_quot_def)

lemma refilled_fresh:
  assumes "limiter_ok l now"
  shows "refilled l now \<lparr>tokens = fl64 (of_int (burst l)), lastTime = now\<rparr> = of_int (burst l)"
  using full_burst [OF assms] by (simp add: refilled_def duration_sub_def Let_def)

lemma refilled_stale:
  assumes ok: "limiter_ok l now" and b: "mget (buckets l) u = Some b"
    and k: "refills_within l k" and age: "k * 10 ^ 9 \<le> duration_sub now (lastTime b)"
  shows "refilled l now b = of_int (burst l)"
proof -
  let ?s = "Seconds (duration_sub now (lastTime b))"
  have n: "0 \<le> burst l" "burst l \<le> 2 ^ 53" "0 \<le> rate l" using ok by (simp_all add: limiter_ok_def)
  have "0 \<le> duration_sub now (lastTime b)"
    using limiter_ok_bucket(3) [OF ok b] by (rule duration_sub_nonneg)
  then have "of_int k \<le> ?s" using age k by (intro Seconds_ge) (simp_all add: refills_within_def)
  then have "of_int k * rate l \<le> ?s * rate l" using n(3) by (rule mult_right_mono)
  then have "of_int (burst l) \<le> ?s * rate l" using k by (simp add: refills_within_def)
  then have "of_int (burst l) \<le> fl64 (?s * rate l)" using n(1,2) by (rule fl.rnd_ge_int)
  then have "of_int (burst l) \<le> tokens b + fl64 (?s * rate l)"
    using limiter_ok_bucket(1) [OF ok b] by linarith
  then have "of_int (burst l) \<le> fl64 (tokens b + fl64 (?s * rate l))" using n(1,2) by (rule fl.rnd_ge_int)
  then show ?thesis using full_burst [OF ok] by (simp add: refilled_def Let_def)
qed

lemma refilled_cong: "rate l1 = rate l2 \<Longrightarrow> burst l1 = burst l2 \<Longrightarrow> refilled l1 now b = refilled l2 now b"
  by (simp add: refilled_def)

lemma stale_sim_refilled:
  assumes "stale_sim (k * 10 ^ 9) now l1 l2" and "limiter_ok l1 now" and "limiter_ok l2 now"
    and "refills_within l2 k"
  shows "refilled l1 now (bucket_of l1 now u) = refilled l2 now (bucket_of l2 now u)"
proof -
  have same: "rate l1 = rate l2" "burst l1 = burst l2" using assms(1) by (simp_all add: stale_sim_def)
  from assms(1) consider "mget (buckets l1) u = mget (buckets l2) u"
    | b where "mget (buckets l1) u = None" "mget (buckets l2) u = Some b"
        "k * 10 ^ 9 < duration_sub now (lastTime b)"
    unfolding stale_sim_def by blast
  then show ?thesis
  proof cases
    case 1
    then show ?thesis using refilled_cong [OF same] same by (simp add: bucket_of_def split: option.split)
  next
    case 2
    then show ?thesis
      using refilled_fresh [OF assms(2)] refilled_stale [OF assms(3) 2(2) assms(4)] same
      by (simp add: bucket_of_def split: option.split)
  qed
qed

lemma stale_sim_Allow:
  assumes "stale_sim (k * 10 ^ 9) now l1 l2" and "limiter_ok l1 now" and "limiter_ok l2 now"
    and "refills_within l2 k"
  shows "snd (Allow now u l1) = snd (Allow now u l2)"
    and "stale_sim (k * 10 ^ 9) now (fst (Allow now u l1)) (fst (Allow now u l2))"
  using stale_sim_refilled [OF assms, of u] assms(1)
  by (simp_all add: Allow_def Let_def stale_sim_def)

lemma stale_sim_Cleanup:
  assumes "stale_sim age now l1 l2" and "mkeys_distinct (buckets l1)"
  shows "stale_sim age now (Cleanup age now l1) l2"
proof -
  have "mget (buckets (Cleanup age now l1)) u =
      (case mget (buckets l1) u of None \<Rightarrow> None
       | Some b \<Rightarrow> if \<not> age < duration_sub now (lastTime b) then Some b else None)" for u
    using mget_filter_value [OF assms(2), of "\<lambda>b. \<not> age < duration_sub now (lastTime b)" u]
    by (simp add: Cleanup_def)
  with assms(1) show ?thesis
    unfolding stale_sim_def by (simp split: option.split) (metis option.distinct(1) option.inject)
qed

lemma stale_sim_later: "stale_sim age now l1 l2 \<Longrightarrow> now \<le> now' \<Longrightarrow> stale_sim age now' l1 l2"
proof -
  assume sim: "stale_sim age now l1 l2" and le: "now \<le> now'"
  have "duration_sub now t \<le> duration_sub now' t" for t using le by (simp add: duration_sub_def)
  then show ?thesis using sim unfolding stale_sim_def by (meson order_less_le_trans)
qed

lemma answers_without_cleanup:
  assumes "stale_sim (k * 10 ^ 9) now l1 l2" and "limiter_ok l1 now" and "limiter_ok l2 now"
    and "refills_within l2 k" and "list_all (cleanup_age (k * 10 ^ 9)) ops" and "now = now2 + int c"
  shows "answers (now, l1) ops = answers (now2, l2) (without_cleanup c ops)"
  using assms
proof (induction ops arbitrary: now l1 l2 now2 c)
  case Nil
  then show ?case by simp
next
  case (Cons op ops)
  show ?case
  proof (cases op)
    case (AllowOp dt u)
    let ?now = "now + int dt"
    have sim: "stale_sim (k * 10 ^ 9) ?now l1 l2" using Cons.prems(1) by (rule stale_sim_later) simp
    have ok: "limiter_ok l1 ?now" "limiter_ok l2 ?now"
      using Cons.prems(2,3) by (auto intro: limiter_ok_later)
    have "answers (?now, fst (Allow ?now u l1)) ops
        = answers (?now, fst (Allow ?now u l2)) (without_cleanup 0 ops)"
      using Cons.prems(4,5) stale_sim_Allow(2) [OF sim ok Cons.prems(4)] ok
      by (intro Cons.IH) (simp_all add: limiter_ok_Allow refills_within_def)
    with stale_sim_Allow(1) [OF sim ok Cons.prems(4), of u] show ?thesis
      by (simp add: AllowOp Cons.prems(6) add.assoc)
  next
    case (CleanupOp dt age)
    let ?now = "now + int dt"
    have age: "age = k * 10 ^ 9" using Cons.prems(5) CleanupOp by simp
    have sim: "stale_sim (k * 10 ^ 9) ?now l1 l2" using Cons.prems(1) by (rule stale_sim_later) simp
    have ok: "limiter_ok l1 ?now" "limiter_ok l2 ?now"
      using Cons.prems(2,3) by (auto intro: limiter_ok_later)
    have "answers (?now, Cleanup age ?now l1) ops = answers (now2, l2) (without_cleanup (c + dt) ops)"
    proof (rule Cons.IH)
      show "stale_sim (k * 10 ^ 9) ?now (Cleanup age ?now l1) l2"
        unfolding age using sim ok(1) by (intro stale_sim_Cleanup) (simp_all add: limiter_ok_def)
      show "list_all (cleanup_age (k * 10 ^ 9)) ops" using Cons.prems(5) by simp
      show "?now = now2 + int (c + dt)" using Cons.prems(6) by simp
    qed (use ok Cons.prems(4) in \<open>auto intro: limiter_ok_Cleanup\<close>)
    then show ?thesis by (simp add: CleanupOp)
  qed
qed

text \<open>
  C30. The periodic \<open>Cleanup\<close> never changes an answer of the limiter: with the node's settings (10
  tokens a second, a burst of 20, buckets deleted after 10 minutes) every history of calls gets
  the answers it would get without the calls to \<open>Cleanup\<close>. A bucket that is deleted would have been
  full again.
\<close>

theorem Cleanup_changes_no_answer:
  assumes "limiter_ok l now" and "rate l = 10" and "burst l = 20"
    and "list_all (cleanup_age (600 * 10 ^ 9)) ops"
  shows "answers (now, l) ops = answers (now, l) (without_cleanup 0 ops)"
proof -
  have "stale_sim (600 * 10 ^ 9) now l l" by (simp add: stale_sim_def)
  then show ?thesis
    using assms by (intro answers_without_cleanup [where k = 600]) (simp_all add: refills_within_def)
qed

theorem Cleanup_changes_no_answer_witness:
  "answers (0, NewLimiter 10 20)
     [AllowOp 5 ''ann'', CleanupOp (700 * 10 ^ 9) (600 * 10 ^ 9), AllowOp 1 ''ann''] =
   answers (0, NewLimiter 10 20) [AllowOp 5 ''ann'', AllowOp (700 * 10 ^ 9 + 1) ''ann'']"
  using Cleanup_changes_no_answer [of "NewLimiter 10 20" 0
      "[AllowOp 5 ''ann'', CleanupOp (700 * 10 ^ 9) (600 * 10 ^ 9), AllowOp 1 ''ann'']"]
  by (simp add: limiter_ok_NewLimiter del: answers.simps) (simp add: NewLimiter_def del: answers.simps)

section \<open>How much a user is allowed\<close>

definition ns_rate :: "limiter \<Rightarrow> rat" where
  \<comment> \<open>what one nanosecond refills, with the rounding of a refill's four operations\<close>
  "ns_rate l = rate l / 10 ^ 9 * (1 + eps64) ^ 4"

definition call_err :: "limiter \<Rightarrow> rat" where
  \<comment> \<open>what rounding adds in one call\<close>
  "call_err l = 2 * of_int (burst l) * eps64"

fun op_ns :: "limiter_op \<Rightarrow> nat" where
  "op_ns (AllowOp dt u) = dt"
| "op_ns (CleanupOp dt age) = dt"

definition elapsed_ns :: "limiter_op list \<Rightarrow> nat" where
  "elapsed_ns ops = sum_list (map op_ns ops)"

fun is_Allow :: "limiter_op \<Rightarrow> bool" where
  "is_Allow (AllowOp dt u) = True"
| "is_Allow (CleanupOp dt age) = False"

definition granted :: "string \<Rightarrow> (string \<times> bool) list \<Rightarrow> nat" where
  "granted u as = length (filter (\<lambda>a. a = (u, True)) as)"

definition asked :: "string \<Rightarrow> (string \<times> bool) list \<Rightarrow> nat" where
  "asked u as = length (filter (\<lambda>a. fst a = u) as)"

lemma eps64_pos: "0 \<le> eps64" by (simp add: eps64_def)

lemma Seconds_le:
  assumes "0 \<le> d" and "d < 2 ^ 63"
  shows "Seconds d \<le> of_int d / 10 ^ 9 * (1 + eps64) ^ 2"
proof -
  let ?s = "d div 10 ^ 9" and ?n = "d - d div 10 ^ 9 * 10 ^ 9"
  have s: "0 \<le> ?s" "?s \<le> 2 ^ 53" and n: "0 \<le> ?n" "?n \<le> 2 ^ 53"
    using assms by (auto simp: minus_div_mult_eq_mod pos_imp_zdiv_nonneg_iff
        intro: order_trans [OF order_less_imp_le [OF pos_mod_bound]] order_trans [OF zdiv_mono1 [of d "2 ^ 63"]])
  have d: "(of_int d :: rat) = of_int ?s * 10 ^ 9 + of_int ?n" by simp
  have e: "(0::rat) \<le> of_int ?s * eps64" using s(1) eps64_pos by (intro mult_nonneg_nonneg) simp_all
  have "fl64 (of_int ?n / 10 ^ 9) \<le> of_int ?n / 10 ^ 9 * (1 + eps64)"
    using n(1) by (intro fl.rel_err) simp
  then have "of_int ?s + fl64 (of_int ?n / 10 ^ 9) \<le> of_int d / 10 ^ 9 * (1 + eps64)"
    using e unfolding d by (simp add: field_simps)
  moreover have "0 \<le> fl64 (of_int ?n / 10 ^ 9)" using n(1) by (intro fl.rnd_nonneg) simp
  ultimately have "fl64 (of_int ?s + fl64 (of_int ?n / 10 ^ 9)) \<le> of_int d / 10 ^ 9 * (1 + eps64) * (1 + eps64)"
    using s(1) eps64_pos
    by (intro order_trans [OF fl.rel_err] mult_right_mono) (simp_all add: add_nonneg_nonneg)
  then show ?thesis
    using assms(1) fl.exact [OF s] fl.exact [OF n]
    by (simp add: Seconds_def go_quot_def Let_def power2_eq_square mult.assoc)
qed

lemma refilled_le:
  assumes ok: "limiter_ok l now" and b: "mget (buckets l) u = Some b"
  shows "refilled l now b \<le> tokens b + ns_rate l * of_int (now - lastTime b) + of_int (burst l) * eps64"
proof -
  let ?d = "duration_sub now (lastTime b)"
  let ?S = "Seconds ?d"
  note bb = limiter_ok_bucket [OF ok b]
  have r: "0 \<le> rate l" using ok by (simp add: limiter_ok_def)
  have d: "0 \<le> ?d" "?d < 2 ^ 63" "?d \<le> now - lastTime b"
    using bb(3) by (simp_all add: duration_sub_def)
  have S0: "0 \<le> ?S" using d(1) by (rule Seconds_nonneg)
  have "?S \<le> of_int ?d / 10 ^ 9 * (1 + eps64) ^ 2" using d(1,2) by (rule Seconds_le)
  also have "\<dots> \<le> of_int (now - lastTime b) / 10 ^ 9 * (1 + eps64) ^ 2"
    using d(3) by (intro mult_right_mono divide_right_mono) (simp_all only: of_int_le_iff, simp_all)
  finally have "?S * rate l \<le> of_int (now - lastTime b) / 10 ^ 9 * (1 + eps64) ^ 2 * rate l"
    using r by (rule mult_right_mono)
  moreover have "fl64 (?S * rate l) \<le> ?S * rate l * (1 + eps64)"
    using S0 r by (intro fl.rel_err mult_nonneg_nonneg)
  ultimately have X: "fl64 (?S * rate l) \<le> of_int (now - lastTime b) / 10 ^ 9 * (1 + eps64) ^ 2 * rate l * (1 + eps64)"
    using eps64_pos by (meson add_nonneg_nonneg mult_right_mono order_trans zero_le_one)
  have X0: "0 \<le> fl64 (?S * rate l)" using S0 r by (intro fl.rnd_nonneg mult_nonneg_nonneg)
  have "refilled l now b \<le> fl64 (tokens b + fl64 (?S * rate l))"
    by (simp add: refilled_def Let_def)
  also have "\<dots> \<le> (tokens b + fl64 (?S * rate l)) * (1 + eps64)"
    using bb(1) X0 by (intro fl.rel_err) simp
  also have "\<dots> = tokens b + tokens b * eps64 + fl64 (?S * rate l) * (1 + eps64)"
    by (simp add: algebra_simps)
  also have "\<dots> \<le> tokens b + of_int (burst l) * eps64
      + of_int (now - lastTime b) / 10 ^ 9 * (1 + eps64) ^ 2 * rate l * (1 + eps64) * (1 + eps64)"
    using X bb(2) eps64_pos by (intro add_mono mult_right_mono) simp_all
  also have "of_int (now - lastTime b) / 10 ^ 9 * (1 + eps64) ^ 2 * rate l * (1 + eps64) * (1 + eps64)
      = ns_rate l * of_int (now - lastTime b)"
    by (simp add: ns_rate_def power2_eq_square power4_eq_xxxx)
  finally show ?thesis by simp
qed

lemma Allow_bucket:
  "mget (buckets (fst (Allow now u l))) u =
     Some \<lparr>tokens = (let t = refilled l now (bucket_of l now u) in if 1 \<le> t then fl64 (t - 1) else t),
           lastTime = now\<rparr>"
  "u' \<noteq> u \<Longrightarrow> mget (buckets (fst (Allow now u l))) u' = mget (buckets l) u'"
  "snd (Allow now u l) = (1 \<le> refilled l now (bucket_of l now u))"
  by (simp_all add: Allow_def Let_def)

lemma Allow_cost:
  \<comment> \<open>a call takes a token where it grants, up to rounding\<close>
  assumes ok: "limiter_ok l now" and t: "t = refilled l now (bucket_of l now u)"
    and b': "mget (buckets (fst (Allow now u l))) u = Some b'"
  shows "tokens b' + of_bool (snd (Allow now u l)) \<le> t + of_int (burst l) * eps64"
    and "lastTime b' = now"
proof -
  note bounds = refilled_bounds [OF ok, of u, folded t]
  have "0 \<le> burst l" using ok by (simp add: limiter_ok_def)
  then have e: "(0::rat) \<le> of_int (burst l) * eps64" using eps64_pos by simp
  have "fl64 (t - 1) \<le> (t - 1) + of_int (burst l) * eps64" if "1 \<le> t"
    using that bounds by (intro fl.rel_err_bound) simp_all
  then show "tokens b' + of_bool (snd (Allow now u l)) \<le> t + of_int (burst l) * eps64"
    and "lastTime b' = now"
    using Allow_bucket [where now = now and u = u and l = l] b' e t by (auto simp: Let_def)
qed

lemma granted_after_call:
  assumes "limiter_ok l now" and "mget (buckets l) u = Some b" and "list_all is_Allow ops"
  shows "of_nat (granted u (answers (now, l) ops)) \<le>
    tokens b + ns_rate l * of_int (now + int (elapsed_ns ops) - lastTime b)
      + of_nat (asked u (answers (now, l) ops)) * call_err l"
  using assms
proof (induction ops arbitrary: now l b)
  case Nil
  have "0 \<le> ns_rate l * of_int (now - lastTime b)"
    using limiter_ok_bucket(3) [OF Nil.prems(1,2)] Nil.prems(1) eps64_pos
    by (intro mult_nonneg_nonneg) (simp_all add: ns_rate_def limiter_ok_def)
  with limiter_ok_bucket(1) [OF Nil.prems(1,2)] show ?case
    by (simp add: granted_def asked_def elapsed_ns_def)
next
  case (Cons op ops)
  then obtain dt v where op: "op = AllowOp dt v" by (cases op) auto
  let ?now = "now + int dt"
  let ?l = "fst (Allow ?now v l)"
  have ok: "limiter_ok l ?now" using Cons.prems(1) by (rule limiter_ok_later) simp
  have ok': "limiter_ok ?l ?now" using ok by (rule limiter_ok_Allow)
  have rest: "list_all is_Allow ops" using Cons.prems(3) by simp
  have par: "ns_rate ?l = ns_rate l" "call_err ?l = call_err l" by (simp_all add: ns_rate_def call_err_def)
  have fin: "now + int (elapsed_ns (op # ops)) = ?now + int (elapsed_ns ops)" by (simp add: elapsed_ns_def op)
  show ?case
  proof (cases "v = u")
    case False
    then have "mget (buckets ?l) u = Some b" using Cons.prems(2) Allow_bucket(2) [where u = v and u' = u] by simp
    from Cons.IH [OF ok' this rest] False show ?thesis
      unfolding par fin by (simp add: op granted_def asked_def)
  next
    case True
    obtain b' where b': "mget (buckets ?l) u = Some b'" using True by (simp add: Allow_bucket(1))
    let ?t = "refilled l ?now (bucket_of l ?now u)"
    have cost: "tokens b' + of_bool (snd (Allow ?now u l)) \<le> ?t + of_int (burst l) * eps64" "lastTime b' = ?now"
      using Allow_cost [OF ok refl] b' True by simp_all
    have "?t \<le> tokens b + ns_rate l * of_int (?now - lastTime b) + of_int (burst l) * eps64"
      using refilled_le [OF ok Cons.prems(2)] Cons.prems(2) by (simp add: bucket_of_def)
    moreover have "of_int (?now - lastTime b) + of_int (?now + int (elapsed_ns ops) - lastTime b')
        = (of_int (now + int (elapsed_ns (op # ops)) - lastTime b) :: rat)"
      unfolding cost(2) fin by simp
    then have "ns_rate l * of_int (?now - lastTime b) + ns_rate l * of_int (?now + int (elapsed_ns ops) - lastTime b')
        = ns_rate l * of_int (now + int (elapsed_ns (op # ops)) - lastTime b)"
      by (simp only: distrib_left [symmetric])
    moreover note Cons.IH [OF ok' b' rest, unfolded par] cost(1)
    moreover have "granted u (answers (now, l) (op # ops))
        = of_bool (snd (Allow ?now u l)) + granted u (answers (?now, ?l) ops)"
      "asked u (answers (now, l) (op # ops)) = 1 + asked u (answers (?now, ?l) ops)"
      by (simp_all add: op True granted_def asked_def)
    ultimately show ?thesis
      by (simp only: of_nat_add of_nat_1 of_nat_of_bool distrib_right call_err_def mult_1_left
        mult_2 [of "of_int (burst l) * eps64", folded mult.assoc])
  qed
qed

lemma granted_bound:
  assumes "limiter_ok l now" and "list_all is_Allow ops"
  shows "of_nat (granted u (answers (now, l) ops)) \<le>
    of_int (burst l) + ns_rate l * of_nat (elapsed_ns ops) + of_nat (asked u (answers (now, l) ops)) * call_err l"
  using assms
proof (induction ops arbitrary: now l)
  case Nil
  then show ?case by (simp add: granted_def asked_def elapsed_ns_def limiter_ok_def)
next
  case (Cons op ops)
  then obtain dt v where op: "op = AllowOp dt v" by (cases op) auto
  let ?now = "now + int dt"
  let ?l = "fst (Allow ?now v l)"
  have ok: "limiter_ok l ?now" using Cons.prems(1) by (rule limiter_ok_later) simp
  have ok': "limiter_ok ?l ?now" using ok by (rule limiter_ok_Allow)
  have rest: "list_all is_Allow ops" using Cons.prems(2) by simp
  have par: "ns_rate ?l = ns_rate l" "call_err ?l = call_err l" "burst ?l = burst l"
    by (simp_all add: ns_rate_def call_err_def)
  have r: "0 \<le> ns_rate l" using ok eps64_pos by (simp add: ns_rate_def limiter_ok_def)
  then have dt: "ns_rate l * of_nat (elapsed_ns ops) \<le> ns_rate l * of_nat (elapsed_ns (op # ops))"
    by (intro mult_left_mono) (simp_all add: op elapsed_ns_def)
  show ?case
  proof (cases "v = u")
    case False
    with Cons.IH [OF ok' rest, unfolded par] dt show ?thesis
      by (simp add: op granted_def asked_def)
  next
    case True
    obtain b' where b': "mget (buckets ?l) u = Some b'" using True by (simp add: Allow_bucket(1))
    let ?t = "refilled l ?now (bucket_of l ?now u)"
    have cost: "tokens b' + of_bool (snd (Allow ?now u l)) \<le> ?t + of_int (burst l) * eps64" "lastTime b' = ?now"
      using Allow_cost [OF ok refl] b' True by simp_all
    have "0 \<le> of_int (burst l) * eps64" using ok eps64_pos by (simp add: limiter_ok_def)
    moreover have "granted u (answers (now, l) (op # ops))
        = of_bool (snd (Allow ?now u l)) + granted u (answers (?now, ?l) ops)"
      "asked u (answers (now, l) (op # ops)) = 1 + asked u (answers (?now, ?l) ops)"
      by (simp_all add: op True granted_def asked_def)
    moreover have "of_nat (granted u (answers (?now, ?l) ops)) \<le>
        tokens b' + ns_rate l * of_nat (elapsed_ns ops) + of_nat (asked u (answers (?now, ?l) ops)) * call_err l"
      using granted_after_call [OF ok' b' rest, unfolded par] cost(2) by simp
    moreover note cost(1) refilled_bounds(2) [OF ok, of u] dt
    ultimately show ?thesis
      by (simp only: of_nat_add of_nat_1 of_nat_of_bool distrib_right call_err_def mult_1_left
        mult_2 [of "of_int (burst l) * eps64", folded mult.assoc])
  qed
qed

lemma without_cleanup_Allow: "list_all is_Allow (without_cleanup c ops)"
  by (induction c ops rule: without_cleanup.induct) simp_all

lemma elapsed_without_cleanup: "elapsed_ns (without_cleanup c ops) \<le> c + elapsed_ns ops"
  by (induction c ops rule: without_cleanup.induct) (simp_all add: elapsed_ns_def)

lemma asked_length: "asked u (answers s ops) \<le> length ops"
proof (induction ops arbitrary: s)
  case (Cons op ops)
  have "length (filter (\<lambda>a. fst a = u) (answers (limiter_step op s) ops)) \<le> length ops"
    using Cons.IH by (simp add: asked_def)
  then show ?case by (cases s; cases op) (auto simp: asked_def)
qed (simp add: asked_def)

text \<open>
  C23. The rate limit holds: with the node's settings, in any history of at most a million million
  calls that spans at most a day, calls to \<open>Cleanup\<close> included, a user is allowed fewer than 21 calls plus
  10 for each second of the span, whatever the rounding of the \<open>float64\<close> token count does.
\<close>

theorem allowed_in_window:
  assumes "limiter_ok l now" and "rate l = 10" and "burst l = 20"
    and "list_all (cleanup_age (600 * 10 ^ 9)) ops"
    and "length ops \<le> 10 ^ 12" and "elapsed_ns ops \<le> 86400 * 10 ^ 9"
  shows "of_nat (granted u (answers (now, l) ops)) < (21 :: rat) + 10 * (of_nat (elapsed_ns ops) / 10 ^ 9)"
proof -
  let ?ops = "without_cleanup 0 ops"
  have same: "answers (now, l) ops = answers (now, l) ?ops"
  proof (rule answers_without_cleanup [where k = 600])
    show "stale_sim (600 * 10 ^ 9) now l l" by (simp add: stale_sim_def)
  qed (use assms in \<open>simp_all add: refills_within_def\<close>)
  let ?n = "asked u (answers (now, l) ?ops)" and ?T = "of_nat (elapsed_ns ops) :: rat"
  have n: "of_nat ?n \<le> (10 ^ 12 :: rat)"
  proof -
    have "?n \<le> 10 ^ 12" using asked_length [of u "(now, l)" ops] assms(5) unfolding same by linarith
    then have "of_nat ?n \<le> (of_nat (10 ^ 12) :: rat)" by (rule of_nat_mono)
    then show ?thesis by simp
  qed
  have T: "0 \<le> ?T" "?T \<le> 86400 * 10 ^ 9"
    using of_nat_mono [OF assms(6), where 'a = rat] by simp_all
  have "of_nat (elapsed_ns ?ops) \<le> ?T"
    using elapsed_without_cleanup [of 0 ops] by (simp only: of_nat_le_iff)
  moreover have "0 \<le> ns_rate l" using assms(2) eps64_pos by (simp add: ns_rate_def)
  ultimately have "ns_rate l * of_nat (elapsed_ns ?ops) \<le> ns_rate l * ?T" by (intro mult_left_mono)
  moreover have "of_nat ?n * call_err l \<le> 10 ^ 12 * call_err l"
    using n eps64_pos assms(3) by (intro mult_right_mono) (simp_all add: call_err_def)
  ultimately have "of_nat (granted u (answers (now, l) ops)) \<le> 20 + ns_rate l * ?T + 10 ^ 12 * call_err l"
    using granted_bound [OF assms(1) without_cleanup_Allow [of 0 ops], of u] assms(3) unfolding same
    by simp
  moreover have "ns_rate l * ?T = 10 * (?T / 10 ^ 9) + 10 * (?T / 10 ^ 9) * ((1 + eps64) ^ 4 - 1)"
    by (simp add: ns_rate_def assms(2) field_simps)
  moreover have "10 * (?T / 10 ^ 9) * ((1 + eps64) ^ 4 - 1) \<le> 864000 * ((1 + eps64) ^ 4 - 1)"
    using T by (intro mult_right_mono) (simp_all add: eps64_def)
  moreover have "864000 * ((1 + eps64) ^ 4 - 1) + 10 ^ 12 * call_err l < 1"
    by (simp add: call_err_def assms(3) eps64_def power_divide)
  ultimately show ?thesis by linarith
qed

theorem allowed_in_window_witness:
  "of_nat (granted ''ann'' (answers (0, NewLimiter 10 20) (replicate 30 (AllowOp 0 ''ann'')))) < (21 :: rat)"
proof -
  have "elapsed_ns (replicate 30 (AllowOp 0 ''ann'')) = 0" by (simp add: elapsed_ns_def sum_list_replicate)
  then show ?thesis
    using allowed_in_window [of "NewLimiter 10 20" 0 "replicate 30 (AllowOp 0 ''ann'')" "''ann''"]
    by (simp add: limiter_ok_NewLimiter list_all_iff) (simp add: NewLimiter_def)
qed

lemma duration_sub_self [simp]: "duration_sub t t = 0"
  by (simp add: duration_sub_def)

lemma Allow_same_instant:
  assumes "limiter_ok l now" and "mget (buckets l) u = Some \<lparr>tokens = of_nat k, lastTime = now\<rparr>"
    and "0 < k"
  shows "snd (Allow now u l)"
    and "mget (buckets (fst (Allow now u l))) u = Some \<lparr>tokens = of_nat (k - 1), lastTime = now\<rparr>"
proof -
  have "of_nat k \<le> (of_int (burst l) :: rat)" using limiter_ok_bucket(2) [OF assms(1,2)] by simp
  then have kb: "int k \<le> burst l" by (metis of_int_le_iff of_int_of_nat_eq)
  moreover have "burst l \<le> 2 ^ 53" using assms(1) by (simp add: limiter_ok_def)
  ultimately have "int k \<le> 2 ^ 53" by linarith
  then have fl: "fl64 (of_nat j) = of_nat j" if "j \<le> k" for j
    using that fl.exact [of "int j"] by simp
  have t: "refilled l now (bucket_of l now u) = of_nat k"
  proof -
    have b: "bucket_of l now u = \<lparr>tokens = of_nat k, lastTime = now\<rparr>"
      by (simp add: bucket_of_def assms(2))
    have "\<not> of_int (burst l) < (of_nat k :: rat)"
      using \<open>of_nat k \<le> (of_int (burst l) :: rat)\<close> by simp
    then show ?thesis
      unfolding refilled_def b Let_def full_burst [OF assms(1)]
      by (simp only: bucket.simps duration_sub_self Seconds_0 mult_zero_left fl.rnd_0 add_0_right
        fl [OF order_refl] if_False)
  qed
  have k1: "1 \<le> (of_nat k :: rat)" using of_nat_mono [of 1 k, where 'a = rat] assms(3) by simp
  then show "snd (Allow now u l)" unfolding Allow_bucket(3) t .
  have "of_nat k - 1 = (of_nat (k - 1) :: rat)" using assms(3) by (simp add: of_nat_diff)
  moreover have "fl64 (of_nat (k - 1)) = of_nat (k - 1)" by (rule fl) simp
  ultimately show "mget (buckets (fst (Allow now u l))) u = Some \<lparr>tokens = of_nat (k - 1), lastTime = now\<rparr>"
    unfolding Allow_bucket(1) t Let_def using k1 by (simp only: if_True)
qed

lemma Allow_empty_instant:
  assumes "limiter_ok l now" and "mget (buckets l) u = Some \<lparr>tokens = 0, lastTime = now\<rparr>"
  shows "\<not> snd (Allow now u l)"
    and "mget (buckets (fst (Allow now u l))) u = Some \<lparr>tokens = 0, lastTime = now\<rparr>"
proof -
  have t: "refilled l now (bucket_of l now u) = 0"
    using assms full_burst [OF assms(1)]
    by (simp add: bucket_of_def refilled_def duration_sub_def Let_def limiter_ok_def)
  show "\<not> snd (Allow now u l)"
    "mget (buckets (fst (Allow now u l))) u = Some \<lparr>tokens = 0, lastTime = now\<rparr>"
    using t by (simp_all add: Allow_bucket Let_def)
qed

lemma answers_same_instant:
  assumes "limiter_ok l now" and "mget (buckets l) u = Some \<lparr>tokens = of_nat k, lastTime = now\<rparr>"
  shows "answers (now, l) (replicate n (AllowOp 0 u)) =
    replicate (min n k) (u, True) @ replicate (n - k) (u, False)"
  using assms
proof (induction n arbitrary: l k)
  case (Suc n)
  have ok: "limiter_ok (fst (Allow now u l)) now" using Suc.prems(1) by (rule limiter_ok_Allow)
  show ?case
  proof (cases "k = 0")
    case True
    then have b: "mget (buckets l) u = Some \<lparr>tokens = 0, lastTime = now\<rparr>" using Suc.prems(2) by simp
    from Suc.IH [OF ok, of 0] Allow_empty_instant [OF Suc.prems(1) b] True show ?thesis by simp
  next
    case False
    then obtain j where "k = Suc j" by (cases k) auto
    with Suc.IH [OF ok, of j] Allow_same_instant [OF Suc.prems] show ?thesis by simp
  qed
qed simp

text \<open>
  A user who has no bucket yet gets one burst at once and no more: of any number of calls at one
  instant exactly the first 20 are allowed.
\<close>

theorem burst_then_wait:
  assumes "limiter_ok l now" and "burst l = 20" and "mget (buckets l) u = None"
  shows "answers (now, l) (replicate n (AllowOp 0 u)) =
    replicate (min n 20) (u, True) @ replicate (n - 20) (u, False)"
proof (cases n)
  case (Suc m)
  have t: "refilled l now (bucket_of l now u) = 20"
    using refilled_fresh [OF assms(1)] assms(2,3) by (simp add: bucket_of_def)
  have "fl64 19 = 19" using fl.exact [of 19] by simp
  then have "mget (buckets (fst (Allow now u l))) u = Some \<lparr>tokens = of_nat 19, lastTime = now\<rparr>"
    using t by (simp add: Allow_bucket(1) Let_def)
  from answers_same_instant [OF limiter_ok_Allow [OF assms(1)] this, of m] t show ?thesis
    by (simp add: Suc Allow_bucket(3))
qed simp

theorem burst_then_wait_witness:
  "answers (5, NewLimiter 10 20) (replicate 22 (AllowOp 0 ''ann'')) =
     replicate 20 (''ann'', True) @ replicate 2 (''ann'', False)"
  using burst_then_wait [of "NewLimiter 10 20" 5 "''ann''" 22]
  by (simp add: limiter_ok_NewLimiter) (simp add: NewLimiter_def)

end
