(* ===== verification/MessageStore.thy ===== *)
theory MessageStore
  imports Protocol
begin

text \<open>
  \<open>internal/storage/storage.go\<close>: the message store. A message is stored twice, in the list of its channel
  and in the flat list, and both copies can hold the same \<open>Reactions\<close> map: the maps live in an explicit heap
  (\<open>sto_heap\<close>, a list indexed by address) and a stored message holds the address. What the store returns is
  read through the heap (\<open>deref\<close>).

  The disk holds append-only files of lines; a line is what reading it gives, with its length. A write
  can fail and leave a fragment, which spoils the line after it. \<open>bufio.Scanner\<close> stops at a line that
  does not fit its buffer. Operations run one after another: each holds \<open>s.mu\<close>.
\<close>

section \<open>Lines of the append-only file\<close>

definition json_rune_size :: "nat \<times> nat \<Rightarrow> nat" where
  \<comment> \<open>the bytes \<open>encoding/json\<close> writes for a rune of the given width inside a string\<close>
  "json_rune_size rw = (case rw of (r, w) \<Rightarrow>
     if r = 0x22 \<or> r = 0x5C \<or> r = 8 \<or> r = 9 \<or> r = 10 \<or> r = 12 \<or> r = 13 then 2
     else if r < 0x20 \<or> r = 0x3C \<or> r = 0x3E \<or> r = 0x26 \<or> r = 0x2028 \<or> r = 0x2029 then 6
     else if r = RuneError \<and> w = 1 then 6
     else w)"

function rune_widths :: "string \<Rightarrow> (nat \<times> nat) list" where
  "rune_widths [] = []"
| "rune_widths (x # s) = decode_rune x s # rune_widths (drop (snd (decode_rune x s) - 1) s)"
  by pat_completeness auto
termination
  by (relation "measure length") auto

definition json_string_size :: "string \<Rightarrow> nat" where
  "json_string_size s = 2 + sum_list (map json_rune_size (rune_widths s))"

fun frac_digits :: "nat \<Rightarrow> nat \<Rightarrow> nat" where
  \<comment> \<open>of \<open>k\<close> decimals, those left when trailing zeros are dropped\<close>
  "frac_digits 0 n = 0"
| "frac_digits (Suc k) n = (if n mod 10 = 0 then frac_digits k (n div 10) else Suc k)"

definition json_time_size :: "gotime \<Rightarrow> nat" where
  \<comment> \<open>\<open>"2006-01-02T15:04:05.999999999Z07:00"\<close>\<close>
  "json_time_size t =
     (let d = frac_digits 9 (nat (tnanos t mod 10 ^ 9))
      in 21 + (if d = 0 then 0 else d + 1) + (if toffset t = 0 then 1 else 6))"

definition list_size :: "nat list \<Rightarrow> nat" where
  \<comment> \<open>elements between brackets, separated by commas\<close>
  "list_size ns = 2 + sum_list ns + (length ns - 1)"

definition field_size :: "string \<Rightarrow> nat \<Rightarrow> nat" where
  "field_size name n = length name + 3 + n"

definition opt_field :: "string \<Rightarrow> string \<Rightarrow> nat list" where
  "opt_field name s = (if s = [] then [] else [field_size name (json_string_size s)])"

definition map_size :: "('v \<Rightarrow> nat) \<Rightarrow> (string, 'v) gomap \<Rightarrow> nat" where
  "map_size f m = list_size (map (\<lambda>(k, v). json_string_size k + 1 + f v) m)"

definition opt_map :: "string \<Rightarrow> ('v \<Rightarrow> nat) \<Rightarrow> (string, 'v) gomap option \<Rightarrow> nat list" where
  "opt_map name f m =
     (case m of None \<Rightarrow> [] | Some [] \<Rightarrow> [] | Some m \<Rightarrow> [field_size name (map_size f m)])"

definition json_size :: "wire_msg \<Rightarrow> nat" where
  \<comment> \<open>the length of the line \<open>Encode\<close> writes, without the newline\<close>
  "json_size m =
     list_size
       ([field_size ''type'' (length (Itoa (type_code (Type m))))]
        @ opt_field ''id'' (ID m)
        @ [field_size ''sender'' (json_string_size (Sender m)),
           field_size ''content'' (json_string_size (Content m))]
        @ opt_field ''channel'' (Channel m) @ opt_field ''recipient'' (Recipient m)
        @ opt_field ''reply_to'' (ReplyTo m)
        @ (if Edited m then [field_size ''edited'' 4] else [])
        @ opt_map ''reactions'' (\<lambda>us. list_size (map json_string_size us)) (Reactions m)
        @ opt_map ''metadata'' json_string_size (Metadata m)
        @ [field_size ''timestamp'' (json_time_size (Timestamp m))])"

datatype aof_line =
    Line wire_msg nat   \<comment> \<open>decodes as this message; its length\<close>
  | Corrupt nat

fun line_size :: "aof_line \<Rightarrow> nat" where
  "line_size (Line m n) = n"
| "line_size (Corrupt n) = n"

record aof_file =
  lines :: "aof_line list"
  fragment :: "aof_line option"  \<comment> \<open>what stands after the last newline\<close>

type_synonym disk = "(string, aof_file) gomap"

definition empty_file :: aof_file where
  "empty_file = \<lparr>lines = [], fragment = None\<rparr>"

definition append_line :: "aof_line \<Rightarrow> aof_file \<Rightarrow> aof_file" where
  \<comment> \<open>a complete line after a fragment makes one line with it, which does not decode\<close>
  "append_line l f =
     (case fragment f of
        None \<Rightarrow> f\<lparr>lines := lines f @ [l]\<rparr>
      | Some g \<Rightarrow> \<lparr>lines = lines f @ [Corrupt (line_size g + line_size l)], fragment = None\<rparr>)"

definition append_fragment :: "aof_line option \<Rightarrow> aof_file \<Rightarrow> aof_file" where
  \<comment> \<open>what a write that fails half way adds\<close>
  "append_fragment g f =
     (case g of
        None \<Rightarrow> f
      | Some l \<Rightarrow>
          f\<lparr>fragment := Some (case fragment f of None \<Rightarrow> l | Some h \<Rightarrow> Corrupt (line_size h + line_size l))\<rparr>)"

definition file_lines :: "aof_file \<Rightarrow> aof_line list" where
  "file_lines f = lines f @ (case fragment f of None \<Rightarrow> [] | Some g \<Rightarrow> [g])"

definition max_token :: nat where
  "max_token = MaxMessageSize + 4096"

fun scan_lines :: "aof_line list \<Rightarrow> wire_msg list \<times> bool" where
  \<comment> \<open>the messages of the lines, up to the first line the scanner's buffer does not hold; false where
     the scanner stopped there\<close>
  "scan_lines [] = ([], True)"
| "scan_lines (l # ls) =
     (if max_token \<le> line_size l then ([], False)
      else case scan_lines ls of (ms, ok) \<Rightarrow>
        ((case l of Line m n \<Rightarrow> m # ms | Corrupt n \<Rightarrow> ms), ok))"

section \<open>The store\<close>

type_synonym stored_msg = "nat message"

datatype aof_handle =
  \<comment> \<open>\<open>aofFile\<close> with its \<open>encoder\<close>. An encoder that could not write returns that error for every later message.\<close>
  OpenFile string | FailedEncoder string | ClosedFile

record storage =
  messages :: "(string, stored_msg list) gomap"
  allMsgs :: "stored_msg list"
  capacity :: int
  sto_heap :: "reactions list"
  aofFile :: aof_handle
  sto_disk :: disk

definition with_reactions :: "'s option \<Rightarrow> 'r message \<Rightarrow> 's message" where
  "with_reactions r m =
     \<lparr>Type = Type m, ID = ID m, Sender = Sender m, Content = Content m, Channel = Channel m,
      Recipient = Recipient m, ReplyTo = ReplyTo m, Edited = Edited m, Reactions = r,
      Metadata = Metadata m, Timestamp = Timestamp m\<rparr>"

definition deref :: "reactions list \<Rightarrow> stored_msg \<Rightarrow> wire_msg" where
  "deref h m = with_reactions (map_option (\<lambda>r. h ! r) (Reactions m)) m"

definition alloc :: "wire_msg \<Rightarrow> reactions list \<Rightarrow> reactions list \<times> stored_msg" where
  \<comment> \<open>a message whose map, if it has one, is a new object of the heap\<close>
  "alloc m h =
     (case Reactions m of
        None \<Rightarrow> (h, with_reactions None m)
      | Some r \<Rightarrow> (h @ [r], with_reactions (Some (length h)) m))"

definition aof_name :: "string \<Rightarrow> int \<Rightarrow> string" where
  "aof_name dataDir port = dataDir @ ''/node-'' @ Itoa port @ ''.aof''"

definition NewStorage :: "int \<Rightarrow> string \<Rightarrow> int \<Rightarrow> bool \<Rightarrow> disk \<Rightarrow> storage option outcome" where
  \<comment> \<open>the fourth argument: \<open>OpenFile\<close> succeeds. \<open>Ret None\<close> is \<open>log.Fatalf\<close>; a negative capacity panics\<close>
  "NewStorage cap dataDir port opens d =
     (let filename = aof_name dataDir port in
      if \<not> opens then Ret None
      else if cap < 0 then Panic
      else Ret (Some \<lparr>messages = [], allMsgs = [], capacity = cap, sto_heap = [],
             aofFile = OpenFile filename,
             sto_disk = (if mhas d filename then d else mput filename empty_file d)\<rparr>))"

definition normalizeChannel :: "string \<Rightarrow> string" where
  "normalizeChannel ch = (if ch = [] then ''general'' else ch)"

datatype write_result = Written | WriteFails "aof_line option"

definition write_line :: "write_result \<Rightarrow> wire_msg \<Rightarrow> aof_handle \<Rightarrow> disk \<Rightarrow> aof_handle \<times> disk \<times> bool" where
  \<comment> \<open>\<open>encoder.Encode(msg)\<close>: nothing is written where the message does not encode, or the encoder has failed before\<close>
  "write_line w m handle d =
     (case transmit m of
        None \<Rightarrow> (handle, d, False)
      | Some m' \<Rightarrow>
          (case handle of
             OpenFile name \<Rightarrow>
               let f = mget_or empty_file d name in
               (case w of
                  Written \<Rightarrow> (handle, mput name (append_line (Line m' (json_size m)) f) d, True)
                | WriteFails g \<Rightarrow> (FailedEncoder name, mput name (append_fragment g f) d, False))
           | _ \<Rightarrow> (handle, d, False)))"

record save_env =
  sv_rnd :: "string option"
  sv_now :: gotime
  sv_write :: write_result

definition trim_capacity :: "int \<Rightarrow> 'a list \<Rightarrow> 'a list" where
  "trim_capacity cap xs = (if cap < int (length xs) then tl xs else xs)"

definition prepare_msg :: "save_env \<Rightarrow> wire_msg \<Rightarrow> wire_msg" where
  \<comment> \<open>\<open>Save\<close> fills in the channel and the identifier\<close>
  "prepare_msg e msg =
     (let msg = msg\<lparr>Channel := normalizeChannel (Channel msg)\<rparr>
      in if ID msg = [] then msg\<lparr>ID := GenerateID (sv_rnd e) (sv_now e)\<rparr> else msg)"

definition Save :: "save_env \<Rightarrow> wire_msg \<Rightarrow> storage \<Rightarrow> storage \<times> bool" where
  \<comment> \<open>true where \<open>nil\<close> is returned\<close>
  "Save e msg s =
     (let msg = prepare_msg e msg; ch = Channel msg
      in if MaxMessageSize < length (Content msg) then (s, False)
         else
           (let (h, m) = alloc msg (sto_heap s);
                l = mget_or [] (messages s) ch @ [m];
                (f, d, ok) = write_line (sv_write e) msg (aofFile s) (sto_disk s)
            in (s\<lparr>messages := mput ch (trim_capacity (capacity s) l) (messages s),
                  allMsgs := trim_capacity (capacity s) (allMsgs s @ [m]),
                  sto_heap := h, aofFile := f, sto_disk := d\<rparr>, ok)))"

definition Storage_Close :: "storage \<Rightarrow> storage" where
  "Storage_Close s = s\<lparr>aofFile := ClosedFile\<rparr>"

section \<open>Reading\<close>

definition view :: "storage \<Rightarrow> stored_msg list \<Rightarrow> wire_msg list" where
  "view s ms = map (deref (sto_heap s)) ms"

definition GetLastTimestamp :: "storage \<Rightarrow> gotime" where
  "GetLastTimestamp s = (if allMsgs s = [] then zero_time else Timestamp (last (allMsgs s)))"

definition GetMessagesAfter :: "gotime \<Rightarrow> storage \<Rightarrow> wire_msg list" where
  "GetMessagesAfter t s = filter (\<lambda>m. After (Timestamp m) t) (view s (allMsgs s))"

definition GetRecentMessages :: "int \<Rightarrow> storage \<Rightarrow> wire_msg list outcome" where
  "GetRecentMessages cnt s =
     (let total = int (length (allMsgs s)) in
      if total = 0 then Ret []
      else
        (let cnt = (if total < cnt then total else cnt) in
         if cnt < 0 then Panic
         else Ret (view s (drop (nat (total - cnt)) (allMsgs s)))))"

definition GetChannelMessages :: "string \<Rightarrow> int \<Rightarrow> int \<Rightarrow> storage \<Rightarrow> (wire_msg list \<times> int) outcome" where
  \<comment> \<open>\<open>make\<close> panics for a negative length\<close>
  "GetChannelMessages ch limit offset s =
     (let msgs = mget_or [] (messages s) (normalizeChannel ch);
          total = int (length msgs)
      in if total = 0 then Ret ([], 0)
         else
           (let start = wrap64 (total - offset - limit);
                end' = wrap64 (total - offset);
                start = (if start < 0 then 0 else start)
            in if end' < 0 then Ret ([], total)
               else
                 (let end' = (if total < end' then total else end') in
                  if wrap64 (end' - start) < 0 then Panic
                  else Ret (view s (take (nat (end' - start)) (drop (nat start) msgs)), total))))"

definition SearchMessages :: "(nat \<Rightarrow> nat) \<Rightarrow> string \<Rightarrow> storage \<Rightarrow> wire_msg list" where
  "SearchMessages ulower query s =
     (let query = ToLower ulower query;
          results = filter (\<lambda>m. Contains (ToLower ulower (Content m)) query) (view s (allMsgs s))
      in if 100 < length results then drop (length results - 100) results else results)"

definition GetMessageByID :: "string \<Rightarrow> storage \<Rightarrow> wire_msg option" where
  \<comment> \<open>the last one with the identifier\<close>
  "GetMessageByID mid s = find (\<lambda>m. ID m = mid) (rev (view s (allMsgs s)))"

section \<open>Changing\<close>

primrec update_first :: "('a \<Rightarrow> bool) \<Rightarrow> ('a \<Rightarrow> 'a) \<Rightarrow> 'a list \<Rightarrow> 'a list" where
  "update_first P f [] = []"
| "update_first P f (x # xs) = (if P x then f x # xs else x # update_first P f xs)"

primrec delete_first :: "('a \<Rightarrow> bool) \<Rightarrow> 'a list \<Rightarrow> 'a list" where
  "delete_first P [] = []"
| "delete_first P (x # xs) = (if P x then xs else x # delete_first P xs)"

definition change_channel :: "string \<Rightarrow> (stored_msg list \<Rightarrow> stored_msg list) \<Rightarrow> (string, stored_msg list) gomap \<Rightarrow> (string, stored_msg list) gomap" where
  "change_channel ch f m = (case mget m ch of None \<Rightarrow> m | Some l \<Rightarrow> mput ch (f l) m)"

definition UpdateMessage :: "string \<Rightarrow> string \<Rightarrow> storage \<Rightarrow> storage \<times> bool" where
  "UpdateMessage mid newContent s =
     (case find (\<lambda>m. ID m = mid) (allMsgs s) of
        None \<Rightarrow> (s, False)
      | Some m \<Rightarrow>
          (let upd = update_first (\<lambda>m. ID m = mid) (\<lambda>m. m\<lparr>Content := newContent, Edited := True\<rparr>)
           in (s\<lparr>allMsgs := upd (allMsgs s),
                 messages := change_channel (normalizeChannel (Channel m)) upd (messages s)\<rparr>, True)))"

definition DeleteMessage :: "string \<Rightarrow> storage \<Rightarrow> storage \<times> bool" where
  "DeleteMessage mid s =
     (case find (\<lambda>m. ID m = mid) (allMsgs s) of
        None \<Rightarrow> (s, False)
      | Some m \<Rightarrow>
          (let del = delete_first (\<lambda>m. ID m = mid)
           in (s\<lparr>allMsgs := del (allMsgs s),
                 messages := change_channel (normalizeChannel (Channel m)) del (messages s)\<rparr>, True)))"

definition ensure_reactions :: "stored_msg \<Rightarrow> reactions list \<Rightarrow> reactions list \<times> nat" where
  \<comment> \<open>\<open>if m.Reactions == nil { m.Reactions = make(...) }\<close>: the heap and the address of the map\<close>
  "ensure_reactions m h = (case Reactions m of None \<Rightarrow> (h @ [[]], length h) | Some r \<Rightarrow> (h, r))"

definition set_address :: "string \<Rightarrow> nat \<Rightarrow> stored_msg list \<Rightarrow> stored_msg list" where
  "set_address mid r = update_first (\<lambda>m. ID m = mid) (\<lambda>m. m\<lparr>Reactions := Some r\<rparr>)"

definition AddReaction :: "string \<Rightarrow> string \<Rightarrow> string \<Rightarrow> storage \<Rightarrow> storage \<times> bool" where
  "AddReaction mid emoji user s =
     (case find (\<lambda>m. ID m = mid) (allMsgs s) of
        None \<Rightarrow> (s, False)
      | Some m \<Rightarrow>
          (let (h, r) = ensure_reactions m (sto_heap s);
               s = s\<lparr>allMsgs := set_address mid r (allMsgs s), sto_heap := h\<rparr>;
               users = mget_or [] (h ! r) emoji
           in if user \<in> set users then (s, True)
              else
                (let h = h[r := mput emoji (users @ [user]) (h ! r)];
                     ch = normalizeChannel (Channel m)
                 in case find (\<lambda>m. ID m = mid) (mget_or [] (messages s) ch) of
                      None \<Rightarrow> (s\<lparr>sto_heap := h\<rparr>, True)
                    | Some mc \<Rightarrow>
                        (let (h, rc) = ensure_reactions mc h;
                             h = h[rc := mput emoji (mget_or [] (h ! r) emoji) (h ! rc)]
                         in (s\<lparr>messages := change_channel ch (set_address mid rc) (messages s),
                               sto_heap := h\<rparr>, True)))))"

section \<open>Compaction and loading\<close>

record compact_env =
  create_fails :: bool
  encode_fails :: "nat option"   \<comment> \<open>\<open>Some k\<close>: the write of message \<open>k\<close> fails\<close>
  sync_fails :: bool
  mv_fails :: bool
  reopen_fails :: bool

definition compact_ok :: compact_env where
  "compact_ok = \<lparr>create_fails = False, encode_fails = None, sync_fails = False, mv_fails = False, reopen_fails = False\<rparr>"

fun encode_all :: "wire_msg list \<Rightarrow> aof_line list option" where
  \<comment> \<open>\<open>None\<close> where a message does not encode\<close>
  "encode_all [] = Some []"
| "encode_all (m # ms) =
     (case transmit m of
        None \<Rightarrow> None
      | Some m' \<Rightarrow> map_option (\<lambda>ls. Line m' (json_size m) # ls) (encode_all ms))"

definition CompactAOF :: "compact_env \<Rightarrow> string \<Rightarrow> int \<Rightarrow> storage \<Rightarrow> storage \<times> bool" where
  "CompactAOF e dataDir port s =
     (let filename = aof_name dataDir port;
          tmpFile = filename @ ''.compact''
      in if create_fails e then (s, False)
         else if encode_fails e \<noteq> None \<and> the (encode_fails e) < length (allMsgs s)
           then (s\<lparr>sto_disk := mdel tmpFile (sto_disk s)\<rparr>, False)
         else case encode_all (view s (allMsgs s)) of
           None \<Rightarrow> (s\<lparr>sto_disk := mdel tmpFile (sto_disk s)\<rparr>, False)
         | Some ls \<Rightarrow>
             if sync_fails e then (s\<lparr>sto_disk := mdel tmpFile (sto_disk s)\<rparr>, False)
             else
               (let compacted = \<lparr>lines = ls, fragment = None\<rparr>;
                    s = s\<lparr>aofFile := ClosedFile\<rparr>
                in if mv_fails e
                   then (s\<lparr>sto_disk := mput tmpFile compacted (sto_disk s)\<rparr>, False)
                   else
                     (let s = s\<lparr>sto_disk := mput filename compacted (mdel tmpFile (sto_disk s))\<rparr>
                      in if reopen_fails e then (s, False)
                         else (s\<lparr>aofFile := OpenFile filename\<rparr>, True))))"

fun alloc_all :: "wire_msg list \<Rightarrow> reactions list \<Rightarrow> reactions list \<times> stored_msg list" where
  "alloc_all [] h = (h, [])"
| "alloc_all (m # ms) h =
     (let (h1, m') = alloc m h; (h2, ms') = alloc_all ms h1 in (h2, m' # ms'))"

definition index_channels :: "stored_msg list \<Rightarrow> (string, stored_msg list) gomap" where
  "index_channels ms =
     fold (\<lambda>m idx. let ch = normalizeChannel (Channel m) in mput ch (mget_or [] idx ch @ [m]) idx) ms []"

definition LoadAOF :: "bool \<Rightarrow> string \<Rightarrow> int \<Rightarrow> storage \<Rightarrow> storage \<times> bool" where
  \<comment> \<open>the first argument: the file, if there is one, can be opened\<close>
  "LoadAOF opens dataDir port s =
     (case mget (sto_disk s) (aof_name dataDir port) of
        None \<Rightarrow> (s, True)
      | Some f \<Rightarrow>
          if \<not> opens then (s, False)
          else
            (let (ms, ok) = scan_lines (file_lines f);
                 loaded = (if capacity s < int (length ms) then drop (nat (int (length ms) - capacity s)) ms else ms);
                 (h, stored) = alloc_all loaded (sto_heap s)
             in (s\<lparr>allMsgs := stored, messages := index_channels stored, sto_heap := h\<rparr>, ok)))"

section \<open>Bounds\<close>

datatype store_op =
    SaveOp save_env wire_msg
  | UpdateOp string string
  | DeleteOp string
  | ReactOp string string string
  | CompactOp compact_env string int
  | LoadOp bool string int
  | CloseOp

fun store_call :: "store_op \<Rightarrow> storage \<Rightarrow> storage \<times> bool" where
  "store_call (SaveOp e m) s = Save e m s"
| "store_call (UpdateOp mid c) s = UpdateMessage mid c s"
| "store_call (DeleteOp mid) s = DeleteMessage mid s"
| "store_call (ReactOp mid em u) s = AddReaction mid em u s"
| "store_call (CompactOp e dir p) s = CompactAOF e dir p s"
| "store_call (LoadOp ok dir p) s = LoadAOF ok dir p s"
| "store_call CloseOp s = (Storage_Close s, True)"

definition store_step :: "store_op \<Rightarrow> storage \<Rightarrow> storage" where
  "store_step op s = fst (store_call op s)"

abbreviation chan :: "storage \<Rightarrow> string \<Rightarrow> stored_msg list" where
  "chan s ch \<equiv> mget_or [] (messages s) ch"

definition list_ok :: "int \<Rightarrow> string \<times> stored_msg list \<Rightarrow> bool" where
  "list_ok cap x = (int (length (snd x)) \<le> cap \<and> list_all (\<lambda>m. normalizeChannel (Channel m) = fst x) (snd x))"

definition storage_ok :: "storage \<Rightarrow> bool" where
  \<comment> \<open>no list outgrows the capacity, and a channel's list holds messages of that channel\<close>
  "storage_ok s =
     (int (length (allMsgs s)) \<le> capacity s \<and> mkeys_distinct (messages s) \<and>
      list_all (list_ok (capacity s)) (messages s))"

lemma list_all_put: "list_all P m \<Longrightarrow> P (k, v) \<Longrightarrow> list_all P (mput k v m)"
  using set_mput_subset [of k v m] by (auto simp: list_all_iff)

lemma list_all_get: "list_all P m \<Longrightarrow> mget m k = Some v \<Longrightarrow> P (k, v)"
  using mget_Some_mem [of m k v] by (auto simp: list_all_iff)

lemma normalizeChannel_idem [simp]: "normalizeChannel (normalizeChannel ch) = normalizeChannel ch"
  by (simp add: normalizeChannel_def)

lemma with_reactions_simps [simp]:
  "Type (with_reactions r m) = Type m" "ID (with_reactions r m) = ID m"
  "Sender (with_reactions r m) = Sender m" "Content (with_reactions r m) = Content m"
  "Channel (with_reactions r m) = Channel m" "Recipient (with_reactions r m) = Recipient m"
  "ReplyTo (with_reactions r m) = ReplyTo m" "Edited (with_reactions r m) = Edited m"
  "Reactions (with_reactions r m) = r" "Metadata (with_reactions r m) = Metadata m"
  "Timestamp (with_reactions r m) = Timestamp m"
  by (simp_all add: with_reactions_def)

lemma deref_simps [simp]:
  "Type (deref h m) = Type m" "ID (deref h m) = ID m" "Sender (deref h m) = Sender m"
  "Content (deref h m) = Content m" "Channel (deref h m) = Channel m" "Timestamp (deref h m) = Timestamp m"
  "Reactions (deref h m) = map_option (\<lambda>r. h ! r) (Reactions m)"
  by (simp_all add: deref_def)

lemma alloc_simps [simp]: "alloc m h = (h', m') \<Longrightarrow> ID m' = ID m \<and> Channel m' = Channel m \<and> Timestamp m' = Timestamp m"
  by (auto simp: alloc_def split: option.splits)

lemma prepare_msg_Channel [simp]:
  "Channel (prepare_msg e m) = normalizeChannel (Channel m)" "Content (prepare_msg e m) = Content m"
  by (simp_all add: prepare_msg_def Let_def)

lemma trim_capacity_le: "int (length xs) \<le> cap \<Longrightarrow> int (length (trim_capacity cap (xs @ [x]))) \<le> cap"
  by (auto simp: trim_capacity_def)

lemma set_trim: "set (trim_capacity cap xs) \<subseteq> set xs"
  by (cases xs) (auto simp: trim_capacity_def)

lemma update_first_length [simp]: "length (update_first P f xs) = length xs"
  by (induction xs) auto

lemma update_first_all:
  "list_all Q xs \<Longrightarrow> (\<And>x. Q x \<Longrightarrow> Q (f x)) \<Longrightarrow> list_all Q (update_first P f xs)"
  by (induction xs) auto

lemma delete_first_length: "length (delete_first P xs) \<le> length xs"
  by (induction xs) auto

lemma delete_first_all: "list_all Q xs \<Longrightarrow> list_all Q (delete_first P xs)"
  by (induction xs) auto

lemma list_all_change:
  assumes "list_all P m" and "\<And>l. P (ch, l) \<Longrightarrow> P (ch, f l)"
  shows "list_all P (change_channel ch f m)"
  using assms list_all_get [OF assms(1), of ch]
  by (auto simp: change_channel_def intro!: list_all_put split: option.split)

lemma mkeys_distinct_change [simp]: "mkeys_distinct m \<Longrightarrow> mkeys_distinct (change_channel ch f m)"
  by (simp add: change_channel_def split: option.split)

lemma list_ok_update:
  "list_ok cap (ch, l) \<Longrightarrow> (\<And>m. Channel (f m) = Channel m) \<Longrightarrow> list_ok cap (ch, update_first P f l)"
  unfolding list_ok_def by (auto intro: update_first_all)

lemma list_ok_delete: "list_ok cap (ch, l) \<Longrightarrow> list_ok cap (ch, delete_first P l)"
  using delete_first_length [of P l] unfolding list_ok_def by (auto intro: delete_first_all)

lemma index_channels_ok:
  "mkeys_distinct (index_channels ms) \<and>
   list_all (\<lambda>(ch, l). length l \<le> length ms \<and> list_all (\<lambda>m. normalizeChannel (Channel m) = ch) l) (index_channels ms)"
proof (induction ms rule: rev_induct)
  case (snoc m ms)
  let ?P = "\<lambda>n (ch, l). length l \<le> n \<and> list_all (\<lambda>m. normalizeChannel (Channel m) = ch) l"
  have mono: "list_all (?P (length ms)) idx \<Longrightarrow> list_all (?P (Suc (length ms))) idx" for idx
    by (fastforce simp: list_all_iff)
  have "?P (length ms) (ch, mget_or [] (index_channels ms) ch)" for ch
    using snoc list_all_get [of "?P (length ms)" "index_channels ms" ch]
    by (auto simp: mget_or_def split: option.split)
  then show ?case
    using snoc mono by (auto simp: index_channels_def Let_def intro!: list_all_put)
qed (simp add: index_channels_def)

lemma alloc_all_length [simp]: "alloc_all ms h = (h', ms') \<Longrightarrow> length ms' = length ms"
  by (induction ms arbitrary: h h' ms') (auto simp: Let_def split: prod.splits)

lemma storage_ok_step:
  assumes "storage_ok s"
  shows "storage_ok (store_step op s)"
proof (cases op)
  case (SaveOp e m)
  let ?ch = "normalizeChannel (Channel m)"
  have l: "list_ok (capacity s) (?ch, chan s ?ch)"
    using assms list_all_get [of "list_ok (capacity s)" "messages s" ?ch]
    by (auto simp: storage_ok_def mget_or_def list_ok_def split: option.split)
  have "list_ok (capacity s) (?ch, trim_capacity (capacity s) (chan s ?ch @ [m']))" if "Channel m' = ?ch" for m'
    using l that trim_capacity_le [of "chan s ?ch" "capacity s" m'] set_trim [of "capacity s" "chan s ?ch @ [m']"]
    by (auto simp: list_ok_def list_all_iff)
  then show ?thesis using assms SaveOp trim_capacity_le [of "allMsgs s" "capacity s"]
    by (auto simp: store_step_def Save_def storage_ok_def Let_def intro!: list_all_put split: prod.split)
next
  case (UpdateOp mid c)
  then show ?thesis using assms
    by (auto simp: store_step_def UpdateMessage_def storage_ok_def Let_def intro!: list_all_change list_ok_update split: option.split)
next
  case (DeleteOp mid)
  then show ?thesis using assms delete_first_length [of _ "allMsgs s"]
    by (auto simp: store_step_def DeleteMessage_def storage_ok_def Let_def intro!: list_all_change list_ok_delete
        intro: order_trans [OF of_nat_mono] split: option.split)
next
  case (ReactOp mid em u)
  then show ?thesis using assms
    by (auto simp: store_step_def AddReaction_def storage_ok_def set_address_def Let_def
        intro!: list_all_change list_ok_update split: option.split prod.split)
next
  case (CompactOp e dir p)
  then show ?thesis using assms
    by (auto simp: store_step_def CompactAOF_def storage_ok_def Let_def split: option.split)
next
  case (LoadOp ok dir p)
  have "storage_ok (s\<lparr>allMsgs := ms, messages := index_channels ms, sto_heap := h\<rparr>)"
    if "int (length ms) \<le> capacity s" for ms h
    using that index_channels_ok [of ms] by (auto simp: storage_ok_def list_ok_def list_all_iff)
  with LoadOp assms show ?thesis
    by (auto simp: store_step_def LoadAOF_def Let_def storage_ok_def split: option.split prod.split dest!: alloc_all_length)
next
  case CloseOp
  then show ?thesis using assms by (simp add: store_step_def Storage_Close_def storage_ok_def)
qed

interpretation store: invariant_machine store_step storage_ok
  by unfold_locales (rule storage_ok_step)

text \<open>
  C28. The store never outgrows its capacity: after any sequence of operations, whatever the disk does, the
  flat list and the list of each channel hold at most \<open>capacity\<close> messages, and every message is in the list
  of its own channel.
\<close>

theorem store_bounded:
  assumes "NewStorage cap dir port opens d = Ret (Some s)"
  shows "int (length (allMsgs (fold store_step ops s))) \<le> cap \<and>
    list_all (\<lambda>(ch, l). int (length l) \<le> cap \<and> list_all (\<lambda>m. normalizeChannel (Channel m) = ch) l)
      (messages (fold store_step ops s))"
proof -
  have "storage_ok s" and "capacity s = cap"
    using assms by (auto simp: NewStorage_def storage_ok_def Let_def split: if_splits)
  moreover have "capacity (fold store_step ops t) = capacity t" for t
  proof (induction ops arbitrary: t)
    case (Cons op ops)
    have "capacity (store_step op t) = capacity t"
      by (cases op) (auto simp: store_step_def Save_def UpdateMessage_def DeleteMessage_def AddReaction_def
          CompactAOF_def LoadAOF_def Storage_Close_def Let_def split: option.split prod.split)
    with Cons show ?case by simp
  qed simp
  ultimately show ?thesis
    using store.run_invar [of s ops] by (auto simp: storage_ok_def list_ok_def list_all_iff)
qed

end
