(* ===== verification/StoreSpec.thy ===== *)
theory StoreSpec
  imports MessageStore
begin

text \<open>
  The specification of the message store (\<open>internal/storage/storage.go\<close>, theory \<open>MessageStore\<close>) and its
  refinement. \<open>spec_store\<close> holds the contents of the flat list and of each channel's list, as values; the
  abstract operations map or filter both. \<open>coherent\<close> is the invariant under which the loops of the code,
  which stop at the first match and share maps of reactions between copies, implement them.
\<close>

section \<open>Two copies, one message\<close>

record spec_store =
  sp_all :: "wire_msg list"
  sp_chan :: "string \<Rightarrow> wire_msg list"

definition store_abs :: "storage \<Rightarrow> spec_store" where
  "store_abs s = \<lparr>sp_all = view s (allMsgs s), sp_chan = (\<lambda>ch. view s (chan s ch))\<rparr>"

definition on_id :: "string \<Rightarrow> ('a message \<Rightarrow> 'a message) \<Rightarrow> 'a message \<Rightarrow> 'a message" where
  "on_id mid f m = (if ID m = mid then f m else m)"

definition spec_has :: "string \<Rightarrow> spec_store \<Rightarrow> bool" where
  "spec_has mid A = list_ex (\<lambda>m. ID m = mid) (sp_all A)"

definition spec_change :: "string \<Rightarrow> (wire_msg \<Rightarrow> wire_msg) \<Rightarrow> spec_store \<Rightarrow> spec_store \<times> bool" where
  "spec_change mid f A =
     (if spec_has mid A
      then (\<lparr>sp_all = map (on_id mid f) (sp_all A), sp_chan = (\<lambda>ch. map (on_id mid f) (sp_chan A ch))\<rparr>, True)
      else (A, False))"

definition spec_delete :: "string \<Rightarrow> spec_store \<Rightarrow> spec_store \<times> bool" where
  "spec_delete mid A =
     (if spec_has mid A
      then (\<lparr>sp_all = filter (\<lambda>m. ID m \<noteq> mid) (sp_all A),
             sp_chan = (\<lambda>ch. filter (\<lambda>m. ID m \<noteq> mid) (sp_chan A ch))\<rparr>, True)
      else (A, False))"

definition spec_save :: "int \<Rightarrow> wire_msg \<Rightarrow> spec_store \<Rightarrow> spec_store" where
  "spec_save cap m A =
     \<lparr>sp_all = trim_capacity cap (sp_all A @ [m]),
      sp_chan = (sp_chan A)(Channel m := trim_capacity cap (sp_chan A (Channel m) @ [m]))\<rparr>"

definition react :: "string \<Rightarrow> string \<Rightarrow> wire_msg \<Rightarrow> wire_msg" where
  "react emoji user m =
     (let R = (case Reactions m of None \<Rightarrow> [] | Some R \<Rightarrow> R); us = mget_or [] R emoji
      in if user \<in> set us then m else m\<lparr>Reactions := Some (mput emoji (us @ [user]) R)\<rparr>)"

definition edit :: "string \<Rightarrow> wire_msg \<Rightarrow> wire_msg" where
  "edit c m = m\<lparr>Content := c, Edited := True\<rparr>"

text \<open>
  The copies of a message. \<open>coherent\<close>: identifiers are unique, messages with different identifiers
  share no map, addresses are valid, and the flat list, restricted to a channel, is the end of that
  channel's list (which may be longer: the flat list's capacity is shared by all channels).
\<close>

definition copies :: "storage \<Rightarrow> stored_msg list" where
  "copies s = allMsgs s @ concat (map snd (messages s))"

definition in_channel :: "string \<Rightarrow> 'a message \<Rightarrow> bool" where
  "in_channel ch m = (normalizeChannel (Channel m) = ch)"

definition coherent :: "storage \<Rightarrow> bool" where
  "coherent s =
     (storage_ok s \<and> distinct (map ID (allMsgs s)) \<and>
      list_all (\<lambda>(ch, l). distinct (map ID l)) (messages s) \<and>
      list_all (\<lambda>m. list_all (\<lambda>m'.
          (ID m = ID m' \<longrightarrow> normalizeChannel (Channel m) = normalizeChannel (Channel m')) \<and>
          (Reactions m \<noteq> None \<longrightarrow> Reactions m = Reactions m' \<longrightarrow> ID m = ID m')) (copies s)) (copies s) \<and>
      list_all (\<lambda>m. case Reactions m of None \<Rightarrow> True | Some r \<Rightarrow> r < length (sto_heap s)) (copies s) \<and>
      (\<forall>ch. suffix (view s (filter (in_channel ch) (allMsgs s))) (view s (chan s ch))))"

lemma chan_copies: "m \<in> set (chan s ch) \<Longrightarrow> m \<in> set (copies s)"
  using mget_Some_mem [of "messages s" ch]
  by (force simp: copies_def mget_or_def split: option.splits)

lemma all_copies: "m \<in> set (allMsgs s) \<Longrightarrow> m \<in> set (copies s)"
  by (simp add: copies_def)

lemma copies_iff:
  assumes "mkeys_distinct (messages s)"
  shows "m \<in> set (copies s) \<longleftrightarrow> m \<in> set (allMsgs s) \<or> (\<exists>ch. m \<in> set (chan s ch))"
proof
  assume "m \<in> set (copies s)"
  then consider "m \<in> set (allMsgs s)" | ch l where "(ch, l) \<in> set (messages s)" "m \<in> set l"
    by (auto simp: copies_def)
  then show "m \<in> set (allMsgs s) \<or> (\<exists>ch. m \<in> set (chan s ch))"
  proof cases
    case (2 ch l)
    then have "chan s ch = l" using assms by (simp add: mget_or_def flip: mget_iff_mem)
    with 2 show ?thesis by auto
  qed simp
qed (auto intro: chan_copies all_copies)

text \<open>The invariant in the form the proofs use.\<close>

lemma coherent_iff:
  "coherent s \<longleftrightarrow>
     storage_ok s \<and> distinct (map ID (allMsgs s)) \<and> (\<forall>ch. distinct (map ID (chan s ch))) \<and>
     (\<forall>m \<in> set (copies s). \<forall>m' \<in> set (copies s).
        (ID m = ID m' \<longrightarrow> normalizeChannel (Channel m) = normalizeChannel (Channel m')) \<and>
        (Reactions m \<noteq> None \<longrightarrow> Reactions m = Reactions m' \<longrightarrow> ID m = ID m')) \<and>
     (\<forall>m \<in> set (copies s). \<forall>r. Reactions m = Some r \<longrightarrow> r < length (sto_heap s)) \<and>
     (\<forall>ch. suffix (view s (filter (in_channel ch) (allMsgs s))) (view s (chan s ch)))"
proof -
  have "list_all (\<lambda>(ch, l). distinct (map ID l)) (messages s) \<longleftrightarrow> (\<forall>ch. distinct (map ID (chan s ch)))"
    if "mkeys_distinct (messages s)"
  proof
    assume "list_all (\<lambda>(ch, l). distinct (map ID l)) (messages s)"
    then show "\<forall>ch. distinct (map ID (chan s ch))"
      using list_all_get [of "\<lambda>(ch, l). distinct (map ID l)" "messages s"]
      by (fastforce simp: mget_or_def split: option.split)
  next
    assume *: "\<forall>ch. distinct (map ID (chan s ch))"
    have "distinct (map ID l)" if "(ch, l) \<in> set (messages s)" for ch l
      using * [rule_format, of ch] that \<open>mkeys_distinct (messages s)\<close>
      by (simp add: mget_or_def flip: mget_iff_mem)
    then show "list_all (\<lambda>(ch, l). distinct (map ID l)) (messages s)" by (auto simp: list_all_iff)
  qed
  then have distinct: "storage_ok s \<Longrightarrow> list_all (\<lambda>(ch, l). distinct (map ID l)) (messages s) \<longleftrightarrow> (\<forall>ch. distinct (map ID (chan s ch)))"
    by (simp add: storage_ok_def)
  have pairs: "list_all (\<lambda>m. list_all (P m) xs) xs \<longleftrightarrow> (\<forall>m \<in> set xs. \<forall>m' \<in> set xs. P m m')" for P and xs :: "stored_msg list"
    by (simp add: list_all_iff)
  have addresses: "list_all (\<lambda>m. case Reactions m of None \<Rightarrow> True | Some r \<Rightarrow> r < n) xs
      \<longleftrightarrow> (\<forall>m \<in> set xs. \<forall>r. Reactions m = Some r \<longrightarrow> r < n)" for n and xs :: "stored_msg list"
    by (auto simp: list_all_iff split: option.split)
  show ?thesis unfolding coherent_def pairs addresses using distinct by blast
qed

lemma coherentD:
  assumes "coherent s"
  shows "storage_ok s" and "distinct (map ID (allMsgs s))" and "distinct (map ID (chan s ch))"
    and "m \<in> set (copies s) \<Longrightarrow> m' \<in> set (copies s) \<Longrightarrow> ID m = ID m' \<Longrightarrow>
      normalizeChannel (Channel m) = normalizeChannel (Channel m')"
    and "m \<in> set (copies s) \<Longrightarrow> m' \<in> set (copies s) \<Longrightarrow> Reactions m = Some r \<Longrightarrow> Reactions m' = Some r \<Longrightarrow> ID m = ID m'"
    and "m \<in> set (copies s) \<Longrightarrow> Reactions m = Some r \<Longrightarrow> r < length (sto_heap s)"
    and "suffix (view s (filter (in_channel ch) (allMsgs s))) (view s (chan s ch))"
proof -
  note c = iffD1 [OF coherent_iff assms]
  note c1 = conjunct1 [OF c] and c2 = conjunct2 [OF c]
  note d1 = conjunct1 [OF c2] and d2 = conjunct2 [OF c2]
  note e1 = conjunct1 [OF d2] and e2 = conjunct2 [OF d2]
  note f1 = conjunct1 [OF e2] and f2 = conjunct2 [OF e2]
  show "storage_ok s" by (rule c1)
  show "distinct (map ID (allMsgs s))" by (rule d1)
  show "distinct (map ID (chan s ch))" using e1 by (rule spec)
  show "normalizeChannel (Channel m) = normalizeChannel (Channel m')"
    if "m \<in> set (copies s)" "m' \<in> set (copies s)" "ID m = ID m'"
    using bspec [OF bspec [OF f1 that(1)] that(2)] that(3) by simp
  show "ID m = ID m'"
    if "m \<in> set (copies s)" "m' \<in> set (copies s)" "Reactions m = Some r" "Reactions m' = Some r"
    using bspec [OF bspec [OF f1 that(1)] that(2)] that(3,4) by simp
  show "r < length (sto_heap s)" if "m \<in> set (copies s)" "Reactions m = Some r"
    using bspec [OF conjunct1 [OF f2] that(1)] that(2) by simp
  show "suffix (view s (filter (in_channel ch) (allMsgs s))) (view s (chan s ch))"
    using conjunct2 [OF f2] by (rule spec)
qed

lemma chan_channel:
  assumes "storage_ok s" and "m \<in> set (chan s ch)"
  shows "normalizeChannel (Channel m) = ch"
proof (cases "mget (messages s) ch")
  case (Some l)
  with assms list_all_get [of "list_ok (capacity s)" "messages s" ch l] show ?thesis
    by (simp add: storage_ok_def mget_or_def list_ok_def list_all_iff)
qed (use assms in \<open>simp add: mget_or_def\<close>)

lemma update_first_distinct:
  assumes "distinct (map ID xs)"
  shows "update_first (\<lambda>m. ID m = mid) f xs = map (on_id mid f) xs"
  using assms
proof (induction xs)
  case (Cons x xs)
  have "map (on_id mid f) xs = xs" if "mid \<notin> ID ` set xs"
    using that by (intro map_idI) (auto simp: on_id_def)
  with Cons show ?case by (cases "ID x = mid") (simp_all add: on_id_def [of mid f x])
qed simp

lemma delete_first_distinct:
  assumes "distinct (map ID xs)"
  shows "delete_first (\<lambda>m. ID m = mid) xs = filter (\<lambda>m. ID m \<noteq> mid) xs"
  using assms
proof (induction xs)
  case (Cons x xs)
  have "filter (\<lambda>m. ID m \<noteq> mid) xs = xs" if "mid \<notin> ID ` set xs"
    using that by (auto simp: filter_id_conv)
  with Cons show ?case by auto
qed simp

lemma chan_change: "mget_or [] (change_channel ch f m) c = (if c = ch \<and> mhas m ch then f (mget_or [] m ch) else mget_or [] m c)"
  by (auto simp: change_channel_def mget_or_def mhas_def split: option.split)

lemma view_filter: "view s (filter (in_channel ch) ms) = filter (in_channel ch) (view s ms)"
  by (induction ms) (simp_all add: view_def in_channel_def)

lemma map_ID_view: "map ID (view s ms) = map ID ms" "map Channel (view s ms) = map Channel ms"
  by (simp_all add: view_def comp_def)

lemma other_channel:
  assumes "coherent s" and "m \<in> set (allMsgs s)" and "x \<in> set (chan s c)" and "ID x = ID m"
  shows "c = normalizeChannel (Channel m)"
  using coherentD(4) [OF assms(1) chan_copies [OF assms(3)] all_copies [OF assms(2)] assms(4)]
    chan_channel [OF coherentD(1) [OF assms(1)] assms(3)] by simp

lemma chan_update:
  assumes "coherent s" and "m \<in> set (allMsgs s)" and "ID m = mid"
  shows "mget_or [] (change_channel (normalizeChannel (Channel m)) (update_first (\<lambda>m. ID m = mid) f) (messages s)) c
    = map (on_id mid f) (chan s c)"
proof -
  have "map (on_id mid f) (chan s c) = chan s c" if "c \<noteq> normalizeChannel (Channel m)"
    using that other_channel [OF assms(1,2)] assms(3) by (intro map_idI) (auto simp: on_id_def)
  moreover have "\<not> mhas (messages s) c \<Longrightarrow> chan s c = []"
    by (simp add: mhas_def mget_or_def)
  ultimately show ?thesis
    using update_first_distinct [OF coherentD(3) [OF assms(1)]] by (cases "c = normalizeChannel (Channel m)") (auto simp: chan_change)
qed

lemma chan_delete:
  assumes "coherent s" and "m \<in> set (allMsgs s)" and "ID m = mid"
  shows "mget_or [] (change_channel (normalizeChannel (Channel m)) (delete_first (\<lambda>m. ID m = mid)) (messages s)) c
    = filter (\<lambda>m. ID m \<noteq> mid) (chan s c)"
proof -
  have "filter (\<lambda>m. ID m \<noteq> mid) (chan s c) = chan s c" if "c \<noteq> normalizeChannel (Channel m)"
    using that other_channel [OF assms(1,2)] assms(3) by (auto simp: filter_id_conv)
  moreover have "\<not> mhas (messages s) c \<Longrightarrow> chan s c = []"
    by (simp add: mhas_def mget_or_def)
  ultimately show ?thesis
    using delete_first_distinct [OF coherentD(3) [OF assms(1)]] by (cases "c = normalizeChannel (Channel m)") (auto simp: chan_change)
qed

text \<open>
  Three ways of changing a coherent store keep it coherent: changing messages in place, deleting a
  message everywhere, adding a new one.
\<close>

definition heap_ok :: "storage \<Rightarrow> bool" where
  "heap_ok s =
     (list_all (\<lambda>m. list_all (\<lambda>m'. Reactions m \<noteq> None \<longrightarrow> Reactions m = Reactions m' \<longrightarrow> ID m = ID m') (copies s)) (copies s) \<and>
      list_all (\<lambda>m. case Reactions m of None \<Rightarrow> True | Some r \<Rightarrow> r < length (sto_heap s)) (copies s))"

lemma heap_okI:
  assumes "\<And>m m' r. m \<in> set (copies s) \<Longrightarrow> m' \<in> set (copies s) \<Longrightarrow> Reactions m = Some r \<Longrightarrow> Reactions m' = Some r \<Longrightarrow> ID m = ID m'"
    and "\<And>m r. m \<in> set (copies s) \<Longrightarrow> Reactions m = Some r \<Longrightarrow> r < length (sto_heap s)"
  shows "heap_ok s"
  unfolding heap_ok_def list_all_iff
proof (intro conjI ballI impI)
  show "ID m = ID m'" if "m \<in> set (copies s)" "m' \<in> set (copies s)" "Reactions m \<noteq> None" "Reactions m = Reactions m'" for m m'
    using assms(1) [OF that(1,2)] that(3,4) by auto
  show "case Reactions m of None \<Rightarrow> True | Some r \<Rightarrow> r < length (sto_heap s)" if "m \<in> set (copies s)" for m
    using assms(2) [OF that] by (simp split: option.split)
qed

lemma coherentI:
  assumes "storage_ok s" and "distinct (map ID (allMsgs s))" and "\<And>ch. distinct (map ID (chan s ch))"
    and "\<And>m m'. m \<in> set (copies s) \<Longrightarrow> m' \<in> set (copies s) \<Longrightarrow> ID m = ID m' \<Longrightarrow>
      normalizeChannel (Channel m) = normalizeChannel (Channel m')"
    and "heap_ok s"
    and "\<And>ch. suffix (filter (in_channel ch) (view s (allMsgs s))) (view s (chan s ch))"
  shows "coherent s"
proof -
  have "(ID m = ID m' \<longrightarrow> normalizeChannel (Channel m) = normalizeChannel (Channel m')) \<and>
        (Reactions m \<noteq> None \<longrightarrow> Reactions m = Reactions m' \<longrightarrow> ID m = ID m')"
    if "m \<in> set (copies s)" "m' \<in> set (copies s)" for m m'
    using assms(4) [OF that] assms(5) that unfolding heap_ok_def list_all_iff by blast
  moreover have "r < length (sto_heap s)" if "m \<in> set (copies s)" "Reactions m = Some r" for m r
  proof -
    have "case Reactions m of None \<Rightarrow> True | Some r \<Rightarrow> r < length (sto_heap s)"
      using assms(5) that(1) unfolding heap_ok_def list_all_iff by blast
    with that(2) show ?thesis by simp
  qed
  ultimately show ?thesis unfolding coherent_iff view_filter using assms(1,2,3,6) by blast
qed

lemma coherent_map:
  assumes "coherent s" and "storage_ok s'" and "heap_ok s'"
    and all: "view s' (allMsgs s') = map F (view s (allMsgs s))"
    and ch: "\<And>ch. view s' (chan s' ch) = map F (view s (chan s ch))"
    and F: "\<And>m. ID (F m) = ID m \<and> Channel (F m) = Channel m"
  shows "coherent s'"
proof (rule coherentI)
  have ids: "map ID ms' = map ID ms" "map Channel ms' = map Channel ms" if "view s' ms' = map F (view s ms)" for ms ms'
  proof -
    have F: "map ID (map F xs) = map ID xs" "map Channel (map F xs) = map Channel xs" for xs
      by (simp_all add: F comp_def)
    show "map ID ms' = map ID ms" "map Channel ms' = map Channel ms"
      using map_ID_view [of s' ms'] map_ID_view [of s ms] unfolding that F by simp_all
  qed
  show "distinct (map ID (allMsgs s'))" "distinct (map ID (chan s' c))" for c
    using coherentD(2,3) [OF assms(1)] ids all ch by metis+
  have source: "\<exists>n \<in> set ms. ID n = ID m \<and> Channel n = Channel m"
    if "view s' ms' = map F (view s ms)" and m: "m \<in> set ms'" for m ms ms'
  proof -
    obtain i where i: "i < length ms'" "m = ms' ! i" using m by (auto simp: in_set_conv_nth)
    have len: "length ms' = length ms" using ids(1) [OF that(1)] by (metis length_map)
    then have "ID (ms ! i) = ID m" "Channel (ms ! i) = Channel m"
      using i ids [OF that(1)] by (metis nth_map)+
    with i len show ?thesis by (metis nth_mem)
  qed
  have old: "\<exists>n \<in> set (copies s). ID n = ID m \<and> Channel n = Channel m" if "m \<in> set (copies s')" for m
  proof -
    have "m \<in> set (allMsgs s') \<or> (\<exists>ch. m \<in> set (chan s' ch))"
      using that assms(2) by (simp add: copies_iff storage_ok_def)
    then show ?thesis using source [OF all, of m] source [OF ch, of m] all_copies chan_copies by metis
  qed
  show "normalizeChannel (Channel m) = normalizeChannel (Channel m')"
    if "m \<in> set (copies s')" "m' \<in> set (copies s')" "ID m = ID m'" for m m'
    using old [OF that(1)] old [OF that(2)] that(3) coherentD(4) [OF assms(1)] by metis
  have "in_channel c (F m) = in_channel c m" for c m by (simp add: in_channel_def F)
  then have filter_F: "filter (in_channel c) (map F ms) = map F (filter (in_channel c) ms)" for c ms
    by (simp add: filter_map comp_def)
  show "suffix (filter (in_channel c) (view s' (allMsgs s'))) (view s' (chan s' c))" for c
    using map_mono_suffix [OF coherentD(7) [OF assms(1)], of F c] by (simp only: all ch view_filter filter_F)
qed (fact assms(2,3))+

lemma find_id:
  assumes "find (\<lambda>m. ID m = mid) ms = Some m"
  shows "m \<in> set ms" and "ID m = mid"
  using assms by (auto simp: find_Some_iff)

lemma spec_has_view: "spec_has mid (store_abs s) \<longleftrightarrow> find (\<lambda>m. ID m = mid) (allMsgs s) \<noteq> None"
  by (auto simp: spec_has_def store_abs_def view_def list_ex_iff find_None_iff)

lemma store_absI:
  assumes "view s' (allMsgs s') = map F (view s (allMsgs s))"
    and "\<And>ch. view s' (chan s' ch) = map F (view s (chan s ch))"
  shows "store_abs s' = \<lparr>sp_all = map F (sp_all (store_abs s)), sp_chan = (\<lambda>ch. map F (sp_chan (store_abs s) ch))\<rparr>"
  using assms by (simp add: store_abs_def)

lemma copies_upd:
  assumes "m \<in> set (copies s')" and "storage_ok s'"
    and all: "allMsgs s' = map g (allMsgs s)" and ch: "\<And>ch. chan s' ch = map h (chan s ch)"
  obtains n where "n \<in> set (copies s)" and "m = g n \<or> m = h n"
proof -
  consider "m \<in> set (allMsgs s')" | ch where "m \<in> set (chan s' ch)"
    using assms(1,2) copies_iff [of s' m] unfolding storage_ok_def by blast
  then show thesis
  proof cases
    case 1
    then obtain n where "n \<in> set (allMsgs s)" "m = g n" unfolding all by auto
    then show thesis by (intro that [of n] all_copies) simp_all
  next
    case (2 c)
    then obtain n where "n \<in> set (chan s c)" "m = h n" unfolding ch by auto
    then show thesis by (intro that [of n] chan_copies) simp_all
  qed
qed

lemma UpdateMessage_refines:
  assumes "coherent s"
  shows "(case UpdateMessage mid c s of (s', r) \<Rightarrow> (store_abs s', r)) = spec_change mid (edit c) (store_abs s) \<and>
    coherent (fst (UpdateMessage mid c s))"
proof (cases "find (\<lambda>m. ID m = mid) (allMsgs s)")
  case None
  then show ?thesis using assms spec_has_view [of mid s] by (simp add: UpdateMessage_def spec_change_def)
next
  case (Some m)
  note m = find_id [OF Some]
  let ?f = "\<lambda>m. m\<lparr>Content := c, Edited := True\<rparr>"
  define s' where "s' = fst (UpdateMessage mid c s)"
  have s': "allMsgs s' = map (on_id mid ?f) (allMsgs s)" "chan s' ch = map (on_id mid ?f) (chan s ch)"
    "sto_heap s' = sto_heap s" for ch
    using Some chan_update [OF assms m] update_first_distinct [OF coherentD(2) [OF assms]]
    by (simp_all add: s'_def UpdateMessage_def Let_def)
  have d: "deref h (on_id mid ?f n) = on_id mid (edit c) (deref h n)" for h n
    by (simp add: on_id_def deref_def edit_def with_reactions_def)
  then have v: "view s' (map (on_id mid ?f) ms) = map (on_id mid (edit c)) (view s ms)" for ms
    by (simp add: view_def s' comp_def)
  have ok: "storage_ok s'"
    using storage_ok_step [OF coherentD(1) [OF assms], of "UpdateOp mid c"] by (simp add: store_step_def s'_def)
  have copy: "\<exists>n \<in> set (copies s). ID n = ID x \<and> Reactions n = Reactions x" if x: "x \<in> set (copies s')" for x
  proof -
    obtain n where "n \<in> set (copies s)" "x = on_id mid ?f n" using copies_upd [OF x ok s'(1,2)] by auto
    then show ?thesis by (intro bexI [of _ n]) (simp_all add: on_id_def)
  qed
  have heap: "heap_ok s'"
  proof (rule heap_okI)
    show "ID x = ID x'"
      if "x \<in> set (copies s')" "x' \<in> set (copies s')" "Reactions x = Some r" "Reactions x' = Some r" for x x' r
      using copy [OF that(1)] copy [OF that(2)] that(3,4) coherentD(5) [OF assms] by metis
    show "r < length (sto_heap s')" if "x \<in> set (copies s')" "Reactions x = Some r" for x r
      using copy [OF that(1)] that(2) coherentD(6) [OF assms] s'(3) by metis
  qed
  have "coherent s'"
    by (rule coherent_map [OF assms ok heap, of "on_id mid (edit c)"]) (simp_all add: s' v on_id_def edit_def)
  moreover have "store_abs s' = fst (spec_change mid (edit c) (store_abs s))"
    using store_absI [of s' "on_id mid (edit c)" s] spec_has_view [of mid s] Some
    by (simp add: s' v spec_change_def)
  ultimately show ?thesis using Some spec_has_view [of mid s]
    by (simp add: s'_def UpdateMessage_def spec_change_def Let_def split: prod.splits)
qed

lemma ensure_reactions_props:
  assumes "ensure_reactions m H = (h, r)" and "\<And>q. Reactions m = Some q \<Longrightarrow> q < length H"
  shows "r < length h" and "h ! r = (case Reactions m of None \<Rightarrow> [] | Some q \<Rightarrow> H ! q)"
    and "length H \<le> length h" and "q < length H \<Longrightarrow> h ! q = H ! q"
    and "Reactions m = Some r \<and> h = H \<or> Reactions m = None \<and> r = length H"
  using assms by (auto simp: ensure_reactions_def nth_append split: option.splits)

lemma deref_set_Reactions: "deref H (m\<lparr>Reactions := Some r\<rparr>) = (deref h m)\<lparr>Reactions := Some (H ! r)\<rparr>"
  by (simp add: deref_def with_reactions_def)

lemma mput_same: "mget m k = Some v \<Longrightarrow> mput k v m = m"
  by (induction m) auto

lemma copy_contents:
  \<comment> \<open>the channel's copy of a message of the flat list has the same contents, and there is one\<close>
  assumes "coherent s" and "m \<in> set (allMsgs s)"
  shows "\<exists>mc \<in> set (chan s (normalizeChannel (Channel m))). deref (sto_heap s) mc = deref (sto_heap s) m"
    and "n \<in> set (chan s ch) \<Longrightarrow> ID n = ID m \<Longrightarrow> deref (sto_heap s) n = deref (sto_heap s) m"
proof -
  let ?c = "normalizeChannel (Channel m)"
  have "deref (sto_heap s) m \<in> set (view s (filter (in_channel ?c) (allMsgs s)))"
    using assms(2) by (simp add: view_def in_channel_def)
  moreover have "suffix (view s (filter (in_channel ?c) (allMsgs s))) (view s (chan s ?c))"
    by (rule coherentD(7) [OF assms(1)])
  ultimately have "deref (sto_heap s) m \<in> set (view s (chan s ?c))"
    using set_mono_suffix by blast
  then show ex: "\<exists>mc \<in> set (chan s ?c). deref (sto_heap s) mc = deref (sto_heap s) m" by (auto simp: view_def)
  assume n: "n \<in> set (chan s ch)" "ID n = ID m"
  then have ch: "ch = ?c" by (rule other_channel [OF assms])
  obtain mc where mc: "mc \<in> set (chan s ?c)" "deref (sto_heap s) mc = deref (sto_heap s) m" using ex by blast
  have "ID mc = ID n" using mc(2) n(2) by (metis deref_simps(2))
  then have "mc = n" using mc(1) n(1) ch coherentD(3) [OF assms(1), of ?c] by (auto simp: distinct_map inj_on_def)
  with mc(2) show "deref (sto_heap s) n = deref (sto_heap s) m" by simp
qed

lemma all_unique: "coherent s \<Longrightarrow> m \<in> set (allMsgs s) \<Longrightarrow> n \<in> set (allMsgs s) \<Longrightarrow> ID n = ID m \<Longrightarrow> n = m"
  using coherentD(2) by (auto simp: distinct_map inj_on_def)

text \<open>
  What a reaction does to the heap: the two copies' maps get the same new contents, whether the copies share
  a map, have one each, or had none; no other map changes.
\<close>

lemma reaction_heap:
  assumes s: "coherent s" and m: "m \<in> set (allMsgs s)" and mc: "mc \<in> set (chan s ch)" "ID mc = ID m"
    and e1: "ensure_reactions m (sto_heap s) = (h, r)"
    and new: "R' = mput emoji us (h ! r)"
    and e2: "ensure_reactions mc (h[r := R']) = (h2, rc)"
    and H: "H = h2[rc := mput emoji (mget_or [] (h2 ! r) emoji) (h2 ! rc)]"
  shows "H ! r = R' \<and> H ! rc = R' \<and> r < length H \<and> rc < length H \<and> length (sto_heap s) \<le> length H"
    and "q < length (sto_heap s) \<Longrightarrow> q \<noteq> r \<Longrightarrow> q \<noteq> rc \<Longrightarrow> H ! q = sto_heap s ! q"
    and "n \<in> set (copies s) \<Longrightarrow> Reactions n = Some q \<Longrightarrow> ID n \<noteq> ID m \<Longrightarrow> q \<noteq> r \<and> q \<noteq> rc"
proof -
  note vm = coherentD(6) [OF s all_copies [OF m]] and vc = coherentD(6) [OF s chan_copies [OF mc(1)]]
  note p1 = ensure_reactions_props [OF e1 vm]
  have vc': "q < length (h[r := R'])" if "Reactions mc = Some q" for q using vc [OF that] p1(3) by simp
  note p2 = ensure_reactions_props [OF e2 vc']
  have same: "map_option (\<lambda>q. sto_heap s ! q) (Reactions mc) = map_option (\<lambda>q. sto_heap s ! q) (Reactions m)"
    using copy_contents(2) [OF s m mc] by (metis deref_simps(7))
  have r: "h2 ! r = R'" using p1(1) p2(4) by simp
  have R': "mget R' emoji = Some us" by (simp add: new)
  have rc: "mput emoji us (h2 ! rc) = R'"
  proof (cases "rc = r")
    case True
    then show ?thesis using r R' mput_same by metis
  next
    case False
    have "h2 ! rc = h ! r"
    proof (cases "Reactions mc")
      case None
      then have "Reactions m = None" using same by simp
      with None p1(2) p2(2) show ?thesis by simp
    next
      case (Some q)
      then obtain q' where q': "Reactions m = Some q'" "sto_heap s ! q = sto_heap s ! q'"
        using same by (cases "Reactions m") auto
      have "q = rc" using p2(5) Some by auto
      with Some q' False p1 p2(2) vc show ?thesis by simp
    qed
    then show ?thesis by (simp add: new)
  qed
  have len: "length H = length h2" by (simp add: H)
  have "H ! r = R'" using r rc R' p2(1) by (cases "rc = r") (simp_all add: H mget_or_def)
  moreover have "H ! rc = R'" using r rc R' p2(1) by (simp add: H mget_or_def)
  moreover have "r < length h2" "length (sto_heap s) \<le> length h2" using p1(1,3) p2(3) by simp_all
  ultimately show "H ! r = R' \<and> H ! rc = R' \<and> r < length H \<and> rc < length H \<and> length (sto_heap s) \<le> length H"
    using p2(1) len by simp
  show "H ! q = sto_heap s ! q" if "q < length (sto_heap s)" "q \<noteq> r" "q \<noteq> rc"
    using that p1(3,4) p2(4) by (simp add: H)
  assume n: "n \<in> set (copies s)" "Reactions n = Some q" "ID n \<noteq> ID m"
  then have q: "q < length (sto_heap s)" using coherentD(6) [OF s] by blast
  have "q \<noteq> r" using p1(5) q n coherentD(5) [OF s n(1) all_copies [OF m] n(2)] by auto
  moreover have "q \<noteq> rc"
    using p2(5) q n p1(3) coherentD(5) [OF s n(1) chan_copies [OF mc(1)] n(2)] mc(2) by auto
  ultimately show "q \<noteq> r \<and> q \<noteq> rc" by blast
qed

lemma AddReaction_found:
  \<comment> \<open>the operation on a coherent store that has the message: the channel's copy is found, too\<close>
  assumes s: "coherent s" and find: "find (\<lambda>m. ID m = mid) (allMsgs s) = Some m"
    and e1: "ensure_reactions m (sto_heap s) = (h, r)" and new: "user \<notin> set (mget_or [] (h ! r) emoji)"
  obtains mc h2 rc H s' where
    "mc \<in> set (chan s (normalizeChannel (Channel m)))" "ID mc = mid"
    "ensure_reactions mc (h[r := mput emoji (mget_or [] (h ! r) emoji @ [user]) (h ! r)]) = (h2, rc)"
    "H = h2[rc := mput emoji (mget_or [] (h2 ! r) emoji) (h2 ! rc)]"
    "AddReaction mid emoji user s = (s', True)" "sto_heap s' = H"
    "allMsgs s' = map (on_id mid (\<lambda>m. m\<lparr>Reactions := Some r\<rparr>)) (allMsgs s)"
    "\<And>ch. chan s' ch = map (on_id mid (\<lambda>m. m\<lparr>Reactions := Some rc\<rparr>)) (chan s ch)"
proof -
  note m = find_id [OF find]
  obtain mc where mc: "find (\<lambda>m. ID m = mid) (chan s (normalizeChannel (Channel m))) = Some mc"
  proof (cases "find (\<lambda>m. ID m = mid) (chan s (normalizeChannel (Channel m)))")
    case None
    obtain n where "n \<in> set (chan s (normalizeChannel (Channel m)))" "deref (sto_heap s) n = deref (sto_heap s) m"
      using copy_contents(1) [OF s m(1)] by blast
    then have "ID n = mid" using m(2) by (metis deref_simps(2))
    with None \<open>n \<in> _\<close> show thesis by (auto simp: find_None_iff)
  qed (use that in blast)
  note mc' = find_id [OF mc]
  obtain h2 rc where e2: "ensure_reactions mc (h[r := mput emoji (mget_or [] (h ! r) emoji @ [user]) (h ! r)]) = (h2, rc)"
    by fastforce
  show thesis
  proof (rule that [OF mc' e2 refl])
    show "AddReaction mid emoji user s =
        (s\<lparr>allMsgs := set_address mid r (allMsgs s),
           sto_heap := h2[rc := mput emoji (mget_or [] (h2 ! r) emoji) (h2 ! rc)],
           messages := change_channel (normalizeChannel (Channel m)) (set_address mid rc) (messages s)\<rparr>, True)"
      using find e1 new mc e2 by (simp add: AddReaction_def Let_def)
  qed (simp_all add: set_address_def update_first_distinct coherentD(2) [OF s] chan_update [OF s m])
qed

lemma AddReaction_refines:
  assumes s: "coherent s"
  shows "(case AddReaction mid emoji user s of (s', r) \<Rightarrow> (store_abs s', r)) = spec_change mid (react emoji user) (store_abs s) \<and>
    coherent (fst (AddReaction mid emoji user s))"
proof (cases "find (\<lambda>m. ID m = mid) (allMsgs s)")
  case None
  then show ?thesis using s spec_has_view [of mid s] by (simp add: AddReaction_def spec_change_def)
next
  case (Some m)
  note m = find_id [OF Some]
  let ?F = "on_id mid (react emoji user)"
  have has: "spec_has mid (store_abs s)" using spec_has_view Some by simp
  obtain h r where e1: "ensure_reactions m (sto_heap s) = (h, r)" by fastforce
  note p1 = ensure_reactions_props [OF e1 coherentD(6) [OF s all_copies [OF m(1)]]]
  have R: "(case Reactions (deref (sto_heap s) m) of None \<Rightarrow> [] | Some R \<Rightarrow> R) = h ! r"
    using p1(2) by (simp split: option.split)
  show ?thesis
  proof (cases "user \<in> set (mget_or [] (h ! r) emoji)")
    case True
    have "h = sto_heap s" "Reactions m = Some r"
      using True p1(2,5) by (auto simp: mget_or_def split: option.splits)
    then have "m\<lparr>Reactions := Some r\<rparr> = m" by (cases m) simp
    then have "on_id mid (\<lambda>m. m\<lparr>Reactions := Some r\<rparr>) n = n" if "n \<in> set (allMsgs s)" for n
      using all_unique [OF s m(1) that] m(2) by (auto simp: on_id_def)
    then have "set_address mid r (allMsgs s) = allMsgs s"
      unfolding set_address_def update_first_distinct [OF coherentD(2) [OF s]] by (rule map_idI)
    then have same: "AddReaction mid emoji user s = (s, True)"
      using Some e1 True \<open>h = sto_heap s\<close> by (simp add: AddReaction_def Let_def)
    have "react emoji user (deref (sto_heap s) m) = deref (sto_heap s) m"
      using True R by (simp add: react_def Let_def)
    then have id: "?F (deref (sto_heap s) n) = deref (sto_heap s) n"
      if "n \<in> set (allMsgs s) \<or> (\<exists>ch. n \<in> set (chan s ch))" for n
      using that all_unique [OF s m(1)] copy_contents(2) [OF s m(1)] m(2) by (auto simp: on_id_def)
    have "map ?F (view s (allMsgs s)) = view s (allMsgs s)" "map ?F (view s (chan s ch)) = view s (chan s ch)" for ch
      using id by (auto simp: view_def)
    then show ?thesis using s same has by (simp add: spec_change_def store_abs_def)
  next
    case False
    obtain mc h2 rc H s' where mc: "mc \<in> set (chan s (normalizeChannel (Channel m)))" "ID mc = mid"
      and e2: "ensure_reactions mc (h[r := mput emoji (mget_or [] (h ! r) emoji @ [user]) (h ! r)]) = (h2, rc)"
      and H: "H = h2[rc := mput emoji (mget_or [] (h2 ! r) emoji) (h2 ! rc)]"
      and s': "AddReaction mid emoji user s = (s', True)" "sto_heap s' = H"
        "allMsgs s' = map (on_id mid (\<lambda>m. m\<lparr>Reactions := Some r\<rparr>)) (allMsgs s)"
        "\<And>ch. chan s' ch = map (on_id mid (\<lambda>m. m\<lparr>Reactions := Some rc\<rparr>)) (chan s ch)"
      using AddReaction_found [OF s Some e1 False] by metis
    define R' where "R' = mput emoji (mget_or [] (h ! r) emoji @ [user]) (h ! r)"
    note rh = reaction_heap [OF s m(1) mc(1) _ e1 R'_def e2 [folded R'_def] H, unfolded m(2), OF mc(2)]
    have react: "react emoji user (deref (sto_heap s) m) = (deref (sto_heap s) m)\<lparr>Reactions := Some R'\<rparr>"
      using False R by (simp add: react_def Let_def R'_def)
    have other: "deref H n = deref (sto_heap s) n" if "n \<in> set (copies s)" "ID n \<noteq> mid" for n
    proof (cases "Reactions n")
      case (Some q)
      with rh(2) [of q] rh(3) [OF that(1) Some that(2)] coherentD(6) [OF s that(1) Some] show ?thesis
        by (simp add: deref_def)
    qed (simp add: deref_def)
    have upd: "deref H (on_id mid (\<lambda>m. m\<lparr>Reactions := Some x\<rparr>) n) = ?F (deref (sto_heap s) n)"
      if x: "H ! x = R'" and n: "n \<in> set (allMsgs s) \<or> (\<exists>ch. n \<in> set (chan s ch))" for n x
    proof (cases "ID n = mid")
      case True
      then have "deref (sto_heap s) n = deref (sto_heap s) m"
        using n all_unique [OF s m(1)] copy_contents(2) [OF s m(1)] m(2) by auto
      with True x react m(2) show ?thesis by (simp add: on_id_def deref_set_Reactions [where h = "sto_heap s"])
    next
      case False
      then show ?thesis using other n all_copies chan_copies by (auto simp: on_id_def)
    qed
    have all: "view s' (allMsgs s') = map ?F (view s (allMsgs s))"
      using upd rh(1) by (simp add: s' view_def)
    have ch: "view s' (chan s' ch) = map ?F (view s (chan s ch))" for ch
      using upd rh(1) by (auto simp: s' view_def)
    have ok: "storage_ok s'"
      using storage_ok_step [OF coherentD(1) [OF s], of "ReactOp mid emoji user"] s'(1) by (simp add: store_step_def)
    have copy: "(ID x = mid \<and> (Reactions x = Some r \<or> Reactions x = Some rc)) \<or> (x \<in> set (copies s) \<and> ID x \<noteq> mid)"
      if x: "x \<in> set (copies s')" for x
    proof -
      obtain n where "n \<in> set (copies s)"
        "x = on_id mid (\<lambda>m. m\<lparr>Reactions := Some r\<rparr>) n \<or> x = on_id mid (\<lambda>m. m\<lparr>Reactions := Some rc\<rparr>) n"
        using copies_upd [OF x ok s'(3,4)] by blast
      then show ?thesis by (cases "ID n = mid") (auto simp: on_id_def)
    qed
    have "heap_ok s'"
    proof (rule heap_okI)
      show "ID x = ID x'"
        if "x \<in> set (copies s')" "x' \<in> set (copies s')" "Reactions x = Some q" "Reactions x' = Some q" for x x' q
      proof -
        have old: "q \<noteq> r \<and> q \<noteq> rc" if "y \<in> set (copies s')" "ID y \<noteq> mid" "Reactions y = Some q" for y
          using copy [OF that(1)] that(2) rh(3) [OF _ that(3,2)] by blast
        show ?thesis
          using copy [OF that(1)] copy [OF that(2)] old [OF that(1) _ that(3)] old [OF that(2) _ that(4)]
            coherentD(5) [OF s _ _ that(3,4)] that(3,4)
          by (cases "ID x = mid"; cases "ID x' = mid") auto
      qed
      show "q < length (sto_heap s')" if "x \<in> set (copies s')" "Reactions x = Some q" for x q
        using copy [OF that(1)] that(2) rh(1) coherentD(6) [OF s] s'(2) by fastforce
    qed
    then have "coherent s'"
      by (rule coherent_map [OF s ok _ all ch]) (simp add: on_id_def react_def Let_def)
    with s' has store_absI [OF all ch] show ?thesis by (simp add: spec_change_def)
  qed
qed

lemma DeleteMessage_refines:
  assumes s: "coherent s"
  shows "(case DeleteMessage mid s of (s', r) \<Rightarrow> (store_abs s', r)) = spec_delete mid (store_abs s) \<and>
    coherent (fst (DeleteMessage mid s))"
proof (cases "find (\<lambda>m. ID m = mid) (allMsgs s)")
  case None
  then show ?thesis using s spec_has_view [of mid s] by (simp add: DeleteMessage_def spec_delete_def)
next
  case (Some m)
  note m = find_id [OF Some]
  define s' where "s' = fst (DeleteMessage mid s)"
  have s': "DeleteMessage mid s = (s', True)" "allMsgs s' = filter (\<lambda>m. ID m \<noteq> mid) (allMsgs s)"
    "chan s' ch = filter (\<lambda>m. ID m \<noteq> mid) (chan s ch)" "sto_heap s' = sto_heap s" for ch
    using Some chan_delete [OF s m] delete_first_distinct [OF coherentD(2) [OF s]]
    by (simp_all add: s'_def DeleteMessage_def Let_def)
  have v: "view s' (filter (\<lambda>m. ID m \<noteq> mid) ms) = filter (\<lambda>m. ID m \<noteq> mid) (view s ms)" for ms
    by (simp add: view_def s'(4) filter_map comp_def)
  have ok: "storage_ok s'"
    using storage_ok_step [OF coherentD(1) [OF s], of "DeleteOp mid"] by (simp add: store_step_def s'_def)
  have copy: "x \<in> set (copies s)" if "x \<in> set (copies s')" for x
    using that ok coherentD(1) [OF s] by (auto simp: copies_iff storage_ok_def s')
  have "coherent s'"
  proof (rule coherentI [OF ok])
    show "distinct (map ID (allMsgs s'))" "distinct (map ID (chan s' ch))" for ch
      using coherentD(2,3) [OF s] by (simp_all add: s' distinct_map_filter)
    show "normalizeChannel (Channel x) = normalizeChannel (Channel x')"
      if "x \<in> set (copies s')" "x' \<in> set (copies s')" "ID x = ID x'" for x x'
      using coherentD(4) [OF s copy copy] that by blast
    show "heap_ok s'"
      using copy coherentD(5,6) [OF s] s'(4) by (intro heap_okI) (blast, metis)
    show "suffix (filter (in_channel ch) (view s' (allMsgs s'))) (view s' (chan s' ch))" for ch
    proof -
      have "filter (in_channel ch) (filter (\<lambda>m. ID m \<noteq> mid) ms) = filter (\<lambda>m. ID m \<noteq> mid) (filter (in_channel ch) ms)"
        for ms :: "wire_msg list"
        by (simp add: conj_commute)
      with suffix_filter [OF coherentD(7) [OF s, of ch], of "\<lambda>m. ID m \<noteq> mid"] show ?thesis
        by (simp only: s' v view_filter)
    qed
  qed
  moreover have "store_abs s' = fst (spec_delete mid (store_abs s))"
    using spec_has_view [of mid s] Some by (simp add: store_abs_def s' v spec_delete_def)
  ultimately show ?thesis using s' Some spec_has_view [of mid s] by (simp add: spec_delete_def)
qed

definition fresh_save :: "storage \<Rightarrow> save_env \<Rightarrow> wire_msg \<Rightarrow> bool" where
  "fresh_save s e msg = list_all (\<lambda>m. ID m \<noteq> ID (prepare_msg e msg)) (copies s)"

lemma trim_map: "map f (trim_capacity cap xs) = trim_capacity cap (map f xs)"
  by (simp add: trim_capacity_def map_tl)

lemma suffix_trim:
  assumes "suffix xs ys" and "int (length xs) \<le> cap"
  shows "suffix xs (trim_capacity cap ys)"
proof -
  have "suffix xs (tl ys)" if "length xs < length ys"
    using assms(1) that by (cases ys) (auto simp: suffix_Cons)
  with assms show ?thesis by (auto simp: trim_capacity_def)
qed

lemma suffix_trim_left: "suffix (trim_capacity cap xs) xs"
  by (simp add: trim_capacity_def suffix_tl)

lemma Save_refines:
  assumes s: "coherent s" and fresh: "fresh_save s e msg"
  shows "store_abs (fst (Save e msg s)) =
      (if MaxMessageSize < length (Content msg) then store_abs s
       else spec_save (capacity s) (prepare_msg e msg) (store_abs s)) \<and>
    coherent (fst (Save e msg s))"
proof (cases "MaxMessageSize < length (Content msg)")
  case True
  then show ?thesis using s by (simp add: Save_def Let_def)
next
  case False
  define w where "w = prepare_msg e msg"
  define c where "c = Channel w"
  define s' where "s' = fst (Save e msg s)"
  let ?t = "trim_capacity (capacity s)"
  obtain h n where alloc: "alloc w (sto_heap s) = (h, n)" by fastforce
  have c: "c = normalizeChannel (Channel msg)" "normalizeChannel c = c" by (simp_all add: c_def w_def)
  have n: "ID n = ID w" "Channel n = c" using alloc_simps [OF alloc] by (simp_all add: c_def)
  have derefs: "deref h n = w" "length (sto_heap s) \<le> length h"
    and keep: "\<And>r. r < length (sto_heap s) \<Longrightarrow> h ! r = sto_heap s ! r"
    and n_addr: "\<And>r. Reactions n = Some r \<Longrightarrow> r = length (sto_heap s) \<and> r < length h"
    using alloc by (auto simp: alloc_def deref_def with_reactions_def nth_append split: option.splits)
  have deref_old: "deref h x = deref (sto_heap s) x" if "x \<in> set (copies s)" for x
    using keep coherentD(6) [OF s that] by (cases "Reactions x") (simp_all add: deref_def)
  have map_old: "map (deref h) ms = map (deref (sto_heap s)) ms" if "set ms \<subseteq> set (copies s)" for ms
    using that deref_old by auto
  have s': "allMsgs s' = ?t (allMsgs s @ [n])" "sto_heap s' = h" "capacity s' = capacity s"
    "chan s' ch = (if ch = c then ?t (chan s c @ [n]) else chan s ch)" for ch
    using False alloc by (simp_all add: s'_def Save_def Let_def c_def w_def split: prod.splits)
  have ok: "storage_ok s'"
    using storage_ok_step [OF coherentD(1) [OF s], of "SaveOp e msg"] by (simp add: store_step_def s'_def)
  have copy: "x = n \<or> x \<in> set (copies s)" if "x \<in> set (copies s')" for x
  proof -
    have "x \<in> set (allMsgs s') \<or> (\<exists>ch. x \<in> set (chan s' ch))"
      using that ok copies_iff [of s' x] unfolding storage_ok_def by blast
    then have "x = n \<or> x \<in> set (allMsgs s) \<or> (\<exists>ch. x \<in> set (chan s ch))"
      using set_trim [of "capacity s" "allMsgs s @ [n]"] set_trim [of "capacity s" "chan s c @ [n]"]
      by (auto simp: s' split: if_splits)
    then show ?thesis using all_copies chan_copies by blast
  qed
  have new: "ID x \<noteq> ID n" if "x \<in> set (copies s)" for x
    using fresh that n by (simp add: fresh_save_def list_all_iff w_def)
  have v: "view s' (?t (allMsgs s @ [n])) = ?t (view s (allMsgs s) @ [w])"
    "view s' (?t (chan s ch @ [n])) = ?t (view s (chan s ch) @ [w])"
    "view s' (chan s ch) = view s (chan s ch)" for ch
  proof -
    have old: "map (deref h) (allMsgs s) = map (deref (sto_heap s)) (allMsgs s)"
      "map (deref h) (chan s ch) = map (deref (sto_heap s)) (chan s ch)"
      using all_copies chan_copies by (blast intro: map_old)+
    show "view s' (?t (allMsgs s @ [n])) = ?t (view s (allMsgs s) @ [w])"
      "view s' (?t (chan s ch @ [n])) = ?t (view s (chan s ch) @ [w])"
      "view s' (chan s ch) = view s (chan s ch)"
      by (simp_all only: view_def trim_map s' map_append list.map old derefs(1))
  qed
  have trim_distinct: "distinct (map ID (?t (ms @ [n])))" if "distinct (map ID ms)" "set ms \<subseteq> set (copies s)" for ms
  proof -
    have "ID n \<notin> ID ` set ms" using that(2) new by force
    then have "distinct (map ID (ms @ [n]))" using that(1) by simp
    then show ?thesis by (simp add: trim_capacity_def map_tl distinct_tl)
  qed
  have "coherent s'"
  proof (rule coherentI [OF ok])
    show "distinct (map ID (allMsgs s'))" "distinct (map ID (chan s' ch))" for ch
      using trim_distinct coherentD(2,3) [OF s] all_copies chan_copies by (auto simp: s' subset_iff)
    show "normalizeChannel (Channel x) = normalizeChannel (Channel x')"
      if "x \<in> set (copies s')" "x' \<in> set (copies s')" "ID x = ID x'" for x x'
      using copy [OF that(1)] copy [OF that(2)] that(3) new coherentD(4) [OF s] by metis
    show "heap_ok s'"
    proof (rule heap_okI)
      show "ID x = ID x'"
        if "x \<in> set (copies s')" "x' \<in> set (copies s')" "Reactions x = Some q" "Reactions x' = Some q" for x x' q
        using copy [OF that(1)] copy [OF that(2)] that(3,4) n_addr coherentD(5,6) [OF s] by (metis less_irrefl)
      show "q < length (sto_heap s')" if "x \<in> set (copies s')" "Reactions x = Some q" for x q
        using copy [OF that(1)] that(2) n_addr coherentD(6) [OF s] derefs(2) s'(2) by fastforce
    qed
    fix ch
    let ?A = "filter (in_channel ch) (view s (allMsgs s) @ [w])"
    have w_in: "in_channel ch w = (ch = c)" using c by (auto simp: in_channel_def c_def w_def)
    have all: "suffix (filter (in_channel ch) (?t (view s (allMsgs s) @ [w]))) ?A"
      by (intro suffix_filter suffix_trim_left)
    have len: "int (length (filter (in_channel ch) (?t (view s (allMsgs s) @ [w])))) \<le> capacity s"
    proof -
      have "int (length (?t (view s (allMsgs s) @ [w]))) \<le> capacity s"
        using trim_capacity_le [of "view s (allMsgs s)" "capacity s" w] coherentD(1) [OF s]
        by (simp add: storage_ok_def view_def)
      then show ?thesis by (meson length_filter_le of_nat_mono order_trans)
    qed
    have old: "suffix (filter (in_channel ch) (view s (allMsgs s))) (view s (chan s ch))"
      using coherentD(7) [OF s, of ch] by (simp only: view_filter)
    have "suffix ?A (if ch = c then view s (chan s c) @ [w] else view s (chan s ch))"
      using old w_in by auto
    from suffix_trim [OF suffix_order.trans [OF all this] len] suffix_order.trans [OF all this]
    show "suffix (filter (in_channel ch) (view s' (allMsgs s'))) (view s' (chan s' ch))"
      by (simp only: s' v) (simp add: v split: if_splits)
  qed
  moreover have "store_abs s' = spec_save (capacity s) w (store_abs s)"
    by (auto simp: store_abs_def spec_save_def s' v c_def [symmetric] fun_eq_iff)
  ultimately show ?thesis using False by (simp add: s'_def w_def)
qed

fun spec_call :: "int \<Rightarrow> store_op \<Rightarrow> spec_store \<Rightarrow> spec_store \<times> bool option" where
  \<comment> \<open>the new contents, and the answer where it does not depend on the disk\<close>
  "spec_call cap (SaveOp e m) A =
     (if MaxMessageSize < length (Content m) then (A, Some False) else (spec_save cap (prepare_msg e m) A, None))"
| "spec_call cap (UpdateOp mid c) A = map_prod id Some (spec_change mid (edit c) A)"
| "spec_call cap (DeleteOp mid) A = map_prod id Some (spec_delete mid A)"
| "spec_call cap (ReactOp mid em u) A = map_prod id Some (spec_change mid (react em u) A)"
| "spec_call cap _ A = (A, None)"

fun op_fresh :: "storage \<Rightarrow> store_op \<Rightarrow> bool" where
  \<comment> \<open>a new message's identifier is new; loading replaces the contents and is treated below\<close>
  "op_fresh s (SaveOp e m) = fresh_save s e m"
| "op_fresh s (LoadOp ok dir p) = False"
| "op_fresh s _ = True"

lemma pair_caseD: "(case x of (s, r) \<Rightarrow> (f s, r)) = y \<Longrightarrow> f (fst x) = fst y \<and> snd x = snd y"
  by (cases x) auto

lemma store_same:
  assumes "allMsgs s' = allMsgs s" "messages s' = messages s" "sto_heap s' = sto_heap s" "capacity s' = capacity s"
  shows "store_abs s' = store_abs s" and "coherent s' = coherent s"
  by (simp_all only: store_abs_def view_def coherent_def storage_ok_def copies_def assms)

text \<open>
  C4. The store implements its specification. In a coherent store (identifiers are unique and the two
  copies of each message agree) every operation but loading, with whatever faults of the disk, does to the
  contents what the abstract operation does: an edit, a deletion or a reaction reaches both copies, also
  where they share their map of reactions, exactly if the message is in the flat list, and no other
  message; saving appends and drops the oldest beyond the capacity. The store stays coherent, as long
  as new messages have new identifiers.
\<close>

theorem store_refines_spec:
  assumes "coherent s" and "op_fresh s op"
  shows "store_abs (store_step op s) = fst (spec_call (capacity s) op (store_abs s)) \<and>
    (case snd (spec_call (capacity s) op (store_abs s)) of None \<Rightarrow> True | Some r \<Rightarrow> snd (store_call op s) = r) \<and>
    coherent (store_step op s)"
proof (cases op)
  case (SaveOp e m)
  then show ?thesis using Save_refines [OF assms(1), of e m] assms(2)
    by (simp add: store_step_def) (simp add: Save_def Let_def)
next
  case (UpdateOp mid c)
  then show ?thesis using UpdateMessage_refines [OF assms(1), of mid c, THEN conjunct2]
      pair_caseD [OF UpdateMessage_refines [OF assms(1), of mid c, THEN conjunct1]] by (simp add: store_step_def)
next
  case (DeleteOp mid)
  then show ?thesis using DeleteMessage_refines [OF assms(1), of mid, THEN conjunct2]
      pair_caseD [OF DeleteMessage_refines [OF assms(1), of mid, THEN conjunct1]] by (simp add: store_step_def)
next
  case (ReactOp mid em u)
  then show ?thesis using AddReaction_refines [OF assms(1), of mid em u, THEN conjunct2]
      pair_caseD [OF AddReaction_refines [OF assms(1), of mid em u, THEN conjunct1]] by (simp add: store_step_def)
next
  case (CompactOp e dir p)
  have "allMsgs (store_step op s) = allMsgs s" "messages (store_step op s) = messages s"
    "sto_heap (store_step op s) = sto_heap s" "capacity (store_step op s) = capacity s"
    by (auto simp: CompactOp store_step_def CompactAOF_def Let_def split: option.split)
  from store_same [OF this] assms CompactOp show ?thesis by simp
next
  case CloseOp
  have "allMsgs (store_step op s) = allMsgs s" "messages (store_step op s) = messages s"
    "sto_heap (store_step op s) = sto_heap s" "capacity (store_step op s) = capacity s"
    by (simp_all add: CloseOp store_step_def Storage_Close_def)
  from store_same [OF this] assms CloseOp show ?thesis by simp
qed (use assms in simp)

definition test_store :: "int \<Rightarrow> storage" where
  \<comment> \<open>a new store on an empty disk, for the witnesses\<close>
  "test_store cap =
     \<lparr>messages = [], allMsgs = [], capacity = cap, sto_heap = [], aofFile = OpenFile (aof_name ''.'' 8000),
      sto_disk = [(aof_name ''.'' 8000, empty_file)]\<rparr>"

lemma test_store_new: "0 \<le> cap \<Longrightarrow> NewStorage cap ''.'' 8000 True [] = Ret (Some (test_store cap))"
  by (simp add: NewStorage_def test_store_def mhas_def Let_def)

lemma coherent_test: "0 \<le> cap \<Longrightarrow> coherent (test_store cap)"
  by (simp add: coherent_def storage_ok_def test_store_def copies_def view_def mget_or_def)

definition plain_save :: save_env where
  "plain_save = \<lparr>sv_rnd = Some ''12345678'', sv_now = zero_time, sv_write = Written\<rparr>"

definition chat :: "string \<Rightarrow> string \<Rightarrow> string \<Rightarrow> wire_msg" where
  "chat mid user text = no_message\<lparr>ID := mid, Sender := user, Content := text\<rparr>"

theorem store_bounded_witness:
  "let s = fold store_step (replicate 3 (SaveOp plain_save (chat ''a'' ''ann'' ''hi''))) (test_store 2)
   in int (length (allMsgs s)) \<le> 2 \<and>
      list_all (\<lambda>(ch, l). int (length l) \<le> 2 \<and> list_all (\<lambda>m. normalizeChannel (Channel m) = ch) l) (messages s)"
  using store_bounded [OF test_store_new [OF zero_le_numeral]] unfolding Let_def .

theorem store_refines_spec_witness:
  "let s = store_step (SaveOp plain_save (chat ''a'' ''ann'' ''hi'')) (test_store 2);
       s' = store_step (ReactOp ''a'' ''+1'' ''bob'') s
   in store_abs s' = fst (spec_call 2 (ReactOp ''a'' ''+1'' ''bob'') (store_abs s)) \<and> coherent s'"
proof -
  let ?s = "store_step (SaveOp plain_save (chat ''a'' ''ann'' ''hi'')) (test_store 2)"
  have "op_fresh (test_store 2) (SaveOp plain_save (chat ''a'' ''ann'' ''hi''))"
    by (simp add: fresh_save_def copies_def test_store_def)
  from store_refines_spec [OF coherent_test this] have s: "coherent ?s" by simp
  have "capacity ?s = 2"
    by (simp add: store_step_def Save_def test_store_def Let_def split: prod.split)
  with store_refines_spec [OF s, of "ReactOp ''a'' ''+1'' ''bob''"] show ?thesis by (simp add: Let_def)
qed

end
