(* ===== verification/StoreDisk.thy ===== *)
theory StoreDisk
  imports StoreSpec
begin

text \<open>
  What is read from the message store and what its append-only file keeps: pages of a channel's history,
  searches, the round trip through the file, compaction, and what a restart loses or brings back.
\<close>

section \<open>Pages\<close>

lemma chan_view_length: "length (view s ms) = length ms"
  by (simp add: view_def)

lemma view_take_drop: "view s (take n (drop k ms)) = take n (drop k (view s ms))"
  by (simp add: view_def take_map drop_map)

lemma view_take: "view s (take n ms) = take n (view s ms)"
  by (simp add: view_def take_map)

lemma view_drop: "view s (drop n ms) = drop n (view s ms)"
  by (simp add: view_def drop_map)

lemma page:
  assumes "int (length (chan s (normalizeChannel ch))) < 2 ^ 62" and "limit + offset < 2 ^ 62"
  shows "GetChannelMessages ch (int limit) (int offset) s =
    (let V = view s (chan s (normalizeChannel ch)) in
     Ret (take_last limit (take (length V - offset) V), int (length V)))"
proof -
  let ?l = "chan s (normalizeChannel ch)"
  let ?n = "length ?l"
  have w: "wrap64 (int ?n - int offset - int limit) = int ?n - int offset - int limit"
    "wrap64 (int ?n - int offset) = int ?n - int offset" "wrap64 (int limit) = int limit"
    using assms by (simp_all add: in_int64_def)
  consider "?l = []" | "?l \<noteq> []" "?n < offset" | "?l \<noteq> []" "offset \<le> ?n" by linarith
  then show ?thesis
  proof cases
    case 1
    then show ?thesis by (simp add: GetChannelMessages_def view_def take_last_def)
  next
    case 2
    then show ?thesis using w by (simp add: GetChannelMessages_def Let_def chan_view_length take_last_def)
  next
    case 3
    define e where "e = ?n - offset"
    have e: "int ?n - int offset = int e" "e \<le> ?n" using 3 by (simp_all add: e_def)
    have we: "wrap64 (int e) = int e" using assms e by (simp add: in_int64_def)
    note w' = w [unfolded e]
    show ?thesis
    proof (cases "e < limit")
      case True
      then show ?thesis using 3(1) w' we e
        by (simp add: GetChannelMessages_def Let_def chan_view_length view_take view_drop take_last_def flip: e_def)
    next
      case False
      then have "nat (int e - int limit) = e - limit" by simp
      with False show ?thesis using 3(1) w' we e
        by (simp add: GetChannelMessages_def Let_def chan_view_length view_take view_drop take_last_def drop_take flip: e_def del: diff_diff_left)
    qed
  qed
qed

definition pages :: "storage \<Rightarrow> string \<Rightarrow> nat \<Rightarrow> nat \<Rightarrow> wire_msg list" where
  \<comment> \<open>the pages \<open>n-1\<close>, ..., 0 of size \<open>k\<close>, one after another\<close>
  "pages s ch k n =
     concat (map (\<lambda>i. case GetChannelMessages ch (int k) (int (i * k)) s of Ret (ms, _) \<Rightarrow> ms | _ \<Rightarrow> []) (rev [0..<n]))"

lemma take_last_pages: "concat (map (\<lambda>i. take_last k (take (length V - i * k) V)) (rev [0..<n])) = take_last (n * k) V"
proof (induction n)
  case 0
  then show ?case by (simp add: take_last_def)
next
  case (Suc n)
  have "take_last k (take (length V - n * k) V) @ take_last (n * k) V = take_last (k + n * k) V"
  proof (cases "n * k \<le> length V")
    case True
    define u where "u = take (length V - n * k) V"
    define w where "w = drop (length V - n * k) V"
    have V: "V = u @ w" by (simp add: u_def w_def)
    have w: "length w = n * k" using True by (simp add: w_def)
    have "take_last (n * k) V = w" by (simp add: take_last_def w_def)
    moreover have "take_last (k + n * k) V = take_last k u @ w"
      using w by (cases "k \<le> length u") (simp_all add: take_last_def V drop_append)
    ultimately show ?thesis by (simp add: u_def)
  qed (simp add: take_last_def)
  with Suc show ?case by simp
qed

text \<open>
  C27. A page of history: for any limit and offset that are not negative, \<open>GetChannelMessages\<close> returns, in
  order, the last \<open>limit\<close> messages of the channel after skipping the \<open>offset\<close> newest, and the total; it does not
  panic, also where the offset is beyond the start. Putting the first \<open>n\<close> pages of size \<open>k\<close> together, oldest page
  first, gives the last \<open>n * k\<close> messages: none is skipped and none comes twice.
\<close>

theorem pages_partition_history:
  assumes "int (length (chan s (normalizeChannel ch))) < 2 ^ 62" and "limit + offset < 2 ^ 62"
    and "k + n * k < 2 ^ 62"
  shows "GetChannelMessages ch (int limit) (int offset) s =
      (let V = view s (chan s (normalizeChannel ch)) in
       Ret (take_last limit (take (length V - offset) V), int (length V))) \<and>
    pages s ch k n = take_last (n * k) (view s (chan s (normalizeChannel ch)))"
proof
  let ?V = "view s (chan s (normalizeChannel ch))"
  have "(case GetChannelMessages ch (int k) (int (i * k)) s of Ret (ms, _) \<Rightarrow> ms | _ \<Rightarrow> [])
      = take_last k (take (length ?V - i * k) ?V)" if "i < n" for i
  proof -
    have "i * k \<le> n * k" using that by simp
    then have "k + i * k < 2 ^ 62" using assms(3) by linarith
    from page [OF assms(1) this] show ?thesis by (simp add: Let_def)
  qed
  then have "pages s ch k n = concat (map (\<lambda>i. take_last k (take (length ?V - i * k) ?V)) (rev [0..<n]))"
    unfolding pages_def by (intro arg_cong [where f = concat] map_cong) simp_all
  then show "pages s ch k n = take_last (n * k) ?V" by (simp only: take_last_pages)
qed (rule page [OF assms(1,2)])

lemma negative_limit:
  assumes "chan s (normalizeChannel ch) \<noteq> []" and "int (length (chan s (normalizeChannel ch))) < 2 ^ 62"
    and "- (2 ^ 62) < limit" and "limit < 0" and "0 \<le> offset"
    and "offset \<le> int (length (chan s (normalizeChannel ch)))"
  shows "GetChannelMessages ch limit offset s = Panic"
proof -
  let ?n = "int (length (chan s (normalizeChannel ch)))"
  have w: "wrap64 (?n - offset - limit) = ?n - offset - limit" "wrap64 (?n - offset) = ?n - offset"
    "wrap64 limit = limit"
    using assms by (simp_all add: in_int64_def)
  then show ?thesis using assms by (simp add: GetChannelMessages_def Let_def)
qed

definition history_store :: storage where
  \<comment> \<open>a store with five messages in one channel, for the witnesses\<close>
  "history_store =
     fold store_step (map (\<lambda>i. SaveOp plain_save (chat i ''ann'' ''hi'')) [''a'', ''b'', ''c'', ''d'', ''e'']) (test_store 9)"

lemma Save_step_chan:
  assumes "length (Content m) \<le> MaxMessageSize"
  shows "map ID (chan (store_step (SaveOp e m) s) c) =
      (if c = normalizeChannel (Channel m)
       then trim_capacity (capacity s) (map ID (chan s c) @ [ID (prepare_msg e m)]) else map ID (chan s c))"
    and "capacity (store_step (SaveOp e m) s) = capacity s"
  using assms alloc_simps [of "prepare_msg e m" "sto_heap s"]
  by (auto simp: store_step_def Save_def Let_def trim_map split: prod.split)

lemma chat_simps [simp]:
  "ID (chat i u t) = i" "Sender (chat i u t) = u" "Content (chat i u t) = t" "Channel (chat i u t) = []"
  "Reactions (chat i u t) = None"
  by (simp_all add: chat_def)

lemma test_store_simps [simp]:
  "capacity (test_store cap) = cap" "mget_or [] (messages (test_store cap)) c = []" "allMsgs (test_store cap) = []"
  by (simp_all add: test_store_def mget_or_def)

lemma history_chan:
  "map ID (chan history_store ''general'') = [''a'', ''b'', ''c'', ''d'', ''e'']"
  by (simp add: history_store_def Save_step_chan MaxMessageSize_def normalizeChannel_def trim_capacity_def
      prepare_msg_def Let_def)

lemma history_length: "length (chan history_store ''general'') = 5"
  using arg_cong [OF history_chan, of length] by simp

theorem pages_partition_history_witness:
  "let V = view history_store (chan history_store ''general'')
   in GetChannelMessages ''general'' 2 1 history_store = Ret (take_last 2 (take 4 V), 5) \<and>
      pages history_store ''general'' 2 3 = V"
proof -
  have g: "normalizeChannel ''general'' = ''general''" by (simp add: normalizeChannel_def)
  show ?thesis
    using pages_partition_history [of history_store "''general''" 2 1 2 3]
    by (simp add: g history_length chan_view_length Let_def)
qed

text \<open>
  Search: \<open>SearchMessages\<close> returns, in order, exactly the last hundred messages of the flat list whose
  content contains the query when case is ignored; every result matches.
\<close>

theorem SearchMessages_spec:
  "SearchMessages ulower query s =
     take_last 100 (filter (\<lambda>m. \<exists>u v. ToLower ulower (Content m) = u @ ToLower ulower query @ v) (sp_all (store_abs s)))"
  by (simp add: SearchMessages_def store_abs_def take_last_def Contains_iff Let_def)

section \<open>The append-only file\<close>

lemma scan_lines_snoc:
  assumes "scan_lines ls = (ms, True)"
  shows "scan_lines (ls @ [l]) =
    (if max_token \<le> line_size l then (ms, False)
     else (ms @ (case l of Line m n \<Rightarrow> [m] | Corrupt n \<Rightarrow> []), True))"
  using assms
proof (induction ls arbitrary: ms)
  case (Cons k ls)
  then show ?case by (auto split: if_splits prod.splits aof_line.splits)
qed (simp split: aof_line.split)

lemma scan_lines_stops:
  assumes "scan_lines ls = (ms, False)"
  shows "scan_lines (ls @ ls') = (ms, False)"
  using assms by (induction ls arbitrary: ms) (auto split: if_splits prod.splits)

lemma trim_take_last:
  assumes "0 \<le> cap"
  shows "trim_capacity cap (take_last (nat cap) L @ [m]) = take_last (nat cap) (L @ [m])"
proof (cases "nat cap")
  case 0
  then show ?thesis using assms by (simp add: trim_capacity_def take_last_def)
next
  case (Suc k)
  show ?thesis
  proof (cases "nat cap \<le> length L")
    case True
    have "tl (take_last (Suc k) L) = take_last k L"
      using True Suc by (simp add: take_last_def tl_drop drop_Suc Suc_diff_Suc flip: drop_Suc)
    with True Suc assms show ?thesis
      by (cases "take_last (Suc k) L") (auto simp: trim_capacity_def take_last_snoc min_def
          dest!: arg_cong [where f = length])
  next
    case False
    then have "int (length L) < cap" using assms by linarith
    then show ?thesis by (simp add: trim_capacity_def)
  qed
qed

definition addresses_ok :: "storage \<Rightarrow> bool" where
  "addresses_ok s =
     list_all (\<lambda>m. case Reactions m of None \<Rightarrow> True | Some r \<Rightarrow> r < length (sto_heap s)) (allMsgs s)"

definition logged :: "string \<Rightarrow> wire_msg list \<Rightarrow> storage \<Rightarrow> bool" where
  \<comment> \<open>the file of the open handle holds the messages \<open>L\<close>, the memory the last of them\<close>
  "logged name L s =
     (0 \<le> capacity s \<and> addresses_ok s \<and> aofFile s = OpenFile name \<and>
      (case mget (sto_disk s) name of
         None \<Rightarrow> False
       | Some f \<Rightarrow> fragment f = None \<and> scan_lines (lines f) = (L, True)) \<and>
      view s (allMsgs s) = take_last (nat (capacity s)) L)"

definition clean_save :: "save_env \<times> wire_msg \<Rightarrow> bool" where
  \<comment> \<open>a message of legal size that encoding does not change, a line that fits the scanner's buffer, a disk that works\<close>
  "clean_save x = (case x of (e, m) \<Rightarrow>
     sv_write e = Written \<and> length (Content m) \<le> MaxMessageSize \<and>
     transmit (prepare_msg e m) = Some (prepare_msg e m) \<and> json_size (prepare_msg e m) < max_token)"

definition run_saves :: "(save_env \<times> wire_msg) list \<Rightarrow> storage \<Rightarrow> storage" where
  "run_saves = fold (\<lambda>(e, m) s. fst (Save e m s))"

lemma Save_view:
  \<comment> \<open>what saving does to the flat list and the disk\<close>
  assumes "addresses_ok s" and "length (Content m) \<le> MaxMessageSize"
  shows "view (fst (Save e m s)) (allMsgs (fst (Save e m s))) =
      trim_capacity (capacity s) (view s (allMsgs s) @ [prepare_msg e m])"
    and "addresses_ok (fst (Save e m s))"
    and "sto_disk (fst (Save e m s)) = fst (snd (write_line (sv_write e) (prepare_msg e m) (aofFile s) (sto_disk s)))"
    and "snd (Save e m s) = snd (snd (write_line (sv_write e) (prepare_msg e m) (aofFile s) (sto_disk s)))"
    and "aofFile (fst (Save e m s)) = fst (write_line (sv_write e) (prepare_msg e m) (aofFile s) (sto_disk s))" "capacity (fst (Save e m s)) = capacity s"
proof -
  obtain h n where alloc: "alloc (prepare_msg e m) (sto_heap s) = (h, n)" by fastforce
  have n: "deref h n = prepare_msg e m" "case Reactions n of None \<Rightarrow> True | Some r \<Rightarrow> r < length h"
    and keep: "length (sto_heap s) \<le> length h" "\<And>r. r < length (sto_heap s) \<Longrightarrow> h ! r = sto_heap s ! r"
    using alloc by (auto simp: alloc_def deref_def with_reactions_def nth_append split: option.splits)
  have old: "deref h x = deref (sto_heap s) x \<and> (case Reactions x of None \<Rightarrow> True | Some r \<Rightarrow> r < length h)"
    if "x \<in> set (allMsgs s)" for x
    using that assms(1) keep
    by (cases "Reactions x") (force simp: addresses_ok_def list_all_iff deref_def)+
  have s': "allMsgs (fst (Save e m s)) = trim_capacity (capacity s) (allMsgs s @ [n])"
    "sto_heap (fst (Save e m s)) = h"
    using assms(2) alloc by (auto simp: Save_def Let_def split: prod.splits)
  have "map (deref h) (allMsgs s) = map (deref (sto_heap s)) (allMsgs s)" using old by simp
  then show "view (fst (Save e m s)) (allMsgs (fst (Save e m s))) =
      trim_capacity (capacity s) (view s (allMsgs s) @ [prepare_msg e m])"
    by (simp only: view_def s' trim_map map_append list.map n(1))
  show "addresses_ok (fst (Save e m s))"
    unfolding addresses_ok_def s' list_all_iff
    using set_trim [of "capacity s" "allMsgs s @ [n]"] old n(2) by auto
  show "sto_disk (fst (Save e m s)) = fst (snd (write_line (sv_write e) (prepare_msg e m) (aofFile s) (sto_disk s)))"
    "snd (Save e m s) = snd (snd (write_line (sv_write e) (prepare_msg e m) (aofFile s) (sto_disk s)))"
    "aofFile (fst (Save e m s)) = fst (write_line (sv_write e) (prepare_msg e m) (aofFile s) (sto_disk s))" "capacity (fst (Save e m s)) = capacity s"
    using assms(2) by (auto simp: Save_def Let_def split: prod.split)
qed

lemma logged_Save:
  assumes "logged name L s" and "clean_save (e, m)"
  shows "logged name (L @ [prepare_msg e m]) (fst (Save e m s)) \<and> snd (Save e m s)"
proof -
  obtain f where f: "mget (sto_disk s) name = Some f" "fragment f = None" "scan_lines (lines f) = (L, True)"
    using assms(1) by (auto simp: logged_def split: option.splits)
  have s: "addresses_ok s" "aofFile s = OpenFile name" "0 \<le> capacity s"
    "view s (allMsgs s) = take_last (nat (capacity s)) L"
    using assms(1) by (simp_all add: logged_def)
  have m: "length (Content m) \<le> MaxMessageSize" "sv_write e = Written"
    "transmit (prepare_msg e m) = Some (prepare_msg e m)" "json_size (prepare_msg e m) < max_token"
    using assms(2) by (simp_all add: clean_save_def)
  note sv = Save_view [OF s(1) m(1), of e]
  have w: "write_line (sv_write e) (prepare_msg e m) (aofFile s) (sto_disk s) =
      (OpenFile name, mput name (f\<lparr>lines := lines f @ [Line (prepare_msg e m) (json_size (prepare_msg e m))]\<rparr>) (sto_disk s), True)"
    using m s(2) f by (simp add: write_line_def append_line_def mget_or_def Let_def)
  show ?thesis
    unfolding logged_def sv(1,3-6) using w f m(4) s sv(2)
    by (simp add: scan_lines_snoc [OF f(3)] trim_take_last)
qed

lemma logged_run:
  assumes "logged name L s" and "list_all clean_save xs"
  shows "logged name (L @ map (\<lambda>(e, m). prepare_msg e m) xs) (run_saves xs s) \<and> capacity (run_saves xs s) = capacity s"
  using assms
proof (induction xs arbitrary: L s)
  case (Cons x xs)
  obtain e m where x: "x = (e, m)" by (cases x)
  have "logged name (L @ [prepare_msg e m]) (fst (Save e m s))"
    using logged_Save [OF Cons.prems(1), of e m] Cons.prems(2) x by simp
  from Cons.IH [OF this] Cons.prems(2) x show ?case
    by (simp add: run_saves_def) (simp add: Save_def Let_def split: prod.splits)
qed (simp add: run_saves_def)

lemma alloc_all_view:
  assumes "alloc_all ms h = (h', ms')"
  shows "map (deref h') ms' = ms \<and> (\<exists>ext. h' = h @ ext)"
  using assms
proof (induction ms arbitrary: h h' ms')
  case (Cons m ms)
  obtain h1 m' ms1 where a: "alloc m h = (h1, m')" "alloc_all ms h1 = (h', ms1)" "ms' = m' # ms1"
    using Cons.prems by (auto simp: Let_def split: prod.splits)
  have ih: "map (deref h') ms1 = ms" "\<exists>ext. h' = h1 @ ext" using Cons.IH [OF a(2)] by simp_all
  then have "deref h' m' = m"
    using a(1) by (auto simp: alloc_def deref_def with_reactions_def nth_append split: option.splits)
  with ih a show ?case by (auto simp: alloc_def split: option.splits)
qed simp

lemma chan_index: "mget_or [] (index_channels ms) ch = filter (in_channel ch) ms"
proof (induction ms rule: rev_induct)
  case (snoc m ms)
  then show ?case by (auto simp: index_channels_def in_channel_def Let_def)
qed (simp add: index_channels_def mget_or_def)

lemma deref_filter: "map (deref h) (filter (in_channel ch) ms) = filter (in_channel ch) (map (deref h) ms)"
  by (induction ms) (simp_all add: in_channel_def)

lemma LoadAOF_view:
  assumes "mget (sto_disk s) (aof_name dir port) = Some f" and "scan_lines (file_lines f) = (ms, ok)" and "0 \<le> capacity s"
  shows "\<exists>s'. LoadAOF True dir port s = (s', ok) \<and> view s' (allMsgs s') = take_last (nat (capacity s)) ms \<and>
    (\<forall>ch. view s' (chan s' ch) = filter (in_channel ch) (view s' (allMsgs s')))"
proof -
  have loaded: "(if capacity s < int (length ms) then drop (nat (int (length ms) - capacity s)) ms else ms)
      = take_last (nat (capacity s)) ms"
    using assms(3) by (auto simp: take_last_def nat_diff_distrib intro!: arg_cong [where f = "\<lambda>n. drop n ms"])
  obtain h st where a: "alloc_all (take_last (nat (capacity s)) ms) (sto_heap s) = (h, st)" by fastforce
  show ?thesis
    using assms a alloc_all_view [OF a] loaded
    by (auto simp: LoadAOF_def Let_def view_def chan_index deref_filter)
qed


definition stable_msg :: "wire_msg \<Rightarrow> bool" where
  \<comment> \<open>a message that JSON keeps as it is, in a line that fits the scanner's buffer\<close>
  "stable_msg m = (transmit m = Some m \<and> json_size m < max_token)"

lemma stable_chat:
  assumes "list_all (\<lambda>c. bval c < 0x80) (i @ u @ t @ ch)" and "json_size (chat i u t\<lparr>Channel := ch\<rparr>) < max_token"
  shows "stable_msg (chat i u t\<lparr>Channel := ch\<rparr>)"
proof -
  have "utf8_coerce s = s" if "list_all (\<lambda>c. bval c < 0x80) s" for s
    using valid_utf8_ascii [OF that] by (simp add: valid_utf8_def)
  with assms show ?thesis
    by (simp add: stable_msg_def transmit_def chat_def no_message_def zero_time_def encodable_time_def coerce_time_def
        minute_offset_def coerce_opt_def utf8_coerce_def Let_def)
qed

lemma frac_digits_0 [simp]: "frac_digits k 0 = 0"
  by (induction k) simp_all

lemma chat_stable: "stable_msg (chat ''a'' ''ann'' ''hi''\<lparr>Channel := ''general''\<rparr>)"
  by (rule stable_chat)
    (simp_all add: json_size_def opt_field_def opt_map_def field_size_def list_size_def json_string_size_def
      json_rune_size_def decode_rune_def json_time_size_def zero_time_def max_token_def MaxMessageSize_def
      Itoa_def show_nat.simps [of 0] chat_def no_message_def Let_def)

lemma clean_chat: "clean_save (plain_save, chat ''a'' ''ann'' ''hi'')"
  using chat_stable
  by (simp add: clean_save_def stable_msg_def plain_save_def MaxMessageSize_def prepare_msg_def normalizeChannel_def Let_def)


section \<open>Compaction\<close>

lemma encode_all_scan:
  assumes "encode_all ms = Some ls" and "list_all stable_msg ms"
  shows "scan_lines ls = (ms, True)"
  using assms by (induction ms arbitrary: ls) (auto simp: stable_msg_def split: option.splits)

lemma encode_all_Some: "list_all stable_msg ms \<Longrightarrow> encode_all ms \<noteq> None"
  by (induction ms) (auto simp: stable_msg_def)

text \<open>
  C24. Compaction is atomic for the file: whatever fails, the contents in memory stay, no other file than the
  store's and its temporary one changes, and the store's file is the old one or, complete, the messages in
  memory; success means the latter, and that the store logs to it again.
\<close>

theorem compaction_atomic:
  assumes "CompactAOF e dir port s = (s', ok)"
  shows "store_abs s' = store_abs s \<and>
    (\<forall>g. g \<noteq> aof_name dir port \<longrightarrow> g \<noteq> aof_name dir port @ ''.compact'' \<longrightarrow> mget (sto_disk s') g = mget (sto_disk s) g) \<and>
    (mget (sto_disk s') (aof_name dir port) = mget (sto_disk s) (aof_name dir port) \<and> \<not> ok \<or>
     (\<exists>ls. encode_all (view s (allMsgs s)) = Some ls \<and>
        mget (sto_disk s') (aof_name dir port) = Some \<lparr>lines = ls, fragment = None\<rparr>)) \<and>
    (ok \<longrightarrow> aofFile s' = OpenFile (aof_name dir port))"
proof -
  have n: "aof_name dir port \<noteq> aof_name dir port @ ''.compact''" by simp
  have "allMsgs s' = allMsgs s" "messages s' = messages s" "sto_heap s' = sto_heap s" "capacity s' = capacity s"
    using assms by (auto simp: CompactAOF_def Let_def split: option.splits if_splits)
  note same = store_same(1) [OF this]
  show ?thesis unfolding same
    using assms n by (auto simp: CompactAOF_def Let_def split: option.splits if_splits)
qed

theorem compaction_atomic_witness:
  "let s = history_store; e = compact_ok\<lparr>mv_fails := True\<rparr>; s' = fst (CompactAOF e ''.'' 8000 s)
   in store_abs s' = store_abs s \<and> mget (sto_disk s') ''users.json'' = mget (sto_disk s) ''users.json''"
proof -
  let ?e = "compact_ok\<lparr>mv_fails := True\<rparr>"
  obtain s' ok where c: "CompactAOF ?e ''.'' 8000 history_store = (s', ok)" by fastforce
  have "''users.json'' \<noteq> aof_name ''.'' 8000" "''users.json'' \<noteq> aof_name ''.'' 8000 @ ''.compact''"
    by (simp_all add: aof_name_def)
  with compaction_atomic [OF c] c show ?thesis by (simp add: Let_def)
qed

lemma compaction_file:
  assumes "CompactAOF e dir port s = (s', True)"
  shows "\<exists>ls. encode_all (view s (allMsgs s)) = Some ls \<and>
    mget (sto_disk s') (aof_name dir port) = Some \<lparr>lines = ls, fragment = None\<rparr>"
  using assms by (auto simp: CompactAOF_def Let_def split: option.splits if_splits)

text \<open>
  Compaction makes edits, deletions and reactions last: when it succeeds, a store that starts on the
  resulting disk and loads the file has exactly the messages that were in memory, provided each of them
  is one JSON keeps and fits the scanner's buffer.
\<close>

theorem compaction_keeps_messages:
  assumes "CompactAOF e dir port s = (s', True)" and "list_all stable_msg (view s (allMsgs s))" and "storage_ok s"
    and "NewStorage (capacity s) dir port True (sto_disk s') = Ret (Some s1)"
  shows "\<exists>s2. LoadAOF True dir port s1 = (s2, True) \<and> sp_all (store_abs s2) = sp_all (store_abs s)"
proof -
  obtain ls where ls: "encode_all (view s (allMsgs s)) = Some ls"
    and f: "mget (sto_disk s') (aof_name dir port) = Some \<lparr>lines = ls, fragment = None\<rparr>"
    using compaction_file [OF assms(1)] by blast
  have "mget (sto_disk s1) (aof_name dir port) = Some \<lparr>lines = ls, fragment = None\<rparr>" "capacity s1 = capacity s" "0 \<le> capacity s"
    using assms(4) f by (auto simp: NewStorage_def Let_def mhas_def split: if_splits)
  moreover have "scan_lines (file_lines \<lparr>lines = ls, fragment = None\<rparr>) = (view s (allMsgs s), True)"
    using encode_all_scan [OF ls assms(2)] by (simp add: file_lines_def)
  moreover have "take_last (nat (capacity s)) (view s (allMsgs s)) = view s (allMsgs s)"
    using assms(3) by (intro take_last_all) (simp add: storage_ok_def view_def le_nat_iff)
  ultimately show ?thesis
    using LoadAOF_view [of s1 dir port "\<lparr>lines = ls, fragment = None\<rparr>" "view s (allMsgs s)" True]
    by (auto simp: store_abs_def)
qed

lemma one_message_store:
  "allMsgs (run_saves [(plain_save, chat ''a'' ''ann'' ''hi'')] (test_store 9)) =
     [with_reactions None (chat ''a'' ''ann'' ''hi''\<lparr>Channel := ''general''\<rparr>)]"
  by (simp add: run_saves_def Save_def MaxMessageSize_def prepare_msg_def normalizeChannel_def alloc_def
      trim_capacity_def Let_def with_reactions_def split: prod.split)

theorem compaction_keeps_messages_witness:
  "let s = run_saves [(plain_save, chat ''a'' ''ann'' ''hi'')] (test_store 9)
   in \<exists>s' s1 s2. CompactAOF compact_ok ''.'' 8000 s = (s', True) \<and>
      NewStorage 9 ''.'' 8000 True (sto_disk s') = Ret (Some s1) \<and>
      LoadAOF True ''.'' 8000 s1 = (s2, True) \<and> sp_all (store_abs s2) = sp_all (store_abs s)"
proof -
  let ?s = "run_saves [(plain_save, chat ''a'' ''ann'' ''hi'')] (test_store 9)"
  have v: "view ?s (allMsgs ?s) = [chat ''a'' ''ann'' ''hi''\<lparr>Channel := ''general''\<rparr>]"
    unfolding one_message_store by (simp add: view_def deref_def with_reactions_def chat_def no_message_def)
  have st: "list_all stable_msg (view ?s (allMsgs ?s))" using chat_stable by (simp add: v)
  have ok: "storage_ok ?s" and cap: "capacity ?s = 9"
    using store.step_invar [OF coherentD(1) [OF coherent_test [of 9]], of "SaveOp plain_save (chat ''a'' ''ann'' ''hi'')"]
      Save_step_chan(2) [of "chat ''a'' ''ann'' ''hi''" plain_save "test_store 9"]
    by (simp_all add: run_saves_def store_step_def MaxMessageSize_def)
  obtain s' where c: "CompactAOF compact_ok ''.'' 8000 ?s = (s', True)"
    using encode_all_Some [OF st] by (auto simp: CompactAOF_def compact_ok_def Let_def)
  obtain s1 where s1: "NewStorage (capacity ?s) ''.'' 8000 True (sto_disk s') = Ret (Some s1)"
    using cap by (simp add: NewStorage_def Let_def)
  from compaction_keeps_messages [OF c st ok s1] c s1 cap show ?thesis unfolding Let_def by auto
qed

text \<open>
  A compaction whose last step fails stops the log for good: when the rename (or reopening the file) fails,
  the file is closed already, and from then on no \<open>Save\<close> writes anything, though each still adds to memory
  and only reports an error.
\<close>

theorem failed_rename_stops_log:
  assumes "CompactAOF e dir port s = (s', False)" and "aofFile s' \<noteq> aofFile s"
    and "length (Content m) \<le> MaxMessageSize"
  shows "snd (Save v m s') = False \<and> sto_disk (fst (Save v m s')) = sto_disk s' \<and> aofFile (fst (Save v m s')) = ClosedFile \<and>
    allMsgs (fst (Save v m s')) = trim_capacity (capacity s) (allMsgs s @ [snd (alloc (prepare_msg v m) (sto_heap s))])"
proof -
  have closed: "aofFile s' = ClosedFile" "allMsgs s' = allMsgs s" "capacity s' = capacity s" "sto_heap s' = sto_heap s"
    using assms(1,2) by (auto simp: CompactAOF_def Let_def split: option.splits if_splits)
  then have "write_line w x (aofFile s') d = (ClosedFile, d, False)" for w x d
    by (simp add: write_line_def split: option.split)
  with closed assms(3) show ?thesis by (simp add: Save_def Let_def split: prod.split)
qed

theorem failed_rename_stops_log_witness:
  "let s' = fst (CompactAOF (compact_ok\<lparr>mv_fails := True\<rparr>) ''.'' 8000 (test_store 9))
   in snd (Save plain_save (chat ''b'' ''ann'' ''hi'') s') = False \<and>
      sto_disk (fst (Save plain_save (chat ''b'' ''ann'' ''hi'') s')) = sto_disk s'"
proof -
  let ?c = "CompactAOF (compact_ok\<lparr>mv_fails := True\<rparr>) ''.'' 8000 (test_store 9)"
  have c: "?c = (fst ?c, False)" and d: "aofFile (fst ?c) \<noteq> aofFile (test_store 9)"
    by (simp_all add: CompactAOF_def compact_ok_def test_store_def view_def Let_def)
  from failed_rename_stops_log [OF c d, of "chat ''b'' ''ann'' ''hi''" plain_save] show ?thesis
    by (simp add: MaxMessageSize_def Let_def)
qed

lemma prepare_msg_Timestamp [simp]: "Timestamp (prepare_msg e m) = Timestamp m"
  by (simp add: prepare_msg_def Let_def)

lemma stuck_run:
  "aofFile s = FailedEncoder name \<Longrightarrow>
    sto_disk (run_saves xs s) = sto_disk s \<and> aofFile (run_saves xs s) = FailedEncoder name"
proof (induction xs arbitrary: s)
  case (Cons x xs)
  obtain v k where x: "x = (v, k)" by (cases x)
  have "aofFile (fst (Save v k s)) = FailedEncoder name" "sto_disk (fst (Save v k s)) = sto_disk s"
    using Cons.prems by (auto simp: Save_def write_line_def Let_def split: prod.split option.split)
  with Cons.IH show ?case by (simp add: x run_saves_def)
qed (simp add: run_saves_def)

text \<open>
  One failed write is enough to stop the log: the JSON encoder keeps the error and returns it for every later message,
  also when the disk works again. Until the next compaction that succeeds, nothing that is saved is written.
\<close>

theorem failed_write_stops_log:
  assumes "aofFile s = OpenFile name" and "sv_write e = WriteFails g" and "length (Content m) \<le> MaxMessageSize"
    and "encodable_time (Timestamp m)"
  shows "snd (Save e m s) = False \<and> sto_disk (run_saves xs (fst (Save e m s))) = sto_disk (fst (Save e m s)) \<and>
    aofFile (run_saves xs (fst (Save e m s))) = FailedEncoder name"
proof -
  have "aofFile (fst (Save e m s)) = FailedEncoder name \<and> snd (Save e m s) = False"
    using assms by (auto simp: Save_def write_line_def transmit_def Let_def split: prod.split)
  then show ?thesis using stuck_run by blast
qed

theorem failed_write_stops_log_witness:
  "let s = fst (Save (plain_save\<lparr>sv_write := WriteFails None\<rparr>) (chat ''a'' ''ann'' ''hi'') (test_store 9))
   in sto_disk (run_saves [(plain_save, chat ''b'' ''ann'' ''ho'')] s) = sto_disk s"
proof -
  have "aofFile (test_store 9) = OpenFile (aof_name ''.'' 8000)" "encodable_time (Timestamp (chat ''a'' ''ann'' ''hi''))"
    by (simp_all add: test_store_def chat_def no_message_def encodable_time_def zero_time_def Let_def)
  then show ?thesis
    using failed_write_stops_log [of "test_store 9" _ "plain_save\<lparr>sv_write := WriteFails None\<rparr>" None "chat ''a'' ''ann'' ''hi''"
        "[(plain_save, chat ''b'' ''ann'' ''ho'')]"] by (simp add: MaxMessageSize_def chat_def Let_def)
qed

section \<open>What a restart brings back, and what it loses\<close>

fun change_op :: "store_op \<Rightarrow> bool" where
  "change_op (UpdateOp mid c) = True"
| "change_op (DeleteOp mid) = True"
| "change_op (ReactOp mid em u) = True"
| "change_op _ = False"

lemma change_op_disk: "change_op op \<Longrightarrow> sto_disk (store_step op s) = sto_disk s"
  by (cases op) (auto simp: store_step_def UpdateMessage_def DeleteMessage_def AddReaction_def Let_def
      split: option.split prod.split)

text \<open>
  C32. Edits, deletions and reactions do not outlive a restart: only saves are logged. After any sequence of
  saves followed by any edits, deletions and reactions, a store that starts on the same disk has the messages
  as they were saved; a deleted message is back.
\<close>

theorem restart_undoes_changes:
  assumes "mget d (aof_name dir port) = None" and "list_all clean_save xs" and "list_all change_op ops"
    and "NewStorage cap dir port True d = Ret (Some s0)"
    and "NewStorage cap dir port True (sto_disk (fold store_step ops (run_saves xs s0))) = Ret (Some s1)"
  shows "\<exists>s2. LoadAOF True dir port s1 = (s2, True) \<and>
      sp_all (store_abs s2) = take_last (nat cap) (map (\<lambda>(e, m). prepare_msg e m) xs)"
proof -
  have disk: "sto_disk (fold store_step ops s) = sto_disk s" for s
    using assms(3) by (induction ops arbitrary: s) (simp_all add: change_op_disk)
  let ?name = "aof_name dir port"
  let ?L = "map (\<lambda>(e, m). prepare_msg e m) xs"
  have log: "logged ?name [] s0"
    using assms(1,4) by (auto simp: NewStorage_def Let_def logged_def addresses_ok_def empty_file_def mhas_def
        view_def take_last_def split: if_splits)
  have "logged ?name ?L (run_saves xs s0)" using logged_run [OF log assms(2)] by simp
  then obtain f where f: "mget (sto_disk (run_saves xs s0)) ?name = Some f" "fragment f = None" "scan_lines (lines f) = (?L, True)"
    by (auto simp: logged_def split: option.splits)
  have s1: "mget (sto_disk s1) ?name = Some f" "capacity s1 = cap" "0 \<le> cap"
    using assms(5) f(1) by (auto simp: NewStorage_def Let_def mhas_def disk split: if_splits)
  have "scan_lines (file_lines f) = (?L, True)" using f by (simp add: file_lines_def)
  from LoadAOF_view [OF s1(1) this] s1 show ?thesis by (auto simp: store_abs_def)
qed

theorem restart_undoes_changes_witness:
  "let s = run_saves [(plain_save, chat ''a'' ''ann'' ''hi'')] (test_store 9); s' = store_step (DeleteOp ''a'') s
   in allMsgs s' = [] \<and>
      (\<exists>s1 s2. NewStorage 9 ''.'' 8000 True (sto_disk s') = Ret (Some s1) \<and> LoadAOF True ''.'' 8000 s1 = (s2, True) \<and>
         sp_all (store_abs s2) = [chat ''a'' ''ann'' ''hi''\<lparr>Channel := ''general''\<rparr>])"
proof -
  let ?s = "run_saves [(plain_save, chat ''a'' ''ann'' ''hi'')] (test_store 9)"
  have del: "allMsgs (store_step (DeleteOp ''a'') ?s) = []"
    using one_message_store by (simp add: store_step_def DeleteMessage_def Let_def)
  obtain s1 where s1: "NewStorage 9 ''.'' 8000 True (sto_disk (fold store_step [DeleteOp ''a''] ?s)) = Ret (Some s1)"
    by (simp add: NewStorage_def Let_def)
  have "list_all clean_save [(plain_save, chat ''a'' ''ann'' ''hi'')]" "list_all change_op [DeleteOp ''a'']"
    using clean_chat by simp_all
  from restart_undoes_changes [OF _ this test_store_new s1] s1 del show ?thesis
    by (auto simp: take_last_def prepare_msg_def normalizeChannel_def Let_def)
qed

lemma rune_widths_ascii: "bval c < 0x80 \<Longrightarrow> rune_widths (replicate n c) = replicate n (bval c, 1)"
  by (induction n) (simp_all add: decode_rune_def Let_def)

lemma json_string_size_ascii:
  "bval c < 0x80 \<Longrightarrow> json_string_size (replicate n c) = 2 + n * json_rune_size (bval c, 1)"
  by (simp add: json_string_size_def rune_widths_ascii sum_list_replicate)

lemma json_size_content: "json_string_size (Content m) < json_size m"
  by (simp add: json_size_def list_size_def field_size_def)

lemma big_line: "json_size (prepare_msg e m) > max_token"
  if "Content m = replicate n CHR ''<''" "176000 \<le> n" for e m n
proof -
  have "json_string_size (Content (prepare_msg e m)) = 2 + n * 6"
    using that by (simp add: json_string_size_ascii json_rune_size_def)
  moreover have "max_token < 2 + n * 6" using that(2) by (simp add: max_token_def MaxMessageSize_def)
  ultimately show ?thesis using json_size_content [of "prepare_msg e m"] by simp
qed

lemma run_saves_append:
  assumes "aofFile s = OpenFile name" and "addresses_ok s" and "mget (sto_disk s) name = Some f"
    and "fragment f = None" and "list_all clean_save ys"
  shows "\<exists>g ls. mget (sto_disk (run_saves ys s)) name = Some g \<and> fragment g = None \<and> lines g = lines f @ ls"
  using assms
proof (induction ys arbitrary: s f)
  case (Cons y ys)
  obtain v k where y: "y = (v, k)" by (cases y)
  have k: "length (Content k) \<le> MaxMessageSize" "sv_write v = Written" "transmit (prepare_msg v k) = Some (prepare_msg v k)"
    using Cons.prems(5) y by (simp_all add: clean_save_def)
  let ?g = "f\<lparr>lines := lines f @ [Line (prepare_msg v k) (json_size (prepare_msg v k))]\<rparr>"
  note sv = Save_view [OF Cons.prems(2) k(1), of v]
  have "aofFile (fst (Save v k s)) = OpenFile name" "addresses_ok (fst (Save v k s))"
    using sv Cons.prems(1) k by (simp_all add: write_line_def Let_def)
  moreover have "mget (sto_disk (fst (Save v k s))) name = Some ?g"
    unfolding sv(3) using Cons.prems k by (simp add: write_line_def append_line_def mget_or_def Let_def)
  moreover have "fragment ?g = None" "list_all clean_save ys" using Cons.prems by simp_all
  ultimately obtain g ls where "mget (sto_disk (run_saves ys (fst (Save v k s)))) name = Some g"
    "fragment g = None" "lines g = lines ?g @ ls"
    using Cons.IH by blast
  then show ?case by (simp add: y run_saves_def)
qed (simp add: run_saves_def)

text \<open>
  C31. An accepted message can make all later ones unreadable: JSON writes \<open><\<close> as six bytes, so a message of
  176000 of them is within the size limit and saved without an error, but its line does not fit the
  scanner's buffer. Whatever is saved before and after it, a store that loads the file has at most the messages
  saved before it, and an error is reported.
\<close>

theorem oversized_line_hides_history:
  assumes "mget d (aof_name dir port) = None" and "list_all clean_save xs" and "list_all clean_save ys"
    and "Content m = replicate n CHR ''<''" and "176000 \<le> n" and "n \<le> MaxMessageSize"
    and "sv_write e = Written" and "encodable_time (Timestamp m)"
    and "NewStorage cap dir port True d = Ret (Some s0)"
    and "NewStorage cap dir port True (sto_disk (run_saves (xs @ (e, m) # ys) s0)) = Ret (Some s1)"
  shows "snd (Save e m (run_saves xs s0)) = True \<and>
    (\<exists>s2. LoadAOF True dir port s1 = (s2, False) \<and>
       sp_all (store_abs s2) = take_last (nat cap) (map (\<lambda>(e, m). prepare_msg e m) xs))"
proof -
  let ?name = "aof_name dir port"
  let ?L = "map (\<lambda>(e, m). prepare_msg e m) xs"
  have log: "logged ?name [] s0"
    using assms(1,9) by (auto simp: NewStorage_def Let_def logged_def addresses_ok_def empty_file_def mhas_def
        view_def take_last_def split: if_splits)
  define s where "s = run_saves xs s0"
  have run: "logged ?name ?L s" using logged_run [OF log assms(2)] by (simp add: s_def)
  obtain f where f: "mget (sto_disk s) ?name = Some f" "fragment f = None" "scan_lines (lines f) = (?L, True)"
    using run by (auto simp: logged_def split: option.splits)
  obtain m' where m': "transmit (prepare_msg e m) = Some m'"
    using assms(8) by (simp add: transmit_def)
  let ?f = "f\<lparr>lines := lines f @ [Line m' (json_size (prepare_msg e m))]\<rparr>"
  have h: "addresses_ok s" "aofFile s = OpenFile ?name" "length (Content m) \<le> MaxMessageSize"
    using run assms(4,6) by (simp_all add: logged_def)
  note sv = Save_view [OF h(1) h(3), of e]
  have w: "write_line (sv_write e) (prepare_msg e m) (aofFile s) (sto_disk s) = (OpenFile ?name, mput ?name ?f (sto_disk s), True)"
    using m' assms(7) h(2) f by (simp add: write_line_def append_line_def mget_or_def Let_def)
  have broken: "scan_lines (lines ?f) = (?L, False)"
    using big_line [OF assms(4,5), of e] by (simp add: scan_lines_snoc [OF f(3)])
  define t where "t = fst (Save e m s)"
  have t: "aofFile t = OpenFile ?name" "mget (sto_disk t) ?name = Some ?f" "addresses_ok t"
    using sv w h(2) by (simp_all add: t_def)
  obtain g ls where g: "mget (sto_disk (run_saves ys t)) ?name = Some g" "fragment g = None" "lines g = lines ?f @ ls"
    using run_saves_append [OF t(1,3,2) _ assms(3)] f(2) by auto
  then have scan: "scan_lines (file_lines g) = (?L, False)"
    using scan_lines_stops [OF broken, of ls] by (simp add: file_lines_def)
  have final: "run_saves (xs @ (e, m) # ys) s0 = run_saves ys t" by (simp add: run_saves_def t_def s_def)
  have s1: "mget (sto_disk s1) ?name = Some g" "capacity s1 = cap" "0 \<le> cap"
    using assms(10) g(1) by (auto simp: NewStorage_def Let_def mhas_def final split: if_splits)
  from LoadAOF_view [OF s1(1) scan] s1 sv(4) w show ?thesis by (auto simp: store_abs_def s_def)
qed

theorem oversized_line_hides_history_witness:
  "let m = chat ''a'' ''mallory'' (replicate 176000 CHR ''<'');
       s = run_saves [(plain_save, m), (plain_save, chat ''a'' ''ann'' ''hi'')] (test_store 9)
   in \<exists>s1 s2. NewStorage 9 ''.'' 8000 True (sto_disk s) = Ret (Some s1) \<and>
      LoadAOF True ''.'' 8000 s1 = (s2, False) \<and> sp_all (store_abs s2) = []"
proof -
  let ?m = "chat ''a'' ''mallory'' (replicate 176000 CHR ''<'')"
  let ?ys = "[(plain_save, chat ''a'' ''ann'' ''hi'')]"
  obtain s1 where s1: "NewStorage 9 ''.'' 8000 True (sto_disk (run_saves ([] @ (plain_save, ?m) # ?ys) (test_store 9))) = Ret (Some s1)"
    by (simp add: NewStorage_def Let_def)
  have "Timestamp ?m = zero_time" by (simp add: chat_def no_message_def)
  then have t: "encodable_time (Timestamp ?m)"
    by (simp add: encodable_time_def zero_time_def Let_def)
  have "list_all clean_save ?ys" using clean_chat by simp
  from oversized_line_hides_history [OF _ _ this _ _ _ _ t test_store_new s1, of 176000] s1 show ?thesis
    unfolding Let_def by (simp add: plain_save_def MaxMessageSize_def take_last_def)
qed

end
