(* ===== verification/Node.thy ===== *)
theory Node
  imports Auth ChannelManager Crypto RateLimit StoreDisk
begin

text \<open>
  \<open>internal/node/node.go\<close> and \<open>client.go\<close>: the node. Its state is the record \<open>node\<close>: the registered clients
  with their outbound queues, the peers, the store, the authenticator, the channels, the rate limiter, the
  election state and the lock \<open>n.mu\<close>. The unbuffered channels are the lists of the goroutines waiting to send on
  them: \<open>bcast\<close> for \<open>n.broadcast\<close> (with the connection whose loop waits, if any), \<open>unreg\<close> for \<open>n.unregister\<close>, and
  the phase \<open>Registering\<close> of a connection for \<open>n.register\<close>. What is written to a connection is appended to
  \<open>outbox\<close>. Connections are numbers.

  A function here is what one goroutine does between two points where it waits for another one. It takes the
  lock as the code does; taking a lock that is held is \<open>Blocked\<close>: where the goroutine holds it itself, for
  ever. \<open>node_env\<close> is what the environment gives a call: the time, random bytes (one draw per call site), the
  outcome of writing files. \<open>node_lib\<close> holds the parameters: Argon2, the lower-case mapping of non-ASCII runes,
  and decoding a JSON list of strings.
\<close>

section \<open>State\<close>

record node_lib =
  lib_argon :: argon2
  lib_gcm :: new_gcm
  lib_lower :: "nat \<Rightarrow> nat"
  lib_strings :: "string \<Rightarrow> string list option"

record node_env =
  ne_now :: gotime
  ne_draw :: "nat \<Rightarrow> string option"
  ne_salt :: "string option"
  ne_enc_salt :: "string option"            \<comment> \<open>what \<open>Encrypt\<close> draws\<close>
  ne_enc_nonce :: "nat \<Rightarrow> string option"
  ne_users :: "users_file write_env"
  ne_channels :: "channels_file write_env"
  ne_save :: write_result
  ne_compact :: compact_env
  ne_uptime :: string   \<comment> \<open>\<open>time.Since(n.startTime).Seconds()\<close> as JSON writes it\<close>

record client_reg =
  User :: string
  Send :: "wire_msg list option"   \<comment> \<open>the buffered channel, oldest first; \<open>None\<close> is a nil channel\<close>
  ActiveChannel :: string

definition send_buffer :: nat where "send_buffer = 256"

datatype rwlock = Readers nat | Writer

datatype phase =
    Greeting                        \<comment> \<open>accepted, the first message is not there yet\<close>
  | Registering bool client_reg     \<comment> \<open>waiting to send on \<open>n.register\<close>; whether history follows\<close>
  | Welcoming string                \<comment> \<open>registered; joining \<open>general\<close> and sending history comes next\<close>
  | ClientLoop
  | PeerLoop
  | Over

record node =
  port :: int
  clients :: "(nat, client_reg) gomap"
  remoteUsers :: "(string, bool) gomap"
  peers :: "(nat, gotime) gomap"
  peerIDs :: "(nat, int) gomap"
  n_storage :: storage
  n_auth :: authenticator
  n_channels :: manager
  n_limiter :: limiter
  isLeader :: bool
  leaderID :: int
  sshKey :: string
  n_mu :: rwlock
  bcast :: "(nat option \<times> wire_msg) list"
  unreg :: "nat list"
  phases :: "(nat, phase) gomap"
  outbox :: "(nat \<times> wire_msg) list"
  closed_conns :: "nat list"
  connected_clients :: int   \<comment> \<open>the gauge \<open>metrics.ConnectedClients\<close>\<close>
  active_peers :: int        \<comment> \<open>the gauge \<open>metrics.ActivePeers\<close>\<close>
  messages_total :: int
  ssh_conns :: "(nat, string) gomap"   \<comment> \<open>the connections that are SSH sessions, with \<open>s.User()\<close>\<close>
  ssh_open :: "nat list"              \<comment> \<open>those whose scanner still runs\<close>
  ssh_pipe :: "(nat \<times> wire_msg) list"  \<comment> \<open>what a scanner wrote and the loop has not finished with\<close>

definition HeartbeatInterval :: int where "HeartbeatInterval = 5 * 10 ^ 9"
definition PeerTimeout :: int where "PeerTimeout = 15 * 10 ^ 9"
definition MaxClients :: nat where "MaxClients = 500"
definition MaxPeers :: nat where "MaxPeers = 50"

definition NewNode ::
  "node_env \<Rightarrow> int \<Rightarrow> disk \<Rightarrow> users_file fs \<Rightarrow> channels_file fs \<Rightarrow> bool \<Rightarrow> node option outcome" where
  \<comment> \<open>the last argument: the append-only file can be opened\<close>
  "NewNode e prt d ufs cfs opens =
     obind (NewStorage 1024 ''.'' prt opens d)
       (\<lambda>res. case res of
          None \<Rightarrow> Ret None
        | Some s \<Rightarrow>
            Ret (Some
              \<lparr>port = prt, clients = [], remoteUsers = [], peers = [], peerIDs = [],
               n_storage = fst (LoadAOF opens ''.'' prt s),
               n_auth = NewAuthenticator (ne_users e) (ne_now e) ufs,
               n_channels = NewManager (ne_channels e) (ne_now e) cfs,
               n_limiter = NewLimiter 10 20, isLeader = False, leaderID = 0, sshKey = [], n_mu = Readers 0,
               bcast = [], unreg = [], phases = [], outbox = [], closed_conns = [],
               connected_clients = 0, active_peers = 0, messages_total = 0,
               ssh_conns = [], ssh_open = [], ssh_pipe = []\<rparr>))"

definition SetSSHKey :: "string \<Rightarrow> node \<Rightarrow> node" where
  "SetSSHKey key n = n\<lparr>sshKey := key\<rparr>"

section \<open>The lock\<close>

definition rlock :: "node \<Rightarrow> node outcome" where
  "rlock n = (case n_mu n of Writer \<Rightarrow> Blocked | Readers k \<Rightarrow> Ret (n\<lparr>n_mu := Readers (Suc k)\<rparr>))"

definition runlock :: "node \<Rightarrow> node" where
  "runlock n = (case n_mu n of Readers (Suc k) \<Rightarrow> n\<lparr>n_mu := Readers k\<rparr> | _ \<Rightarrow> n)"

definition wlock :: "node \<Rightarrow> node outcome" where
  "wlock n = (if n_mu n = Readers 0 then Ret (n\<lparr>n_mu := Writer\<rparr>) else Blocked)"

definition wunlock :: "node \<Rightarrow> node" where
  "wunlock n = n\<lparr>n_mu := Readers 0\<rparr>"

definition reading :: "(node \<Rightarrow> 'a) \<Rightarrow> node \<Rightarrow> ('a \<times> node) outcome" where
  \<comment> \<open>\<open>RLock\<close>, look, \<open>RUnlock\<close>\<close>
  "reading f n = obind (rlock n) (\<lambda>n. Ret (f n, runlock n))"

definition writing :: "(node \<Rightarrow> node) \<Rightarrow> node \<Rightarrow> node outcome" where
  \<comment> \<open>\<open>Lock\<close>, change, \<open>Unlock\<close>\<close>
  "writing f n = obind (wlock n) (\<lambda>n. Ret (wunlock (f n)))"

section \<open>Sending\<close>

definition no_client :: client_reg where
  \<comment> \<open>the zero value, which reading a missing key gives\<close>
  "no_client = \<lparr>User = [], Send = None, ActiveChannel = []\<rparr>"

definition offer :: "wire_msg \<Rightarrow> client_reg \<Rightarrow> client_reg" where
  \<comment> \<open>\<open>select { case client.Send <- msg: default: }\<close>\<close>
  "offer msg c =
     (case Send c of
        None \<Rightarrow> c
      | Some q \<Rightarrow> if length q < send_buffer then c\<lparr>Send := Some (q @ [msg])\<rparr> else c)"

definition wants :: "manager \<Rightarrow> wire_msg \<Rightarrow> client_reg \<Rightarrow> bool" where
  \<comment> \<open>the conditions under which \<open>broadcastToClients\<close> does not skip a client\<close>
  "wants cm msg c =
     (if Type msg = MsgTypeDirectMessage then User c = Sender msg \<or> User c = Recipient msg
      else if Channel msg \<noteq> [] then
        Manager_IsMember cm (Channel msg) (User c) \<or> Type msg = MsgTypeJoin \<or> Type msg = MsgTypeLeave
      else True)"

definition deliver :: "wire_msg \<Rightarrow> node \<Rightarrow> node" where
  "deliver msg n =
     n\<lparr>clients := map (\<lambda>(conn, c). (conn, if wants (n_channels n) msg c then offer msg c else c)) (clients n)\<rparr>"

definition broadcastToClients :: "wire_msg \<Rightarrow> node \<Rightarrow> node outcome" where
  "broadcastToClients msg n = obind (rlock n) (\<lambda>n. Ret (runlock (deliver msg n)))"

definition SendMessage :: "nat \<Rightarrow> wire_msg \<Rightarrow> node \<Rightarrow> node" where
  "SendMessage conn msg n = n\<lparr>outbox := outbox n @ [(conn, msg)]\<rparr>"

definition broadcastToPeers :: "wire_msg \<Rightarrow> node \<Rightarrow> node outcome" where
  \<comment> \<open>a goroutine for each peer writes the message. These goroutines run later and in any order, so two messages to
     one peer may also change places; here all write at once, in the order of the calls.\<close>
  "broadcastToPeers msg n =
     obind (wlock n)
       (\<lambda>n. let conns = map fst (peers n); n = wunlock n
             in Ret (n\<lparr>outbox := outbox n @ map (\<lambda>c. (c, msg)) conns\<rparr>))"

definition server_msg :: "node_env \<Rightarrow> nat \<Rightarrow> string \<Rightarrow> wire_msg" where
  "server_msg e k content =
     no_message\<lparr>Type := MsgTypeChat, ID := GenerateID (ne_draw e k) (ne_now e), Sender := ''Server'',
       Content := content, Timestamp := ne_now e\<rparr>"

definition sendToClient :: "node_env \<Rightarrow> nat \<Rightarrow> nat \<Rightarrow> string \<Rightarrow> node \<Rightarrow> node outcome" where
  \<comment> \<open>the second argument numbers the call sites of \<open>GenerateID\<close> in a handler\<close>
  "sendToClient e k conn content n =
     obind (reading (\<lambda>n. mget (clients n) conn) n)
       (\<lambda>(client, n). case client of
          None \<Rightarrow> Ret n
        | Some c \<Rightarrow> Ret (n\<lparr>clients := mput conn (offer (server_msg e k content) c) (clients n)\<rparr>))"

definition enqueue :: "nat option \<Rightarrow> wire_msg \<Rightarrow> node \<Rightarrow> node" where
  \<comment> \<open>\<open>n.broadcast <- msg\<close>\<close>
  "enqueue who msg n = n\<lparr>bcast := bcast n @ [(who, msg)]\<rparr>"

definition InjectMessage :: "node_env \<Rightarrow> wire_msg \<Rightarrow> node \<Rightarrow> node" where
  "InjectMessage e msg n =
     (let msg = (if ID msg = [] then msg\<lparr>ID := GenerateID (ne_draw e 0) (ne_now e)\<rparr> else msg);
          msg = (if Channel msg = [] then msg\<lparr>Channel := ''general''\<rparr> else msg);
          msg = (if IsZero (Timestamp msg) then msg\<lparr>Timestamp := ne_now e\<rparr> else msg)
      in enqueue None msg n)"

definition GetOnlineUsers :: "node \<Rightarrow> (string list \<times> node) outcome" where
  "GetOnlineUsers = reading (\<lambda>n. map (\<lambda>(_, c). User c) (clients n))"

section \<open>The event loop\<close>

definition handle_register :: "node_env \<Rightarrow> nat \<Rightarrow> client_reg \<Rightarrow> node \<Rightarrow> node outcome" where
  "handle_register e conn reg n =
     obind (writing (\<lambda>n. n\<lparr>clients := mput conn reg (clients n)\<rparr>) n)
       (\<lambda>n. let joinMsg = no_message\<lparr>Type := MsgTypeJoin, ID := GenerateID (ne_draw e 0) (ne_now e),
                 Sender := ''Server'', Content := ''*** '' @ User reg @ ('' has joined the chat ***'' @ [CHR 0x07]),
                 Channel := ''general'', Timestamp := ne_now e\<rparr>
            in Ret (enqueue None joinMsg (n\<lparr>connected_clients := connected_clients n + 1\<rparr>)))"

definition handle_unregister :: "node_env \<Rightarrow> nat \<Rightarrow> node \<Rightarrow> node outcome" where
  "handle_unregister e conn n =
     obind (wlock n)
       (\<lambda>n. case mget (clients n) conn of
          None \<Rightarrow> Ret (wunlock n)
        | Some client \<Rightarrow>
            if Send client = None then Panic   \<comment> \<open>\<open>close\<close> of a nil channel\<close>
            else (let n = n\<lparr>clients := mdel conn (clients n), closed_conns := conn # closed_conns n,
                       connected_clients := connected_clients n - 1\<rparr>;
                 leaveMsg = no_message\<lparr>Type := MsgTypeLeave, ID := GenerateID (ne_draw e 0) (ne_now e),
                   Sender := ''Server'', Content := ''*** '' @ User client @ ('' has left the chat ***'' @ [CHR 0x07]),
                   Channel := ''general'', Timestamp := ne_now e\<rparr>
             in Ret (wunlock
                  (if User client \<noteq> [] \<and> User client \<noteq> ''Connecting...'' then enqueue None leaveMsg n else n))))"

definition stored_type :: "message_type \<Rightarrow> bool" where
  "stored_type t = (t = MsgTypeChat \<or> t = MsgTypeDirectMessage \<or> t = MsgTypeImage)"

definition relayed_type :: "message_type \<Rightarrow> bool" where
  "relayed_type t = (t \<noteq> MsgTypeDirectMessage \<and> t \<noteq> MsgTypeTyping)"

definition env_save :: "node_env \<Rightarrow> save_env" where
  "env_save e = \<lparr>sv_rnd = ne_draw e 9, sv_now = ne_now e, sv_write = ne_save e\<rparr>"

definition handle_broadcast :: "node_env \<Rightarrow> wire_msg \<Rightarrow> node \<Rightarrow> node outcome" where
  "handle_broadcast e msg n =
     (let n = n\<lparr>messages_total := messages_total n + 1\<rparr>;
          n = (if stored_type (Type msg) then n\<lparr>n_storage := fst (Save (env_save e) msg (n_storage n))\<rparr> else n)
      in obind (broadcastToClients msg n)
           (\<lambda>n. if relayed_type (Type msg) then broadcastToPeers msg n else Ret n))"

definition Shutdown :: "node_env \<Rightarrow> node \<Rightarrow> node outcome" where
  "Shutdown e n =
     obind (wlock n)
       (\<lambda>n. let s = Storage_Close (fst (CompactAOF (ne_compact e) ''.'' (port n) (n_storage n)))
             in Ret (wunlock (n\<lparr>n_storage := s,
                   closed_conns := map fst (clients n) @ map fst (peers n) @ closed_conns n\<rparr>)))"

section \<open>Connections\<close>

definition set_phase :: "nat \<Rightarrow> phase \<Rightarrow> node \<Rightarrow> node" where
  "set_phase conn p n = n\<lparr>phases := mput conn p (phases n)\<rparr>"

definition close_conn :: "nat \<Rightarrow> node \<Rightarrow> node" where
  "close_conn conn n = set_phase conn Over (n\<lparr>closed_conns := conn # closed_conns n\<rparr>)"

definition handle_accept :: "nat \<Rightarrow> node \<Rightarrow> node outcome" where
  \<comment> \<open>\<open>handleConnection\<close> up to reading the first message\<close>
  "handle_accept conn n =
     obind (reading (\<lambda>n. length (clients n) + length (peers n)) n)
       (\<lambda>(cnt, n). if MaxClients + MaxPeers \<le> cnt then Ret (close_conn conn n)
                    else Ret (set_phase conn Greeting n))"

definition auth_result :: "string \<Rightarrow> wire_msg" where
  "auth_result r = no_message\<lparr>Type := MsgTypeAuthResult, Sender := ''Server'', Content := r\<rparr>"

definition json_rune :: "nat \<times> nat \<Rightarrow> string" where
  \<comment> \<open>how \<open>encoding/json\<close> writes a rune of the given width inside a string\<close>
  "json_rune rw = (case rw of (r, w) \<Rightarrow>
     let u = [CHR 0x5C, CHR ''u''];
         hex4 = [hex_digit (r div 4096), hex_digit (r div 256 mod 16), hex_digit (r div 16 mod 16), hex_digit (r mod 16)]
     in if r = 0x22 then [CHR 0x5C, CHR 0x22]
        else if r = 0x5C then [CHR 0x5C, CHR 0x5C]
        else if r = 8 then CHR 0x5C # ''b''
        else if r = 9 then CHR 0x5C # ''t''
        else if r = 10 then CHR 0x5C # ''n''
        else if r = 12 then CHR 0x5C # ''f''
        else if r = 13 then CHR 0x5C # ''r''
        else if r < 0x20 \<or> r = 0x3C \<or> r = 0x3E \<or> r = 0x26 \<or> r = 0x2028 \<or> r = 0x2029 then u @ hex4
        else if r = RuneError \<and> w = 1 then u @ ''fffd''
        else encode_rune r)"

definition json_string :: "string \<Rightarrow> string" where
  "json_string s = [CHR 0x22] @ concat (map json_rune (rune_widths s)) @ [CHR 0x22]"

definition json_strings :: "string list \<Rightarrow> string" where
  "json_strings xs = ''['' @ Join (map json_string xs) '','' @ '']''"

definition handle_first :: "node_lib \<Rightarrow> node_env \<Rightarrow> nat \<Rightarrow> wire_msg \<Rightarrow> node \<Rightarrow> node outcome" where
  \<comment> \<open>the first message of a connection, up to the point where the goroutine waits for the event loop\<close>
  "handle_first L e conn msg n =
     (case Type msg of
        MsgTypePeerHandshake \<Rightarrow>
          (let peerPort = Sscanf_d (Content msg) 0 in
           obind (writing (\<lambda>n. n\<lparr>peers := mput conn (ne_now e) (peers n), peerIDs := mput conn peerPort (peerIDs n)\<rparr>) n)
             (\<lambda>n. let n = n\<lparr>active_peers := active_peers n + 1\<rparr> in
           obind (wlock n)
             (\<lambda>n. let localUsers = map (\<lambda>(_, c). User c) (clients n); n = wunlock n
                   in Ret (set_phase conn PeerLoop
                        (if localUsers \<noteq> []
                         then SendMessage conn (no_message\<lparr>Type := MsgTypeUserSync, Sender := ''Node'',
                                Content := json_strings localUsers, Timestamp := ne_now e\<rparr>) n
                         else n)))))
      | MsgTypeLogin \<Rightarrow>
          (let (user, pass) = ParseCredentials (Content msg) in
           obind (Auth_Check (lib_argon L) (ne_users e) (ne_now e) (ne_salt e) user pass (n_auth n))
             (\<lambda>(a, ok). let n = n\<lparr>n_auth := a\<rparr> in
                if ok
                then Ret (set_phase conn (Registering True \<lparr>User = user, Send = Some [], ActiveChannel = ''general''\<rparr>)
                       (SendMessage conn (auth_result ''OK'') n))
                else Ret (close_conn conn (SendMessage conn (auth_result ''FAIL'') n))))
      | MsgTypeRegister \<Rightarrow>
          (let (user, pass) = ParseCredentials (Content msg) in
           obind (Auth_Register (lib_argon L) (ne_users e) (ne_now e) (ne_salt e) user pass (n_auth n))
             (\<lambda>(a, ok). let n = n\<lparr>n_auth := a\<rparr> in
                Ret (close_conn conn (SendMessage conn (auth_result (if ok then ''OK_REGISTERED'' else ''FAIL_EXISTS'')) n))))
      | _ \<Rightarrow> Ret (close_conn conn (SendMessage conn (auth_result ''AUTH_REQUIRED'') n)))"

definition CheckAuth :: "node_lib \<Rightarrow> node_env \<Rightarrow> string \<Rightarrow> string \<Rightarrow> node \<Rightarrow> (bool \<times> node) outcome" where
  "CheckAuth L e user pass n =
     obind (Auth_Check (lib_argon L) (ne_users e) (ne_now e) (ne_salt e) user pass (n_auth n))
       (\<lambda>(a, ok). Ret (ok, n\<lparr>n_auth := a\<rparr>))"

definition history_type :: "message_type \<Rightarrow> bool" where
  "history_type t = (t = MsgTypeChat \<or> t = MsgTypeImage \<or> t = MsgTypeJoin \<or> t = MsgTypeLeave)"

definition handle_welcome :: "node_env \<Rightarrow> nat \<Rightarrow> string \<Rightarrow> node \<Rightarrow> node outcome" where
  \<comment> \<open>what follows \<open>n.register <- clientReg\<close> for a client that logged in\<close>
  "handle_welcome e conn user n =
     (let n = n\<lparr>n_channels := fst (Manager_Join (ne_channels e) ''general'' user (n_channels n))\<rparr> in
      obind (GetRecentMessages 50 (n_storage n))
        (\<lambda>history. Ret (set_phase conn ClientLoop
           (fold (SendMessage conn) (filter (\<lambda>m. history_type (Type m)) history) n))))"

definition handle_client_end :: "nat \<Rightarrow> node \<Rightarrow> node" where
  \<comment> \<open>\<open>Decode\<close> fails: the loop ends and its deferred function waits to unregister\<close>
  "handle_client_end conn n = set_phase conn Over (n\<lparr>unreg := unreg n @ [conn]\<rparr>)"

definition pump :: "nat \<Rightarrow> node \<Rightarrow> node" where
  \<comment> \<open>one round of \<open>writePump\<close>\<close>
  "pump conn n =
     (case mget (clients n) conn of
        Some c \<Rightarrow>
          (case Send c of
             Some (m # rest) \<Rightarrow> SendMessage conn m (n\<lparr>clients := mput conn (c\<lparr>Send := Some rest\<rparr>) (clients n)\<rparr>)
           | _ \<Rightarrow> n)
      | None \<Rightarrow> n)"

end
