(* ===== verification/Commands.thy ===== *)
theory Commands
  imports Node
begin

text \<open>
  \<open>internal/node/commands.go\<close> and the loop of an authenticated client (\<open>handleClientLoop\<close> in \<open>client.go\<close>):
  one definition per slash command, with its checks and replies, and \<open>client_message\<close>, what the loop does with
  one message. \<open>r.ID[:8]\<close> panics for a shorter identifier, and a panic ends the server.
\<close>

section \<open>Replies\<close>

fun format_lines :: "(wire_msg \<Rightarrow> string) \<Rightarrow> wire_msg list \<Rightarrow> string list outcome" where
  \<comment> \<open>one line per message; the line starts with \<open>ID[:8]\<close>\<close>
  "format_lines f [] = Ret []"
| "format_lines f (m # ms) =
     (if length (ID m) < 8 then Panic else obind (format_lines f ms) (\<lambda>ls. Ret (f m # ls)))"

definition search_line :: "wire_msg \<Rightarrow> string" where
  "search_line r =
     ''  ['' @ take 8 (ID r) @ ''] ['' @ Kitchen (Timestamp r) @ ''] '' @ Sender r @ '': '' @ Content r"

definition history_line :: "wire_msg \<Rightarrow> string" where
  "history_line m = search_line m @ (if Edited m then '' (edited)'' else [])"

record node_info =
  ni_port :: int
  ni_is_leader :: bool
  ni_leader_id :: int
  ni_clients :: nat
  ni_peers :: nat
  ni_peer_ids :: "int list"

definition GetNodeInfo :: "node \<Rightarrow> (node_info \<times> node) outcome" where
  "GetNodeInfo = reading (\<lambda>n.
     \<lparr>ni_port = port n, ni_is_leader = isLeader n, ni_leader_id = leaderID n, ni_clients = length (clients n),
      ni_peers = length (peers n), ni_peer_ids = map snd (peerIDs n)\<rparr>)"

definition info_json :: "string \<Rightarrow> node_info \<Rightarrow> string" where
  \<comment> \<open>\<open>json.MarshalIndent\<close>: the keys sorted, two spaces of indentation\<close>
  "info_json uptime i =
     (let field = (\<lambda>k v. ([CHR 0x0A] @ ''  '' @ [CHR 0x22]) @ k @ ([CHR 0x22] @ '': '') @ v);
          ids = (if ni_peer_ids i = [] then ''[]''
                 else ''['' @ Join (map (\<lambda>p. ([CHR 0x0A] @ ''    '') @ Itoa p) (ni_peer_ids i)) '','' @ ([CHR 0x0A] @ ''  ]''))
      in ''{'' @ Join
           [field ''clients'' (show_nat (ni_clients i)),
            field ''is_leader'' (if ni_is_leader i then ''true'' else ''false''),
            field ''leader_id'' (Itoa (ni_leader_id i)),
            field ''max_clients'' (show_nat MaxClients), field ''max_peers'' (show_nat MaxPeers),
            field ''peer_ids'' ids, field ''peers'' (show_nat (ni_peers i)), field ''port'' (Itoa (ni_port i)),
            field ''uptime_sec'' uptime] '','' @ ([CHR 0x0A] @ ''}''))"

section \<open>Messages\<close>

definition cmd_active :: "node_env \<Rightarrow> nat \<Rightarrow> node \<Rightarrow> node outcome" where
  "cmd_active e conn n =
     obind (reading (\<lambda>n. map (\<lambda>(_, c).
         let status = Auth_GetStatus (n_auth n) (User c);
             status = (if status = [] then ''online'' else status)
         in User c @ '' ('' @ status @ '')'') (clients n)) n)
       (\<lambda>(users, n). sendToClient e 0 conn
          (''Online Users ('' @ show_nat (length users) @ ''): '' @ Join users '', '') n)"

definition cmd_dm :: "node_env \<Rightarrow> nat \<Rightarrow> string list \<Rightarrow> string \<Rightarrow> node \<Rightarrow> node outcome" where
  "cmd_dm e conn parts username n =
     (if length parts < 3 then sendToClient e 0 conn ''Usage: /dm <username> <message>'' n
      else Ret (enqueue (Some conn)
        (no_message\<lparr>Type := MsgTypeDirectMessage, ID := GenerateID (ne_draw e 0) (ne_now e), Sender := username,
           Recipient := parts ! 1, Content := Join (drop 2 parts) '' '', Timestamp := ne_now e\<rparr>) n))"

definition cmd_edit :: "node_env \<Rightarrow> nat \<Rightarrow> string list \<Rightarrow> string \<Rightarrow> node \<Rightarrow> node outcome" where
  "cmd_edit e conn parts username n =
     (if length parts < 3 then sendToClient e 0 conn ''Usage: /edit <message_id> <new text>'' n
      else
        (let msgID = parts ! 1; newText = Join (drop 2 parts) '' '' in
         case GetMessageByID msgID (n_storage n) of
           None \<Rightarrow> sendToClient e 0 conn ([CHR 0xE2, CHR 0x9D, CHR 0x8C] @ '' Message not found'') n
         | Some existing \<Rightarrow>
             if Sender existing \<noteq> username
             then sendToClient e 0 conn ([CHR 0xE2, CHR 0x9D, CHR 0x8C] @ '' You can only edit your own messages'') n
             else
               (let n = n\<lparr>n_storage := fst (UpdateMessage msgID newText (n_storage n))\<rparr>
                in Ret (enqueue (Some conn)
                  (no_message\<lparr>Type := MsgTypeEditMessage, ID := msgID, Sender := username, Content := newText,
                     Channel := Channel existing, Edited := True, Timestamp := ne_now e\<rparr>) n))))"

definition cmd_delete :: "node_env \<Rightarrow> nat \<Rightarrow> string list \<Rightarrow> string \<Rightarrow> node \<Rightarrow> node outcome" where
  "cmd_delete e conn parts username n =
     (if length parts < 2 then sendToClient e 0 conn ''Usage: /delete <message_id>'' n
      else
        (let msgID = parts ! 1 in
         case GetMessageByID msgID (n_storage n) of
           None \<Rightarrow> sendToClient e 0 conn ([CHR 0xE2, CHR 0x9D, CHR 0x8C] @ '' Message not found'') n
         | Some existing \<Rightarrow>
             if Sender existing \<noteq> username \<and> Auth_GetRole (n_auth n) username \<noteq> ''admin''
             then sendToClient e 0 conn ([CHR 0xE2, CHR 0x9D, CHR 0x8C] @ '' You can only delete your own messages (or be admin)'') n
             else
               (let n = n\<lparr>n_storage := fst (DeleteMessage msgID (n_storage n))\<rparr>
                in Ret (enqueue (Some conn)
                  (no_message\<lparr>Type := MsgTypeDeleteMessage, ID := msgID, Sender := username,
                     Content := ''Message deleted'', Channel := Channel existing, Timestamp := ne_now e\<rparr>) n))))"

definition cmd_react :: "node_env \<Rightarrow> nat \<Rightarrow> string list \<Rightarrow> string \<Rightarrow> node \<Rightarrow> node outcome" where
  "cmd_react e conn parts username n =
     (if length parts < 3 then sendToClient e 0 conn ''Usage: /react <message_id> <emoji>'' n
      else
        (let msgID = parts ! 1; emoji = parts ! 2;
             (s, found) = AddReaction msgID emoji username (n_storage n);
             n = n\<lparr>n_storage := s\<rparr>
         in if found
            then Ret (enqueue (Some conn)
              (no_message\<lparr>Type := MsgTypeReaction, ID := msgID, Sender := username, Content := emoji,
                 Timestamp := ne_now e, Metadata := Some [(''emoji'', emoji), (''target_id'', msgID)]\<rparr>) n)
            else sendToClient e 0 conn ([CHR 0xE2, CHR 0x9D, CHR 0x8C] @ '' Message not found'') n))"

definition cmd_reply :: "node_env \<Rightarrow> nat \<Rightarrow> wire_msg \<Rightarrow> string list \<Rightarrow> client_reg \<Rightarrow> node \<Rightarrow> node outcome" where
  "cmd_reply e conn msg parts client n =
     (if length parts < 3 then sendToClient e 0 conn ''Usage: /reply <message_id> <text>'' n
      else
        Ret (enqueue (Some conn)
          (msg\<lparr>Type := MsgTypeChat, ReplyTo := parts ! 1, Content := Join (drop 2 parts) '' '',
             Channel := (if ActiveChannel client = [] then ''general'' else ActiveChannel client)\<rparr>) n))"

definition valid_statuses :: "string list" where
  "valid_statuses = [''online'', ''away'', ''dnd'', ''offline'', ''idle'']"

definition cmd_status :: "node_env \<Rightarrow> nat \<Rightarrow> string list \<Rightarrow> string \<Rightarrow> node \<Rightarrow> node outcome" where
  "cmd_status e conn parts username n =
     (if length parts < 2 then sendToClient e 0 conn ''Usage: /status <online|away|dnd|offline>'' n
      else if parts ! 1 \<notin> set valid_statuses
        then sendToClient e 0 conn ''Invalid status. Use: online, away, dnd, idle, offline'' n
      else
        (let status = parts ! 1;
             n = n\<lparr>n_auth := Auth_SetStatus (ne_users e) (ne_now e) username status (n_auth n)\<rparr>
         in obind (sendToClient e 0 conn (''Status set to: '' @ status) n)
              (broadcastToClients
                (no_message\<lparr>Type := MsgTypeStatusChange, ID := GenerateID (ne_draw e 1) (ne_now e),
                   Sender := username, Content := status, Timestamp := ne_now e\<rparr>))))"

definition cmd_search :: "node_lib \<Rightarrow> node_env \<Rightarrow> nat \<Rightarrow> string list \<Rightarrow> node \<Rightarrow> node outcome" where
  "cmd_search L e conn parts n =
     (if length parts < 2 then sendToClient e 0 conn ''Usage: /search <query>'' n
      else
        (let results = SearchMessages (lib_lower L) (Join (tl parts) '' '') (n_storage n) in
         if results = [] then sendToClient e 0 conn ''No results found.'' n
         else obind (format_lines search_line results)
           (\<lambda>ls. sendToClient e 0 conn
              (([CHR 0xF0, CHR 0x9F, CHR 0x94, CHR 0x8D] @ '' Search results ('') @ show_nat (length results) @ (''):'' @ [CHR 0x0A]) @ Join ls [CHR 0x0A]) n)))"

definition cmd_history :: "node_env \<Rightarrow> nat \<Rightarrow> string list \<Rightarrow> client_reg \<Rightarrow> node \<Rightarrow> node outcome" where
  "cmd_history e conn parts client n =
     (let chName = (if 2 \<le> length parts then parts ! 1 else ActiveChannel client);
          chName = (if chName = [] then ''general'' else chName)
      in obind (GetChannelMessages chName 50 0 (n_storage n))
           (\<lambda>(msgs, total).
              if msgs = [] then sendToClient e 0 conn (''No history in #'' @ chName) n
              else obind (format_lines history_line msgs)
                (\<lambda>ls. sendToClient e 0 conn
                   (([CHR 0xF0, CHR 0x9F, CHR 0x93, CHR 0x9C] @ '' History #'') @ chName @ '' ('' @ show_nat (length msgs) @ ''/'' @ Itoa total @ (''):'' @ [CHR 0x0A])
                     @ Join ls [CHR 0x0A]) n)))"

definition cmd_typing :: "node_env \<Rightarrow> string \<Rightarrow> client_reg \<Rightarrow> node \<Rightarrow> node outcome" where
  "cmd_typing e username client =
     broadcastToClients
       (no_message\<lparr>Type := MsgTypeTyping, ID := GenerateID (ne_draw e 0) (ne_now e), Sender := username,
          Channel := ActiveChannel client, Timestamp := ne_now e\<rparr>)"

definition cmd_health :: "node_env \<Rightarrow> nat \<Rightarrow> node \<Rightarrow> node outcome" where
  "cmd_health e conn n =
     obind (GetNodeInfo n)
       (\<lambda>(info, n). sendToClient e 0 conn (([CHR 0xF0, CHR 0x9F, CHR 0x8F, CHR 0xA5] @ '' Node Health:'' @ [CHR 0x0A]) @ info_json (ne_uptime e) info) n)"

section \<open>Administration\<close>

definition admin_only :: "node_env \<Rightarrow> nat \<Rightarrow> string \<Rightarrow> string list \<Rightarrow> string \<Rightarrow> (string \<Rightarrow> node \<Rightarrow> node outcome) \<Rightarrow> node \<Rightarrow> node outcome" where
  \<comment> \<open>the checks the three commands below start with\<close>
  "admin_only e conn usage parts username act n =
     (if length parts < 2 then sendToClient e 0 conn usage n
      else if Auth_GetRole (n_auth n) username \<noteq> ''admin'' then sendToClient e 0 conn ([CHR 0xE2, CHR 0x9D, CHR 0x8C] @ '' Admin only'') n
      else act (parts ! 1) n)"

definition set_status :: "node_env \<Rightarrow> string \<Rightarrow> string \<Rightarrow> node \<Rightarrow> node" where
  "set_status e user status n = n\<lparr>n_auth := Auth_SetStatus (ne_users e) (ne_now e) user status (n_auth n)\<rparr>"

definition kick :: "node_env \<Rightarrow> string \<Rightarrow> node \<Rightarrow> node outcome" where
  \<comment> \<open>disconnecting the banned user: \<open>sendToClient\<close> is called with the lock held\<close>
  "kick e target n =
     obind (wlock n)
       (\<lambda>n. case find (\<lambda>(c, cl). User cl = target) (clients n) of
          None \<Rightarrow> Ret (wunlock n)
        | Some (c, cl) \<Rightarrow>
            obind (sendToClient e 1 c ''You have been banned from the server.'' n)
              (\<lambda>n. Ret (wunlock (n\<lparr>unreg := unreg n @ [c]\<rparr>))))"

definition handleAdminBan :: "node_env \<Rightarrow> nat \<Rightarrow> string list \<Rightarrow> string \<Rightarrow> node \<Rightarrow> node outcome" where
  "handleAdminBan e conn parts username =
     admin_only e conn ''Usage: /ban <username>'' parts username
       (\<lambda>target n.
          obind (sendToClient e 0 conn (([CHR 0xF0, CHR 0x9F, CHR 0x94, CHR 0xA8] @ '' '') @ target @ '' has been banned'') (set_status e target ''banned'' n))
            (kick e target))"

definition handleAdminMute :: "node_env \<Rightarrow> nat \<Rightarrow> string list \<Rightarrow> string \<Rightarrow> node \<Rightarrow> node outcome" where
  "handleAdminMute e conn parts username =
     admin_only e conn ''Usage: /mute <username>'' parts username
       (\<lambda>target n. sendToClient e 0 conn (([CHR 0xF0, CHR 0x9F, CHR 0x94, CHR 0x87] @ '' '') @ target @ '' has been muted'') (set_status e target ''muted'' n))"

definition handleAdminUnmute :: "node_env \<Rightarrow> nat \<Rightarrow> string list \<Rightarrow> string \<Rightarrow> node \<Rightarrow> node outcome" where
  "handleAdminUnmute e conn parts username =
     admin_only e conn ''Usage: /unmute <username>'' parts username
       (\<lambda>target n. sendToClient e 0 conn (([CHR 0xF0, CHR 0x9F, CHR 0x94, CHR 0x8A] @ '' '') @ target @ '' has been unmuted'') (set_status e target ''online'' n))"

section \<open>Channels\<close>

definition activate :: "nat \<Rightarrow> string \<Rightarrow> node \<Rightarrow> node outcome" where
  \<comment> \<open>\<open>c := n.clients[conn]; c.Channel = chName; n.clients[conn] = c\<close> under the lock\<close>
  "activate conn chName =
     writing (\<lambda>n. n\<lparr>clients := mput conn ((mget_or no_client (clients n) conn)\<lparr>ActiveChannel := chName\<rparr>) (clients n)\<rparr>)"

definition channel_create :: "node_env \<Rightarrow> nat \<Rightarrow> string list \<Rightarrow> string \<Rightarrow> node \<Rightarrow> node outcome" where
  "channel_create e conn parts username n =
     (if length parts < 3 then sendToClient e 0 conn ''Usage: /channel create <name> [private]'' n
      else
        (let chName = parts ! 2; isPrivate = (4 \<le> length parts \<and> parts ! 3 = ''private'');
             (cm, ok) = Manager_Create (ne_channels e) (ne_now e) chName username isPrivate (n_channels n);
             n = n\<lparr>n_channels := cm\<rparr>
         in if ok
            then sendToClient e 0 conn (([CHR 0xE2, CHR 0x9C, CHR 0x85] @ '' Channel #'') @ chName @ '' created ('' @
                   (if isPrivate then ''private'' else ''public'') @ '')'') n
            else sendToClient e 0 conn (([CHR 0xE2, CHR 0x9D, CHR 0x8C] @ '' Channel #'') @ chName @ '' already exists or invalid name'') n))"

definition channel_join :: "node_env \<Rightarrow> nat \<Rightarrow> string list \<Rightarrow> string \<Rightarrow> node \<Rightarrow> node outcome" where
  "channel_join e conn parts username n =
     (if length parts < 3 then sendToClient e 0 conn ''Usage: /channel join <name>'' n
      else
        (let chName = parts ! 2 in
         if \<not> Manager_Exists (n_channels n) chName
         then sendToClient e 0 conn (([CHR 0xE2, CHR 0x9D, CHR 0x8C] @ '' Channel #'') @ chName @ '' does not exist'') n
         else
           (let (cm, ok) = Manager_Join (ne_channels e) chName username (n_channels n); n = n\<lparr>n_channels := cm\<rparr>
            in if ok
               then obind (activate conn chName n)
                 (sendToClient e 0 conn (([CHR 0xE2, CHR 0x9C, CHR 0x85] @ '' Joined #'') @ chName @ '' (now your active channel)''))
               else Ret n)))"

definition channel_leave :: "node_env \<Rightarrow> nat \<Rightarrow> string list \<Rightarrow> string \<Rightarrow> node \<Rightarrow> node outcome" where
  "channel_leave e conn parts username n =
     (if length parts < 3 then sendToClient e 0 conn ''Usage: /channel leave <name>'' n
      else
        (let chName = parts ! 2;
             n = n\<lparr>n_channels := fst (Manager_Leave (ne_channels e) chName username (n_channels n))\<rparr>
         in obind (writing (\<lambda>n.
                let c = mget_or no_client (clients n) conn in
                if ActiveChannel c = chName
                then n\<lparr>clients := mput conn (c\<lparr>ActiveChannel := ''general''\<rparr>) (clients n)\<rparr> else n) n)
              (sendToClient e 0 conn (''Left #'' @ chName @ ''. Active channel: general''))))"

definition channel_switch :: "node_env \<Rightarrow> nat \<Rightarrow> string list \<Rightarrow> string \<Rightarrow> node \<Rightarrow> node outcome" where
  "channel_switch e conn parts username n =
     (if length parts < 3 then sendToClient e 0 conn ''Usage: /channel switch <name>'' n
      else
        (let chName = parts ! 2 in
         if \<not> Manager_IsMember (n_channels n) chName username
         then sendToClient e 0 conn (([CHR 0xE2, CHR 0x9D, CHR 0x8C] @ '' You are not a member of #'') @ chName @ ''. Join first.'') n
         else obind (activate conn chName n) (sendToClient e 0 conn (''Switched to #'' @ chName))))"

definition channel_list :: "node_env \<Rightarrow> nat \<Rightarrow> node \<Rightarrow> node outcome" where
  "channel_list e conn n =
     (let ls = map (\<lambda>ch. ''  #'' @ Name ch @ '' ('' @ (if IsPrivate ch then ''private'' else ''public'') @ '') - ''
                 @ Topic ch @ '' ['' @ show_nat (length (Members ch)) @ '' members]'') (Manager_List False (n_channels n))
      in if ls = [] then sendToClient e 0 conn ''No channels found.'' n
         else sendToClient e 0 conn (([CHR 0xF0, CHR 0x9F, CHR 0x93, CHR 0x8B] @ '' Channels:'' @ [CHR 0x0A]) @ Join ls [CHR 0x0A]) n)"

definition channel_topic :: "node_env \<Rightarrow> nat \<Rightarrow> string list \<Rightarrow> node \<Rightarrow> node outcome" where
  "channel_topic e conn parts n =
     (if length parts < 4 then sendToClient e 0 conn ''Usage: /channel topic <name> <topic text>'' n
      else
        (let chName = parts ! 2; topic = Join (drop 3 parts) '' '';
             (cm, ok) = Manager_SetTopic (ne_channels e) chName topic (n_channels n); n = n\<lparr>n_channels := cm\<rparr>
         in if ok then sendToClient e 0 conn (''Topic of #'' @ chName @ '' set to: '' @ topic) n
            else sendToClient e 0 conn (([CHR 0xE2, CHR 0x9D, CHR 0x8C] @ '' Channel #'') @ chName @ '' not found'') n))"

definition channel_info :: "node_env \<Rightarrow> nat \<Rightarrow> string list \<Rightarrow> node \<Rightarrow> node outcome" where
  "channel_info e conn parts n =
     (if length parts < 3 then sendToClient e 0 conn ''Usage: /channel info <name>'' n
      else
        (case Manager_Get (n_channels n) (parts ! 2) of
           None \<Rightarrow> sendToClient e 0 conn (([CHR 0xE2, CHR 0x9D, CHR 0x8C] @ '' Channel #'') @ parts ! 2 @ '' not found'') n
         | Some ch \<Rightarrow>
             (let members = map (\<lambda>(u, r). u @ ''('' @ r @ '')'') (Members ch)
              in sendToClient e 0 conn
                   (''#'' @ Name ch @ '' | Topic: '' @ Topic ch @ '' | Members: '' @ Join members '', '' @
                    '' | Created by '' @ CreatedBy ch) n)))"

definition handleChannelCommand :: "node_env \<Rightarrow> nat \<Rightarrow> string list \<Rightarrow> string \<Rightarrow> node \<Rightarrow> node outcome" where
  "handleChannelCommand e conn parts username n =
     (if length parts < 2
      then sendToClient e 0 conn ''Usage: /channel <create|join|leave|list|topic|info> [args...]'' n
      else
        (let sub = parts ! 1 in
         if sub = ''create'' then channel_create e conn parts username n
         else if sub = ''join'' then channel_join e conn parts username n
         else if sub = ''leave'' then channel_leave e conn parts username n
         else if sub = ''switch'' then channel_switch e conn parts username n
         else if sub = ''list'' then channel_list e conn n
         else if sub = ''topic'' then channel_topic e conn parts n
         else if sub = ''info'' then channel_info e conn parts n
         else sendToClient e 0 conn ''Unknown channel command. Use: create, join, leave, switch, list, topic, info'' n))"

section \<open>Dispatch\<close>

definition help_text :: string where
  "help_text =
     ([CHR 0xF0, CHR 0x9F, CHR 0x93, CHR 0x96] @ '' Available Commands:'' @ [CHR 0x0A] @ ''  /active, /users       '' @ [CHR 0xE2, CHR 0x80, CHR 0x94] @ '' List online users'' @ [CHR 0x0A]) @
     (''  /channel create|join|leave|switch|list|topic|info'' @ [CHR 0x0A]) @
     (''  /dm <user> <msg>      '' @ [CHR 0xE2, CHR 0x80, CHR 0x94] @ '' Direct message'' @ [CHR 0x0A]) @
     (''  /edit <id> <text>     '' @ [CHR 0xE2, CHR 0x80, CHR 0x94] @ '' Edit your message'' @ [CHR 0x0A]) @
     (''  /delete <id>          '' @ [CHR 0xE2, CHR 0x80, CHR 0x94] @ '' Delete a message'' @ [CHR 0x0A]) @
     (''  /react <id> <emoji>   '' @ [CHR 0xE2, CHR 0x80, CHR 0x94] @ '' React to a message'' @ [CHR 0x0A]) @
     (''  /reply <id> <text>    '' @ [CHR 0xE2, CHR 0x80, CHR 0x94] @ '' Reply to a message'' @ [CHR 0x0A]) @
     (''  /status <status>      '' @ [CHR 0xE2, CHR 0x80, CHR 0x94] @ '' Set status (online/away/dnd/idle)'' @ [CHR 0x0A]) @
     (''  /search <query>       '' @ [CHR 0xE2, CHR 0x80, CHR 0x94] @ '' Search messages'' @ [CHR 0x0A]) @
     (''  /history [channel]    '' @ [CHR 0xE2, CHR 0x80, CHR 0x94] @ '' View channel history'' @ [CHR 0x0A]) @
     (''  /health, /nodes       '' @ [CHR 0xE2, CHR 0x80, CHR 0x94] @ '' Node health info'' @ [CHR 0x0A]) @
     (''  /ban <user>           '' @ [CHR 0xE2, CHR 0x80, CHR 0x94] @ '' Ban user (admin)'' @ [CHR 0x0A]) @
     (''  /mute <user>          '' @ [CHR 0xE2, CHR 0x80, CHR 0x94] @ '' Mute user (admin)'' @ [CHR 0x0A]) @
     (''  /unmute <user>        '' @ [CHR 0xE2, CHR 0x80, CHR 0x94] @ '' Unmute user (admin)'' @ [CHR 0x0A]) @
     (''  /clear                '' @ [CHR 0xE2, CHR 0x80, CHR 0x94] @ '' Clear terminal'' @ [CHR 0x0A]) @
     (''  /help                 '' @ [CHR 0xE2, CHR 0x80, CHR 0x94] @ '' Show this help'')"

definition run_command ::
  "node_lib \<Rightarrow> node_env \<Rightarrow> nat \<Rightarrow> wire_msg \<Rightarrow> string list \<Rightarrow> client_reg \<Rightarrow> node \<Rightarrow> node outcome" where
  \<comment> \<open>the \<open>switch\<close> of \<open>handleCommand\<close>\<close>
  "run_command L e conn msg parts client n =
     (let cmd = hd parts; username = User client in
      if cmd = ''/active'' \<or> cmd = ''/users'' then cmd_active e conn n
      else if cmd = ''/channel'' then handleChannelCommand e conn parts username n
      else if cmd = ''/dm'' then cmd_dm e conn parts username n
      else if cmd = ''/edit'' then cmd_edit e conn parts username n
      else if cmd = ''/delete'' then cmd_delete e conn parts username n
      else if cmd = ''/react'' then cmd_react e conn parts username n
      else if cmd = ''/reply'' then cmd_reply e conn msg parts client n
      else if cmd = ''/status'' then cmd_status e conn parts username n
      else if cmd = ''/search'' then cmd_search L e conn parts n
      else if cmd = ''/history'' then cmd_history e conn parts client n
      else if cmd = ''/typing'' then cmd_typing e username client n
      else if cmd = ''/health'' \<or> cmd = ''/nodes'' then cmd_health e conn n
      else if cmd = ''/ban'' then handleAdminBan e conn parts username n
      else if cmd = ''/mute'' then handleAdminMute e conn parts username n
      else if cmd = ''/unmute'' then handleAdminUnmute e conn parts username n
      else if cmd = ''/help'' then sendToClient e 0 conn help_text n
      else if cmd = ''/clear'' then Ret n
      else sendToClient e 0 conn (''Unknown command: '' @ cmd @ ''. Type /help for available commands.'') n)"

definition handleCommand :: "node_lib \<Rightarrow> node_env \<Rightarrow> nat \<Rightarrow> wire_msg \<Rightarrow> string \<Rightarrow> node \<Rightarrow> node outcome" where
  "handleCommand L e conn msg content n =
     obind (reading (\<lambda>n. mget_or no_client (clients n) conn) n)
       (\<lambda>(client, n). run_command L e conn msg (Fields content) client n)"

definition client_message :: "node_lib \<Rightarrow> node_env \<Rightarrow> nat \<Rightarrow> wire_msg \<Rightarrow> node \<Rightarrow> node outcome" where
  \<comment> \<open>one round of \<open>handleClientLoop\<close>\<close>
  "client_message L e conn msg n =
     (let msg = (if ID msg = [] then msg\<lparr>ID := GenerateID (ne_draw e 8) (ne_now e)\<rparr> else msg);
          content = TrimSpace (Content msg)
      in if HasPrefix content ''/'' then handleCommand L e conn msg content n
         else obind (reading (\<lambda>n. mget_or no_client (clients n) conn) n)
           (\<lambda>(client, n).
              let (l, allowed) = Allow (tnanos (ne_now e)) (User client) (n_limiter n); n = n\<lparr>n_limiter := l\<rparr> in
              if \<not> allowed then sendToClient e 0 conn ([CHR 0xE2, CHR 0x9A, CHR 0xA0, CHR 0xEF, CHR 0xB8, CHR 0x8F] @ '' Rate limit exceeded. Slow down.'') n
              else if Auth_GetStatus (n_auth n) (User client) = ''muted''
                then sendToClient e 0 conn ([CHR 0xF0, CHR 0x9F, CHR 0x94, CHR 0x87] @ '' You are muted.'') n
              else
                (let ch = (if Channel msg \<noteq> [] then Channel msg
                           else if ActiveChannel client \<noteq> [] then ActiveChannel client else ''general'')
                 in Ret (enqueue (Some conn) (msg\<lparr>Sender := User client, Channel := ch\<rparr>) n))))"

end
