(* ===== verification/Peer.thy ===== *)
theory Peer
  imports Commands
begin

text \<open>
  \<open>internal/node/peer.go\<close>: dialling a peer, heartbeats, the monitor that drops silent peers, the election loop, and
  what is done with one message of a peer. A peer is whoever says so in its first message
  (\<open>handle_first\<close>): there are no credentials. Only the side that accepts a connection learns the other's port
  (\<open>peerIDs\<close>), the side that dials does not.
\<close>

definition dial_peer :: "node_env \<Rightarrow> nat \<Rightarrow> node \<Rightarrow> node outcome" where
  \<comment> \<open>\<open>Join\<close>, for one address, where the connection is made and the handshake is sent\<close>
  "dial_peer e conn n =
     (let n = SendMessage conn (no_message\<lparr>Type := MsgTypePeerHandshake, Sender := ''Node'', Content := Itoa (port n)\<rparr>) n
      in obind (writing (\<lambda>n. n\<lparr>peers := mput conn (ne_now e) (peers n)\<rparr>) n)
           (\<lambda>n. Ret (set_phase conn PeerLoop (n\<lparr>active_peers := active_peers n + 1\<rparr>))))"

definition heartbeat :: "node_env \<Rightarrow> node \<Rightarrow> node outcome" where
  "heartbeat e = broadcastToPeers (no_message\<lparr>Type := MsgTypeHeartbeat, Sender := ''Node'', Timestamp := ne_now e\<rparr>)"

definition timed_out :: "gotime \<Rightarrow> gotime \<Rightarrow> bool" where
  "timed_out now lastSeen = (PeerTimeout < duration_sub (tnanos now) (tnanos lastSeen))"

definition monitor :: "node_env \<Rightarrow> node \<Rightarrow> node outcome" where
  "monitor e = writing (\<lambda>n.
     let gone = map fst (filter (\<lambda>(_, t). timed_out (ne_now e) t) (peers n))
     in n\<lparr>closed_conns := gone @ closed_conns n,
          peers := filter (\<lambda>(_, t). \<not> timed_out (ne_now e) t) (peers n),
          peerIDs := filter (\<lambda>(c, _). c \<notin> set gone) (peerIDs n)\<rparr>)"

definition highest :: "node \<Rightarrow> bool" where
  "highest n = list_all (\<lambda>(_, i). \<not> port n < i) (peerIDs n)"

definition election :: "node \<Rightarrow> node outcome" where
  \<comment> \<open>one tick of \<open>startElectionLoop\<close>\<close>
  "election n =
     obind (wlock n)
       (\<lambda>n. if highest n \<and> \<not> isLeader n
            then broadcastToPeers
              (no_message\<lparr>Type := MsgTypeCoordinator, Sender := ''Node'', Content := Itoa (port n)\<rparr>)
              (wunlock (n\<lparr>isLeader := True, leaderID := port n\<rparr>))
            else if \<not> highest n \<and> isLeader n then Ret (wunlock (n\<lparr>isLeader := False\<rparr>))
            else Ret (wunlock n))"

definition coordinator :: "int \<Rightarrow> node \<Rightarrow> node outcome" where
  "coordinator newLeaderID =
     writing (\<lambda>n. if port n < newLeaderID then n\<lparr>isLeader := False, leaderID := newLeaderID\<rparr> else n)"

definition note_remote :: "wire_msg \<Rightarrow> node \<Rightarrow> node outcome" where
  \<comment> \<open>a join or leave message keeps the set of remote users\<close>
  "note_remote msg n =
     (let parts = Split (Content msg) CHR '' '' in
      if 2 \<le> length parts then
        (if Type msg = MsgTypeJoin then writing (\<lambda>n. n\<lparr>remoteUsers := mput (parts ! 1) True (remoteUsers n)\<rparr>) n
         else if Type msg = MsgTypeLeave then writing (\<lambda>n. n\<lparr>remoteUsers := mdel (parts ! 1) (remoteUsers n)\<rparr>) n
         else Ret n)
      else Ret n)"

definition apply_peer :: "node_lib \<Rightarrow> node_env \<Rightarrow> nat \<Rightarrow> wire_msg \<Rightarrow> node \<Rightarrow> (bool \<times> node) outcome" where
  \<comment> \<open>the \<open>switch\<close> of \<open>handlePeerMessage\<close>; true where it does not \<open>continue\<close>\<close>
  "apply_peer L e conn msg n =
     (case Type msg of
        MsgTypeHeartbeat \<Rightarrow> Ret (False, n)
      | MsgTypeCoordinator \<Rightarrow>
          obind (coordinator (Sscanf_d (Content msg) 0) n) (\<lambda>n. Ret (False, n))
      | MsgTypeSyncRequest \<Rightarrow>
          Ret (False, fold (SendMessage conn) (GetMessagesAfter (Timestamp msg) (n_storage n)) n)
      | MsgTypeUserSync \<Rightarrow>
          (case lib_strings L (Content msg) of
             None \<Rightarrow> Ret (False, n)
           | Some us \<Rightarrow>
               obind (writing (\<lambda>n. n\<lparr>remoteUsers := fold (\<lambda>u. mput u True) us (remoteUsers n)\<rparr>) n)
                 (\<lambda>n. Ret (False, n)))
      | MsgTypeEditMessage \<Rightarrow> Ret (True, n\<lparr>n_storage := fst (UpdateMessage (ID msg) (Content msg) (n_storage n))\<rparr>)
      | MsgTypeDeleteMessage \<Rightarrow> Ret (True, n\<lparr>n_storage := fst (DeleteMessage (ID msg) (n_storage n))\<rparr>)
      | MsgTypeReaction \<Rightarrow>
          Ret (True, if Metadata msg \<noteq> None
             then n\<lparr>n_storage := fst (AddReaction (ID msg) (Content msg) (Sender msg) (n_storage n))\<rparr> else n)
      | t \<Rightarrow>
          if t = MsgTypeChat \<or> t = MsgTypeJoin \<or> t = MsgTypeLeave \<or> t = MsgTypeImage
          then obind (note_remote msg n)
            (\<lambda>n. Ret (True, n\<lparr>n_storage := fst (Save (env_save e) msg (n_storage n))\<rparr>))
          else Ret (True, n))"

definition peer_message :: "node_lib \<Rightarrow> node_env \<Rightarrow> nat \<Rightarrow> wire_msg \<Rightarrow> node \<Rightarrow> node outcome" where
  \<comment> \<open>one round of \<open>handlePeerMessage\<close>\<close>
  "peer_message L e conn msg n =
     obind (writing (\<lambda>n. n\<lparr>peers := mput conn (ne_now e) (peers n)\<rparr>) n)
       (\<lambda>n. obind (apply_peer L e conn msg n)
         (\<lambda>(go_on, n). if go_on then broadcastToClients msg n else Ret n))"

definition peer_end :: "nat \<Rightarrow> node \<Rightarrow> node outcome" where
  \<comment> \<open>\<open>Decode\<close> fails, and the deferred calls run\<close>
  "peer_end conn n =
     obind (writing (\<lambda>n. n\<lparr>peers := mdel conn (peers n), peerIDs := mdel conn (peerIDs n)\<rparr>) n)
       (\<lambda>n. Ret (close_conn conn (n\<lparr>active_peers := active_peers n - 1\<rparr>)))"

end
