(* ===== verification/SshBridge.thy ===== *)
theory SshBridge
  imports Commands
begin

text \<open>
  \<open>internal/node/ssh_bridge.go\<close> and \<open>internal/ssh/server.go\<close>: an SSH session as a client of the node. A scanner
  reads the lines the user types, encrypts them where a key is set, and writes them as messages into a pipe, which
  the session's \<open>handleClientLoop\<close> reads; \<open>adapter_write\<close> is what the session shows for a message the node sends.
  Left out are the two lines of welcome text written to the session, and further sessions in one SSH connection: each
  is here a connection of its own, with a login of its own.
  The scanner of \<open>bufio\<close> delivers lines shorter than 64 KiB without their newline (\<open>scanner_text\<close>).
\<close>

definition scanner_text :: "string \<Rightarrow> bool" where
  "scanner_text text = (CHR 0x0A \<notin> set text \<and> length text < 64 * 1024)"

definition ssh_content :: "node_lib \<Rightarrow> node_env \<Rightarrow> string \<Rightarrow> string \<Rightarrow> string outcome" where
  \<comment> \<open>a line that cannot be encrypted is sent as it is\<close>
  "ssh_content L e key text =
     (if key = [] then Ret text
      else obind (Encrypt (lib_argon L) (lib_gcm L) (ne_enc_salt e) (ne_enc_nonce e) text key)
        (\<lambda>r. Ret (case r of None \<Rightarrow> text | Some encrypted \<Rightarrow> encrypted)))"

definition ssh_message :: "node_env \<Rightarrow> string \<Rightarrow> string \<Rightarrow> wire_msg" where
  "ssh_message e user content =
     no_message\<lparr>Type := MsgTypeChat, ID := GenerateID (ne_draw e 7) (ne_now e), Sender := user,
       Content := content, Channel := ''general'', Timestamp := ne_now e\<rparr>"

definition ssh_session :: "node_env \<Rightarrow> nat \<Rightarrow> string \<Rightarrow> node \<Rightarrow> node" where
  \<comment> \<open>\<open>JoinSSH\<close> up to \<open>n.register <- clientReg\<close>\<close>
  "ssh_session e conn user n =
     set_phase conn (Registering False \<lparr>User = user, Send = Some [], ActiveChannel = ''general''\<rparr>)
       (n\<lparr>n_channels := fst (Manager_Join (ne_channels e) ''general'' user (n_channels n)),
          ssh_conns := (conn, user) # ssh_conns n, ssh_open := conn # ssh_open n\<rparr>)"

definition ssh_line :: "node_lib \<Rightarrow> node_env \<Rightarrow> nat \<Rightarrow> string \<Rightarrow> node \<Rightarrow> node outcome" where
  \<comment> \<open>one round of the scanner: marshalling and decoding change a message as \<open>transmit\<close> says\<close>
  "ssh_line L e conn text n =
     obind (ssh_content L e (sshKey n) text)
       (\<lambda>content. case transmit (ssh_message e (mget_or [] (ssh_conns n) conn) content) of
          None \<Rightarrow> Ret n
        | Some msg \<Rightarrow> Ret (n\<lparr>ssh_pipe := ssh_pipe n @ [(conn, msg)]\<rparr>))"

definition ssh_end :: "nat \<Rightarrow> node \<Rightarrow> node" where
  \<comment> \<open>the scanner ends: \<open>adapter.Close()\<close>, then it waits to unregister\<close>
  "ssh_end conn n =
     n\<lparr>ssh_open := filter (\<lambda>c. c \<noteq> conn) (ssh_open n), closed_conns := conn # closed_conns n,
       unreg := unreg n @ [conn]\<rparr>"

definition ssh_shown :: "message_type \<Rightarrow> bool" where
  "ssh_shown t = (t = MsgTypeChat \<or> t = MsgTypeImage \<or> t = MsgTypeJoin \<or> t = MsgTypeLeave)"

definition adapter_content :: "node_lib \<Rightarrow> string \<Rightarrow> wire_msg \<Rightarrow> string outcome" where
  "adapter_content L key msg =
     (if Type msg = MsgTypeImage then Ret ''[Image Attachment]''
      else if key \<noteq> [] \<and> (Type msg = MsgTypeChat \<or> Type msg = MsgTypeJoin \<or> Type msg = MsgTypeLeave)
      then obind (Decrypt (lib_argon L) (lib_gcm L) (Content msg) key)
        (\<lambda>r. Ret (case r of
             Some decrypted \<Rightarrow> decrypted @ '' [E2EE]''
           | None \<Rightarrow>
               (let preview = (if 10 < length (Content msg) then take 10 (Content msg) else Content msg)
                in ''[Encrypted blob: '' @ preview @ ''...]'')))
      else Ret (Content msg))"

definition adapter_write :: "node_lib \<Rightarrow> string \<Rightarrow> wire_msg \<Rightarrow> string option outcome" where
  \<comment> \<open>\<open>SSHAdapterPipe.Write\<close> on a message: what it writes to the session, if anything\<close>
  "adapter_write L key msg =
     (if \<not> ssh_shown (Type msg) then Ret None
      else obind (adapter_content L key msg)
        (\<lambda>content.
           let editTag = (if Edited msg then '' (edited)'' else []);
               chTag = (if Channel msg \<noteq> [] \<and> Channel msg \<noteq> ''general'' then '' #'' @ Channel msg else [])
           in Ret (Some (''['' @ Kitchen (Timestamp msg) @ '']'' @ chTag @ '' '' @ Sender msg @ '': '' @ content @
                editTag @ [CHR 0x0D, CHR 0x0A]))))"

end
