(* ===== verification/NodeSteps.thy ===== *)
theory NodeSteps
  imports Peer SshBridge
begin

text \<open>
  The steps of the node: an \<open>event\<close> is something that happens to one of its goroutines (a message arrives, a timer
  ticks, the event loop picks a waiting sender), and \<open>node_step\<close> is what the goroutine then does up to the next
  point where it waits. Any sequence of events is a run: it interleaves the goroutines in some way. What happens
  within one step is not interleaved with other goroutines.
\<close>

datatype event =
    AcceptEv nat
  | FirstEv nat wire_msg
  | FirstFailEv nat
  | SshEv nat string string
  | SshLineEv nat string
  | SshMsgEv nat
  | SshEndEv nat
  | RegisterEv nat
  | WelcomeEv nat
  | ClientEv nat wire_msg
  | ClientEndEv nat
  | UnregisterEv nat
  | BroadcastEv nat
  | PumpEv nat
  | DialEv nat
  | PeerEv nat wire_msg
  | PeerEndEv nat
  | HeartbeatEv
  | MonitorEv
  | ElectionEv
  | CompactEv
  | CleanupEv
  | InjectEv wire_msg

definition in_phase :: "nat \<Rightarrow> phase \<Rightarrow> node \<Rightarrow> bool" where
  "in_phase conn p n = (mget (phases n) conn = Some p)"

definition waiting :: "nat \<Rightarrow> node \<Rightarrow> bool" where
  \<comment> \<open>the connection's loop waits to send on \<open>n.broadcast\<close>\<close>
  "waiting conn n = list_ex (\<lambda>(who, _). who = Some conn) (bcast n)"

definition scanner_idle :: "nat \<Rightarrow> node \<Rightarrow> bool" where
  \<comment> \<open>the scanner of an SSH session is not blocked on the pipe: all it wrote was decoded, and at most the last
     message is being handled by the session's loop\<close>
  "scanner_idle c n =
     (c \<in> set (ssh_open n) \<and>
      (let k = length (filter (\<lambda>(d, _). d = c) (ssh_pipe n))
       in k = 0 \<or> k = 1 \<and> in_phase c ClientLoop n \<and> \<not> waiting c n))"

definition ssh_accept :: "node_lib \<Rightarrow> node_env \<Rightarrow> nat \<Rightarrow> string \<Rightarrow> string \<Rightarrow> node \<Rightarrow> node outcome" where
  \<comment> \<open>the handlers \<open>StartServer\<close> installs: the password is checked, then the session is handled\<close>
  [simp]: "ssh_accept L e conn user pass n =
     obind (CheckAuth L e user pass n) (\<lambda>(ok, n). Ret (if ok then ssh_session e conn user n else n))"

definition first_fails :: "nat \<Rightarrow> node \<Rightarrow> node" where
  \<comment> \<open>in \<open>handleConnection\<close>: \<open>Decode\<close> of the first message fails\<close>
  [simp]: "first_fails conn n = close_conn conn n"

definition compaction_tick :: "node_env \<Rightarrow> node \<Rightarrow> node" where
  [simp]: "compaction_tick e n =
     n\<lparr>n_storage := fst (CompactAOF (ne_compact e) ''.'' (port n) (n_storage n))\<rparr>"

definition cleanup_tick :: "node_env \<Rightarrow> node \<Rightarrow> node" where
  [simp]: "cleanup_tick e n =
     n\<lparr>n_limiter := Cleanup (10 * 60 * 10 ^ 9) (tnanos (ne_now e)) (n_limiter n)\<rparr>"

fun node_step :: "node_lib \<Rightarrow> node_env \<Rightarrow> event \<Rightarrow> node \<Rightarrow> node outcome" where
  \<comment> \<open>an event that cannot happen now changes nothing\<close>
  "node_step L e (AcceptEv c) n = (if mget (phases n) c = None then handle_accept c n else Ret n)"
| "node_step L e (FirstEv c msg) n = (if in_phase c Greeting n then handle_first L e c msg n else Ret n)"
| "node_step L e (FirstFailEv c) n = (if in_phase c Greeting n then Ret (first_fails c n) else Ret n)"
| "node_step L e (SshEv c user pass) n =
     (if mget (phases n) c = None then ssh_accept L e c user pass n else Ret n)"
| "node_step L e (SshLineEv c text) n =
     (if scanner_idle c n \<and> scanner_text text then ssh_line L e c text n else Ret n)"
| "node_step L e (SshMsgEv c) n =
     (case mget (ssh_pipe n) c of
        Some msg \<Rightarrow>
          if in_phase c ClientLoop n \<and> \<not> waiting c n
          then client_message L e c msg (n\<lparr>ssh_pipe := delete_first (\<lambda>(d, _). d = c) (ssh_pipe n)\<rparr>)
          else Ret n
      | None \<Rightarrow> Ret n)"
| "node_step L e (SshEndEv c) n = (if scanner_idle c n then Ret (ssh_end c n) else Ret n)"
| "node_step L e (RegisterEv c) n =
     (case mget (phases n) c of
        Some (Registering history reg) \<Rightarrow>
          handle_register e c reg (set_phase c (if history then Welcoming (User reg) else ClientLoop) n)
      | _ \<Rightarrow> Ret n)"
| "node_step L e (WelcomeEv c) n =
     (case mget (phases n) c of Some (Welcoming user) \<Rightarrow> handle_welcome e c user n | _ \<Rightarrow> Ret n)"
| "node_step L e (ClientEv c msg) n =
     (if mget (ssh_conns n) c = None \<and> in_phase c ClientLoop n \<and> \<not> waiting c n then client_message L e c msg n else Ret n)"
| "node_step L e (ClientEndEv c) n =
     (if in_phase c ClientLoop n \<and> \<not> waiting c n then Ret (handle_client_end c n) else Ret n)"
| "node_step L e (UnregisterEv c) n =
     (if c \<in> set (unreg n) then handle_unregister e c (n\<lparr>unreg := remove1 c (unreg n)\<rparr>) else Ret n)"
| "node_step L e (BroadcastEv i) n =
     (if i < length (bcast n)
      then handle_broadcast e (snd (bcast n ! i)) (n\<lparr>bcast := take i (bcast n) @ drop (Suc i) (bcast n)\<rparr>)
      else Ret n)"
| "node_step L e (PumpEv c) n = Ret (pump c n)"
| "node_step L e (DialEv c) n = (if mget (phases n) c = None then dial_peer e c n else Ret n)"
| "node_step L e (PeerEv c msg) n = (if in_phase c PeerLoop n then peer_message L e c msg n else Ret n)"
| "node_step L e (PeerEndEv c) n = (if in_phase c PeerLoop n then peer_end c n else Ret n)"
| "node_step L e HeartbeatEv n = heartbeat e n"
| "node_step L e MonitorEv n = monitor e n"
| "node_step L e ElectionEv n = election n"
| "node_step L e CompactEv n = Ret (compaction_tick e n)"
| "node_step L e CleanupEv n = Ret (cleanup_tick e n)"
| "node_step L e (InjectEv msg) n = Ret (InjectMessage e msg n)"

definition node_run :: "node_lib \<Rightarrow> (node_env \<times> event) list \<Rightarrow> node \<Rightarrow> node outcome" where
  "node_run L = orun (\<lambda>(e, ev). node_step L e ev)"

lemma node_run_simps [simp]:
  "node_run L [] n = Ret n"
  "node_run L ((e, ev) # evs) n = obind (node_step L e ev n) (node_run L evs)"
  by (simp_all add: node_run_def)

end
