(* ===== verification/NodeDemo.thy ===== *)
theory NodeDemo
  imports NodeSteps
begin

text \<open>
  A small concrete server: three users who are online and members of \<open>general\<close> (\<open>alice\<close>, the admin, on connection 1,
  \<open>bob\<close> on 2, \<open>mallory\<close> on 3, over SSH), an empty store, and an environment in which nothing fails. The theorems
  about the node are applied to it.
\<close>

definition demo_lib :: node_lib where
  "demo_lib = \<lparr>lib_argon = toy_argon2, lib_gcm = toy_gcm, lib_lower = (\<lambda>r. r), lib_strings = (\<lambda>_. None)\<rparr>"

definition demo_env :: node_env where
  "demo_env =
     \<lparr>ne_now = zero_time, ne_draw = (\<lambda>_. Some ''12345678''), ne_salt = Some ''0123456789abcdef'',
      ne_enc_salt = Some ''0123456789abcdef'', ne_enc_nonce = (\<lambda>_. Some ''nonce-nonce-''),
      ne_users = no_faults, ne_channels = no_faults, ne_save = Written, ne_compact = compact_ok, ne_uptime = ''1''\<rparr>"

definition demo_profile :: "string \<Rightarrow> string \<Rightarrow> user_profile" where
  "demo_profile name role =
     \<lparr>PasswordHash = ''x'', Role = role, DisplayName = name, Status = ''online'', LastSeen = zero_time\<rparr>"

definition demo_auth :: authenticator where
  "demo_auth =
     \<lparr>users = [(''alice'', demo_profile ''alice'' ''admin''), (''bob'', demo_profile ''bob'' ''member''),
               (''mallory'', demo_profile ''mallory'' ''member'')],
      failedAttempts = [], dirty = False, auth_fs = []\<rparr>"

definition demo_channels :: manager where
  "demo_channels =
     \<lparr>channels = [(''general'', (general_channel zero_time)
        \<lparr>Members := [(''alice'', RoleMember), (''bob'', RoleMember), (''mallory'', RoleMember)]\<rparr>)], mgr_fs = []\<rparr>"

definition demo_client :: "string \<Rightarrow> client_reg" where
  "demo_client name = \<lparr>User = name, Send = Some [], ActiveChannel = ''general''\<rparr>"

definition demo_node :: node where
  "demo_node =
     \<lparr>port = 8000,
      clients = [(1, demo_client ''alice''), (2, demo_client ''bob''), (3, demo_client ''mallory'')],
      remoteUsers = [], peers = [], peerIDs = [], n_storage = test_store 1024, n_auth = demo_auth,
      n_channels = demo_channels, n_limiter = NewLimiter 10 20, isLeader = False, leaderID = 0, sshKey = [],
      n_mu = Readers 0, bcast = [], unreg = [], phases = [(1, ClientLoop), (2, ClientLoop), (3, ClientLoop)],
      outbox = [], closed_conns = [], connected_clients = 3, active_peers = 0, messages_total = 0,
      ssh_conns = [(3, ''mallory'')], ssh_open = [3], ssh_pipe = []\<rparr>"

definition says :: "string \<Rightarrow> wire_msg" where
  \<comment> \<open>a chat message as a client sends it\<close>
  "says content = no_message\<lparr>Type := MsgTypeChat, Content := content\<rparr>"

lemma demo_simps [simp]:
  "lib_argon demo_lib = toy_argon2" "lib_gcm demo_lib = toy_gcm" "ne_now demo_env = zero_time"
  "n_mu demo_node = Readers 0" "n_auth demo_node = demo_auth" "n_storage demo_node = test_store 1024"
  "port demo_node = 8000" "bcast demo_node = []" "unreg demo_node = []" "peers demo_node = []"
  "peerIDs demo_node = []" "outbox demo_node = []" "sshKey demo_node = []" "ssh_pipe demo_node = []"
  "n_channels demo_node = demo_channels" "n_limiter demo_node = NewLimiter 10 20"
  by (simp_all add: demo_lib_def demo_env_def demo_node_def)

lemmas text_eval = TrimSpace_def trim_left.simps trim_right_rev.simps ascii_space_def wide_space_def
  Fields_def flush_field_def HasPrefix_def

lemma demo_maps [simp]:
  "clients demo_node = [(1, demo_client ''alice''), (2, demo_client ''bob''), (3, demo_client ''mallory'')]"
  "phases demo_node = [(1, ClientLoop), (2, ClientLoop), (3, ClientLoop)]"
  "ssh_conns demo_node = [(3, ''mallory'')]" "ssh_open demo_node = [3]"
  "User (demo_client u) = u" "Send (demo_client u) = Some []" "ActiveChannel (demo_client u) = ''general''"
  by (simp_all add: demo_node_def demo_client_def)

lemma demo_roles [simp]:
  "Auth_GetRole demo_auth ''alice'' = ''admin''" "Auth_GetRole demo_auth ''bob'' = ''member''"
  "Auth_GetRole demo_auth ''mallory'' = ''member''"
  by (simp_all add: Auth_GetRole_def demo_auth_def demo_profile_def)

lemma says_simps [simp]:
  "Type (says t) = MsgTypeChat" "Content (says t) = t" "ID (says t) = []" "Sender (says t) = []"
  "Channel (says t) = []" "Recipient (says t) = []" "Timestamp (says t) = zero_time"
  by (simp_all add: says_def)

lemma toy_argon2_not_Blocked [simp]: "IDKey toy_argon2 p s t m th k \<noteq> Blocked"
  by (simp add: toy_argon2_def)

end
