(* ===== verification/NodeSystem.thy ===== *)
theory NodeSystem
  imports NodeDemo
begin

text \<open>
  The node as a system (\<open>internal/node\<close>, theories \<open>Node\<close>, \<open>Commands\<close>, \<open>Peer\<close>): its steps never block on the
  node's lock but for one, and keep its invariant.
\<close>

section \<open>The lock is free between steps\<close>

abbreviation free :: "node \<Rightarrow> bool" where
  "free n \<equiv> n_mu n = Readers 0"

lemma reading_free: "free n \<Longrightarrow> reading f n = Ret (f (n\<lparr>n_mu := Readers 1\<rparr>), n)"
  by (simp add: reading_def rlock_def runlock_def)

lemma writing_free: "free n \<Longrightarrow> writing f n = Ret ((f (n\<lparr>n_mu := Writer\<rparr>))\<lparr>n_mu := Readers 0\<rparr>)"
  by (simp add: writing_def wlock_def wunlock_def)

section \<open>What the first message of a connection does\<close>

lemma handle_first_cases:
  assumes "handle_first L e d msg n = Ret n'" and "free n"
  obtains (peer) k m where "Type msg = MsgTypePeerHandshake"
      "k = n\<lparr>peers := mput d (ne_now e) (peers n), peerIDs := mput d (Sscanf_d (Content msg) 0) (peerIDs n),
        active_peers := active_peers n + 1\<rparr>"
      "n' = set_phase d PeerLoop k \<or> n' = set_phase d PeerLoop (SendMessage d m k)"
    | (login) u p a where "Type msg = MsgTypeLogin" "ParseCredentials (Content msg) = (u, p)"
      "Auth_Check (lib_argon L) (ne_users e) (ne_now e) (ne_salt e) u p (n_auth n) = Ret (a, True)"
      "n' = set_phase d (Registering True \<lparr>User = u, Send = Some [], ActiveChannel = ''general''\<rparr>)
        (SendMessage d (auth_result ''OK'') (n\<lparr>n_auth := a\<rparr>))"
    | (denied) u p a where "Type msg = MsgTypeLogin" "ParseCredentials (Content msg) = (u, p)"
      "Auth_Check (lib_argon L) (ne_users e) (ne_now e) (ne_salt e) u p (n_auth n) = Ret (a, False)"
      "n' = close_conn d (SendMessage d (auth_result ''FAIL'') (n\<lparr>n_auth := a\<rparr>))"
    | (register) u p a ok where "Type msg = MsgTypeRegister" "ParseCredentials (Content msg) = (u, p)"
      "Auth_Register (lib_argon L) (ne_users e) (ne_now e) (ne_salt e) u p (n_auth n) = Ret (a, ok)"
      "n' = close_conn d (SendMessage d (auth_result (if ok then ''OK_REGISTERED'' else ''FAIL_EXISTS'')) (n\<lparr>n_auth := a\<rparr>))"
    | (other) "Type msg \<notin> {MsgTypePeerHandshake, MsgTypeLogin, MsgTypeRegister}"
      "n' = close_conn d (SendMessage d (auth_result ''AUTH_REQUIRED'') n)"
proof -
  obtain u p where c: "ParseCredentials (Content msg) = (u, p)" by fastforce
  consider "Type msg = MsgTypePeerHandshake" | "Type msg = MsgTypeLogin" | "Type msg = MsgTypeRegister"
    | "Type msg \<notin> {MsgTypePeerHandshake, MsgTypeLogin, MsgTypeRegister}" by blast
  then show thesis
  proof cases
    case 1
    have unlocked: "n\<lparr>peers := x, peerIDs := y, active_peers := k, n_mu := Readers 0\<rparr> = n\<lparr>peers := x, peerIDs := y, active_peers := k\<rparr>" for x y k
      using assms(2) by (cases n) simp
    show thesis using 1 assms peer [OF 1 refl]
      by (auto simp: handle_first_def writing_free wlock_def wunlock_def unlocked Let_def split: if_splits)
  next
    case 2
    with assms(1) c login [OF 2 c] denied [OF 2 c] show thesis
      by (auto simp: handle_first_def obind_Ret_iff Let_def split: prod.splits if_splits)
  next
    case 3
    with assms(1) c register [OF 3 c] show thesis
      by (auto simp: handle_first_def obind_Ret_iff Let_def split: prod.splits)
  next
    case 4
    then have "handle_first L e d msg n = Ret (close_conn d (SendMessage d (auth_result ''AUTH_REQUIRED'') n))"
      by (cases "Type msg") (simp_all add: handle_first_def)
    with assms(1) other [OF 4] show thesis by simp
  qed
qed

section \<open>Sending\<close>

definition sent :: "node_env \<Rightarrow> nat \<Rightarrow> nat \<Rightarrow> string \<Rightarrow> node \<Rightarrow> node" where
  \<comment> \<open>the effect of \<open>sendToClient\<close> where the lock is free\<close>
  "sent e k conn content n =
     (case mget (clients n) conn of
        None \<Rightarrow> n
      | Some c \<Rightarrow> n\<lparr>clients := mput conn (offer (server_msg e k content) c) (clients n)\<rparr>)"

lemma sendToClient_free: "free n \<Longrightarrow> sendToClient e k conn content n = Ret (sent e k conn content n)"
  by (simp add: sendToClient_def reading_free sent_def split: option.split)

lemma broadcastToClients_free: "free n \<Longrightarrow> broadcastToClients msg n = Ret (deliver msg n)"
  by (simp add: broadcastToClients_def rlock_def runlock_def deliver_def)

lemma broadcastToPeers_free:
  "free n \<Longrightarrow> broadcastToPeers msg n = Ret (n\<lparr>outbox := outbox n @ map (\<lambda>c. (c, msg)) (map fst (peers n))\<rparr>)"
  by (simp add: broadcastToPeers_def wlock_def wunlock_def Let_def)

lemma sent_simps [simp]:
  "n_mu (sent e k conn content n) = n_mu n" "n_auth (sent e k conn content n) = n_auth n"
  "n_storage (sent e k conn content n) = n_storage n" "n_channels (sent e k conn content n) = n_channels n"
  "bcast (sent e k conn content n) = bcast n" "unreg (sent e k conn content n) = unreg n"
  "phases (sent e k conn content n) = phases n" "port (sent e k conn content n) = port n"
  "isLeader (sent e k conn content n) = isLeader n" "leaderID (sent e k conn content n) = leaderID n"
  "peers (sent e k conn content n) = peers n" "peerIDs (sent e k conn content n) = peerIDs n"
  "outbox (sent e k conn content n) = outbox n" "connected_clients (sent e k conn content n) = connected_clients n"
  by (simp_all add: sent_def split: option.split)

lemma deliver_simps [simp]:
  "n_mu (deliver msg n) = n_mu n" "n_auth (deliver msg n) = n_auth n" "n_storage (deliver msg n) = n_storage n"
  "n_channels (deliver msg n) = n_channels n" "bcast (deliver msg n) = bcast n" "unreg (deliver msg n) = unreg n"
  "phases (deliver msg n) = phases n" "port (deliver msg n) = port n" "isLeader (deliver msg n) = isLeader n"
  "leaderID (deliver msg n) = leaderID n" "peers (deliver msg n) = peers n" "peerIDs (deliver msg n) = peerIDs n"
  "outbox (deliver msg n) = outbox n" "connected_clients (deliver msg n) = connected_clients n"
  by (simp_all add: deliver_def)

lemma enqueue_simps [simp]:
  "n_mu (enqueue w msg n) = n_mu n" "n_auth (enqueue w msg n) = n_auth n" "n_storage (enqueue w msg n) = n_storage n"
  "n_channels (enqueue w msg n) = n_channels n" "clients (enqueue w msg n) = clients n" "unreg (enqueue w msg n) = unreg n"
  "phases (enqueue w msg n) = phases n" "port (enqueue w msg n) = port n" "isLeader (enqueue w msg n) = isLeader n"
  "leaderID (enqueue w msg n) = leaderID n" "peers (enqueue w msg n) = peers n" "peerIDs (enqueue w msg n) = peerIDs n"
  "outbox (enqueue w msg n) = outbox n" "connected_clients (enqueue w msg n) = connected_clients n"
  "bcast (enqueue w msg n) = bcast n @ [(w, msg)]"
  by (simp_all add: enqueue_def)

lemma User_offer [simp]: "User (offer m c) = User c" "ActiveChannel (offer m c) = ActiveChannel c"
  by (simp_all add: offer_def split: option.split)

fun settles :: "node outcome \<Rightarrow> bool" where
  "settles (Ret n) = free n"
| "settles Panic = True"
| "settles Blocked = False"

lemma format_lines_not_Blocked: "format_lines f ms \<noteq> Blocked"
proof (induction ms)
  case (Cons m ms)
  then show ?case by (cases "format_lines f ms") auto
qed simp

lemma settles_lines:
  assumes "\<And>ls. settles (g ls)"
  shows "settles (obind (format_lines f ms) g)"
  using assms format_lines_not_Blocked [of f ms] by (cases "format_lines f ms") auto

lemma GetChannelMessages_not_Blocked: "GetChannelMessages ch l i s \<noteq> Blocked"
  by (simp add: GetChannelMessages_def Let_def)

lemmas free_ops = reading_free writing_free sendToClient_free broadcastToClients_free broadcastToPeers_free

lemmas command_defs = cmd_active_def cmd_dm_def cmd_edit_def cmd_delete_def cmd_react_def cmd_reply_def
  cmd_status_def cmd_typing_def cmd_health_def GetNodeInfo_def handleAdminMute_def handleAdminUnmute_def
  admin_only_def set_status_def

lemmas channel_defs = channel_create_def channel_join_def channel_leave_def channel_switch_def channel_list_def
  channel_topic_def channel_info_def activate_def

lemma settles_commands:
  assumes "free n"
  shows "settles (cmd_active e conn n)" "settles (cmd_dm e conn parts u n)" "settles (cmd_edit e conn parts u n)"
    "settles (cmd_delete e conn parts u n)" "settles (cmd_react e conn parts u n)" "settles (cmd_reply e conn msg parts c n)"
    "settles (cmd_status e conn parts u n)" "settles (cmd_typing e u c n)" "settles (cmd_health e conn n)"
    "settles (handleAdminMute e conn parts u n)" "settles (handleAdminUnmute e conn parts u n)"
  using assms by (simp_all add: command_defs free_ops Let_def split: option.split prod.split)

lemma settles_search: "free n \<Longrightarrow> settles (cmd_search L e conn parts n)"
  by (auto simp: cmd_search_def Let_def free_ops intro!: settles_lines)

lemma settles_history: "free n \<Longrightarrow> settles (cmd_history e conn parts c n)"
proof -
  assume n: "free n"
  let ?ch = "if 2 \<le> length parts then parts ! 1 else ActiveChannel c"
  let ?ch' = "if ?ch = [] then ''general'' else ?ch"
  show ?thesis
  proof (cases "GetChannelMessages ?ch' 50 0 (n_storage n)")
    case (Ret x)
    then show ?thesis using n by (cases x) (auto simp: cmd_history_def Let_def free_ops intro!: settles_lines)
  qed (use GetChannelMessages_not_Blocked in \<open>simp_all add: cmd_history_def Let_def\<close>)
qed

lemma settles_channel: "free n \<Longrightarrow> settles (handleChannelCommand e conn parts u n)"
  by (simp add: handleChannelCommand_def channel_defs free_ops Let_def split: option.split prod.split)

section \<open>The ban of a user who is online\<close>

definition online :: "string \<Rightarrow> node \<Rightarrow> bool" where
  "online user n = (user \<in> set (map (\<lambda>(_, c). User c) (clients n)))"

definition bans_online :: "nat \<Rightarrow> wire_msg \<Rightarrow> node \<Rightarrow> bool" where
  \<comment> \<open>the message is a \<open>/ban\<close> of an admin, and its target is online\<close>
  "bans_online conn msg n =
     (let content = TrimSpace (Content msg); parts = Fields content in
      HasPrefix content ''/'' \<and> hd parts = ''/ban'' \<and> 2 \<le> length parts \<and>
      Auth_GetRole (n_auth n) (User (mget_or no_client (clients n) conn)) = ''admin'' \<and> online (parts ! 1) n)"

lemma users_mput:
  "mget m k = Some c \<Longrightarrow> User c' = User c \<Longrightarrow> map (\<lambda>(_, c). User c) (mput k c' m) = map (\<lambda>(_, c). User c) m"
  by (induction m) auto

lemma online_sent [simp]: "online user (sent e k conn content n) = online user n"
  by (auto simp: online_def sent_def users_mput simp del: set_map split: option.split)

lemma find_online: "find (\<lambda>(c, cl). User cl = user) (clients n) = None \<longleftrightarrow> \<not> online user n"
  by (auto simp: find_None_iff online_def)

lemma kick_free:
  assumes "free n"
  shows "kick e user n = (if online user n then Blocked else Ret n)"
proof -
  have b: "sendToClient e k c t (n\<lparr>n_mu := Writer\<rparr>) = Blocked" for k c t
    by (simp add: sendToClient_def reading_def rlock_def)
  have w: "wlock n = Ret (n\<lparr>n_mu := Writer\<rparr>)" "wunlock (n\<lparr>n_mu := Writer\<rparr>) = n"
    using assms by (simp_all add: wlock_def wunlock_def)
  show ?thesis
    using find_online [of user n] by (auto simp: kick_def w b split: option.split prod.split)
qed

lemma ban_outcome:
  assumes "free n"
  shows "if 2 \<le> length parts \<and> Auth_GetRole (n_auth n) u = ''admin'' \<and> online (parts ! 1) n
    then handleAdminBan e conn parts u n = Blocked else settles (handleAdminBan e conn parts u n)"
proof -
  have on: "online user (set_status e w s n) = online user n" "free (set_status e w s n)" for user w s
    using assms by (simp_all add: online_def set_status_def)
  show ?thesis
    using assms by (simp add: handleAdminBan_def admin_only_def sendToClient_free on kick_free)
qed

lemma run_command_outcome:
  assumes "free n"
  shows "if hd parts = ''/ban'' \<and> 2 \<le> length parts \<and> Auth_GetRole (n_auth n) (User c) = ''admin'' \<and> online (parts ! 1) n
    then run_command L e conn msg parts c n = Blocked else settles (run_command L e conn msg parts c n)"
proof (cases "hd parts = ''/ban''")
  case True
  then show ?thesis using ban_outcome [OF assms, of parts "User c" e conn]
    by (simp add: run_command_def)
next
  case False
  then show ?thesis
    using settles_commands [OF assms] settles_search [OF assms] settles_history [OF assms] settles_channel [OF assms] assms
    by (simp add: run_command_def sendToClient_free Let_def)
qed

lemma client_message_outcome:
  assumes "free n"
  shows "if bans_online conn msg n then client_message L e conn msg n = Blocked
    else settles (client_message L e conn msg n)"
proof (cases "HasPrefix (TrimSpace (Content msg)) ''/''")
  case True
  let ?c = "mget_or no_client (clients n) conn"
  let ?msg = "if ID msg = [] then msg\<lparr>ID := GenerateID (ne_draw e 8) (ne_now e)\<rparr> else msg"
  have "client_message L e conn msg n = run_command L e conn ?msg (Fields (TrimSpace (Content msg))) ?c n"
    using True assms by (simp add: client_message_def handleCommand_def reading_free Let_def)
  with run_command_outcome [OF assms, of "Fields (TrimSpace (Content msg))" ?c L e conn ?msg] True
  show ?thesis by (simp add: bans_online_def Let_def)
next
  case False
  then show ?thesis
    using assms by (auto simp: client_message_def bans_online_def reading_free sendToClient_free Let_def
        split: prod.split)
qed

definition argon_returns :: "argon2 \<Rightarrow> bool" where
  \<comment> \<open>computing a key does not block for ever\<close>
  "argon_returns A = (\<forall>p s t m th k. IDKey A p s t m th k \<noteq> Blocked)"

lemma obind_Blocked_iff: "obind x f = Blocked \<longleftrightarrow> x = Blocked \<or> (\<exists>y. x = Ret y \<and> f y = Blocked)"
  by (cases x) auto

lemma auth_not_Blocked:
  assumes "argon_returns A"
  shows "Auth_Check A e now rnd u pw a \<noteq> Blocked" "Auth_Register A e now rnd u pw a \<noteq> Blocked"
proof -
  have h: "HashPassword A r p \<noteq> Blocked" for r p
    using assms by (auto simp: HashPassword_def argon_returns_def obind_Blocked_iff split: option.split)
  have v: "VerifyPassword A p h \<noteq> Blocked" for p h
    using assms by (auto simp: VerifyPassword_def argon_returns_def Let_def obind_Blocked_iff split: option.split)
  show "Auth_Check A e now rnd u pw a \<noteq> Blocked"
    using h v by (auto simp: Auth_Check_def Let_def obind_Blocked_iff split: option.split bool.split)
  show "Auth_Register A e now rnd u pw a \<noteq> Blocked"
    using h by (auto simp: Auth_Register_def Let_def obind_Blocked_iff split: option.split)
qed

lemma settles_obind: "x \<noteq> Blocked \<Longrightarrow> (\<And>y. settles (f y)) \<Longrightarrow> settles (obind x f)"
  by (cases x) auto

lemma phase_simps [simp]:
  "n_mu (set_phase c p n) = n_mu n" "n_mu (close_conn c n) = n_mu n" "n_mu (SendMessage c m n) = n_mu n"
  by (simp_all add: set_phase_def close_conn_def SendMessage_def)

lemma fold_SendMessage_mu [simp]: "n_mu (fold (SendMessage c) ms n) = n_mu n"
  by (induction ms arbitrary: n) simp_all

lemma settles_first:
  assumes "free n" and "argon_returns (lib_argon L)"
  shows "settles (handle_first L e c msg n)"
  using assms auth_not_Blocked [OF assms(2)]
  by (auto simp: handle_first_def writing_free wlock_def wunlock_def Let_def split: message_type.split prod.split
      intro!: settles_obind)

lemma settles_welcome: "free n \<Longrightarrow> settles (handle_welcome e c user n)"
  by (auto simp: handle_welcome_def Let_def GetRecentMessages_def)

lemma settles_peer:
  assumes "free n"
  shows "settles (peer_message L e c msg n)" "settles (dial_peer e c n)" "settles (peer_end c n)"
    "settles (heartbeat e n)" "settles (monitor e n)" "settles (election n)"
proof -
  have "\<exists>b n'. apply_peer L e c msg n = Ret (b, n') \<and> free n'" if "free n" for n
    using that by (auto simp: apply_peer_def coordinator_def note_remote_def writing_free Let_def
        split: message_type.split option.split)
  from this [of "(n\<lparr>peers := mput c (ne_now e) (peers n)\<rparr>)\<lparr>n_mu := Readers 0\<rparr>"] assms
  show "settles (peer_message L e c msg n)"
    by (auto simp: peer_message_def writing_free broadcastToClients_free)
  show "settles (dial_peer e c n)" "settles (peer_end c n)" "settles (heartbeat e n)" "settles (monitor e n)"
    "settles (election n)"
    using assms by (auto simp: dial_peer_def peer_end_def heartbeat_def monitor_def election_def writing_free
        broadcastToPeers_free wlock_def wunlock_def Let_def)
qed

lemma settles_ssh_line:
  assumes "free n" and "argon_returns (lib_argon L)"
  shows "settles (ssh_line L e c text n)"
proof -
  have "ssh_content L e k text \<noteq> Blocked" for k
    using assms(2) by (auto simp: ssh_content_def Encrypt_def deriveKey_def argon_returns_def obind_Blocked_iff
        split: option.splits)
  then show ?thesis using assms(1)
    by (auto simp: ssh_line_def intro!: settles_obind split: option.split)
qed

definition ban_event :: "event \<Rightarrow> node \<Rightarrow> bool" where
  \<comment> \<open>the event delivers an admin's \<open>/ban\<close> of a user who is online\<close>
  "ban_event ev n =
     (case ev of
        ClientEv c msg \<Rightarrow> mget (ssh_conns n) c = None \<and> in_phase c ClientLoop n \<and> \<not> waiting c n \<and> bans_online c msg n
      | SshMsgEv c \<Rightarrow>
          (case mget (ssh_pipe n) c of
             Some msg \<Rightarrow> in_phase c ClientLoop n \<and> \<not> waiting c n \<and> bans_online c msg n
           | None \<Rightarrow> False)
      | _ \<Rightarrow> False)"

lemma step_outcome:
  assumes "free n" and "argon_returns (lib_argon L)"
  shows "if ban_event ev n then node_step L e ev n = Blocked else settles (node_step L e ev n)"
proof (cases ev)
  case (ClientEv c msg)
  then show ?thesis using client_message_outcome [OF assms(1), of c msg L e] assms(1)
    by (auto simp: ban_event_def)
next
  case (SshMsgEv c)
  show ?thesis
  proof (cases "mget (ssh_pipe n) c")
    case (Some msg)
    let ?n = "n\<lparr>ssh_pipe := delete_first (\<lambda>(d, _). d = c) (ssh_pipe n)\<rparr>"
    have "bans_online c msg ?n = bans_online c msg n" by (simp add: bans_online_def online_def)
    then show ?thesis using client_message_outcome [of ?n c msg L e] assms(1) SshMsgEv Some
      by (auto simp: ban_event_def)
  qed (use SshMsgEv assms in \<open>simp add: ban_event_def\<close>)
next
  case (SshEv c user pass)
  have "CheckAuth L e user pass n \<noteq> Blocked" "CheckAuth L e user pass n = Ret (ok, n') \<Longrightarrow> free n'" for ok n'
    using assms auth_not_Blocked [OF assms(2)]
    by (auto simp: CheckAuth_def obind_Blocked_iff obind_Ret_iff split: prod.splits)
  then show ?thesis using SshEv assms(1)
    by (cases "CheckAuth L e user pass n") (auto simp: ssh_session_def ban_event_def)
qed (use assms in \<open>auto simp: ban_event_def handle_accept_def settles_first settles_welcome settles_peer handle_register_def
    handle_unregister_def handle_broadcast_def handle_client_end_def pump_def InjectMessage_def reading_free
    writing_free broadcastToClients_free broadcastToPeers_free wlock_def wunlock_def Let_def settles_ssh_line ssh_end_def
    split: option.split phase.split list.split\<close>)

text \<open>
  C11. One step hangs the server, and only one: between steps the node's lock is free, and every step (of any
  connection, of the event loop, of the timers) returns with the lock free again or panics, except a \<open>/ban\<close>
  by an admin of a user who is online. That one always deadlocks: it holds the lock for writing when it calls
  \<open>sendToClient\<close>, which waits for the lock.
\<close>

theorem only_ban_deadlocks:
  assumes "n_mu n = Readers 0" and "argon_returns (lib_argon L)"
  shows "(node_step L e ev n = Blocked \<longleftrightarrow> ban_event ev n) \<and>
    (case node_step L e ev n of Ret n' \<Rightarrow> n_mu n' = Readers 0 | _ \<Rightarrow> True)"
  using step_outcome [OF assms, of ev e] by (cases "node_step L e ev n") (auto split: if_splits)

theorem only_ban_deadlocks_witness:
  "node_step demo_lib demo_env (ClientEv 1 (says ''/ban bob'')) demo_node = Blocked"
proof -
  have "argon_returns (lib_argon demo_lib)" by (simp add: argon_returns_def)
  moreover have "ban_event (ClientEv 1 (says ''/ban bob'')) demo_node"
    by (simp add: ban_event_def in_phase_def waiting_def bans_online_def online_def text_eval mget_or_def)
  ultimately show ?thesis
    using only_ban_deadlocks [of demo_node demo_lib demo_env "ClientEv 1 (says ''/ban bob'')"] by simp
qed

end
