(* ===== verification/NodeInv.thy ===== *)
theory NodeInv
  imports NodeSystem
begin

text \<open>
  The invariant of the node, kept by every step: the lock is free, each client belongs to a registered user, no
  queue outgrows its buffer, direct messages are only in the queues of their sender and recipient, the gauge of
  connected clients is right, a leader knows itself as the leader, and the invariants of the components hold.
\<close>

definition user_known :: "authenticator \<Rightarrow> string \<Rightarrow> bool" where
  "user_known a u = (u = [] \<or> mhas (users a) u)"

definition queue_ok :: "string \<Rightarrow> wire_msg list \<Rightarrow> bool" where
  "queue_ok u q =
     (length q \<le> send_buffer \<and>
      list_all (\<lambda>m. Type m = MsgTypeDirectMessage \<longrightarrow> u = Sender m \<or> u = Recipient m) q)"

definition client_ok :: "authenticator \<Rightarrow> nat \<times> client_reg \<Rightarrow> bool" where
  "client_ok a p =
     (user_known a (User (snd p)) \<and> (case Send (snd p) of None \<Rightarrow> True | Some q \<Rightarrow> queue_ok (User (snd p)) q))"

definition unclaimed :: "phase option \<Rightarrow> bool" where
  \<comment> \<open>a connection that is not registered as a client yet, or never will be\<close>
  "unclaimed p =
     (case p of
        Some (Welcoming u) \<Rightarrow> False
      | Some ClientLoop \<Rightarrow> False
      | Some Over \<Rightarrow> False
      | _ \<Rightarrow> True)"

definition phase_ok :: "authenticator \<Rightarrow> phase option \<Rightarrow> bool" where
  "phase_ok a p =
     (case p of Some (Registering h reg) \<Rightarrow> Send reg = Some [] \<and> user_known a (User reg) | _ \<Rightarrow> True)"

definition live :: "(nat, client_reg) gomap \<Rightarrow> nat" where
  "live m = length (filter (\<lambda>p. Send (snd p) \<noteq> None) m)"

definition conns_ok :: "authenticator \<Rightarrow> (nat, client_reg) gomap \<Rightarrow> (nat, phase) gomap \<Rightarrow> bool" where
  "conns_ok a cs ps =
     (mkeys_distinct cs \<and> list_all (client_ok a) cs \<and>
      (\<forall>c. phase_ok a (mget ps c) \<and> (unclaimed (mget ps c) \<longrightarrow> mget cs c = None)))"

definition node_inv :: "node \<Rightarrow> bool" where
  "node_inv n =
     (free n \<and> conns_ok (n_auth n) (clients n) (phases n) \<and> connected_clients n = int (live (clients n)) \<and>
      (isLeader n \<longrightarrow> leaderID n = port n) \<and>
      storage_ok (n_storage n) \<and> auth_ok (n_auth n) \<and> manager_ok (n_channels n))"

section \<open>The components\<close>

lemma storage_ok_ops:
  assumes "storage_ok s"
  shows "storage_ok (fst (Save v m s))" "storage_ok (fst (UpdateMessage i t s))" "storage_ok (fst (DeleteMessage i s))"
    "storage_ok (fst (AddReaction i em u s))" "storage_ok (fst (CompactAOF c d p s))"
  using storage_ok_step [OF assms, of "SaveOp v m"] storage_ok_step [OF assms, of "UpdateOp i t"]
    storage_ok_step [OF assms, of "DeleteOp i"] storage_ok_step [OF assms, of "ReactOp i em u"]
    storage_ok_step [OF assms, of "CompactOp c d p"]
  by (simp_all add: store_step_def)

lemma manager_ok_ops:
  assumes "manager_ok m"
  shows "manager_ok (fst (Manager_Create v t ch u pr m))" "manager_ok (fst (Manager_Join v ch u m))"
    "manager_ok (fst (Manager_Leave v ch u m))" "manager_ok (fst (Manager_SetTopic v ch tp m))"
  using manager_ok_step [OF assms, of "(v, CreateOp t ch u pr)"] manager_ok_step [OF assms, of "(v, JoinOp ch u)"]
    manager_ok_step [OF assms, of "(v, LeaveOp ch u)"] manager_ok_step [OF assms, of "(v, SetTopicOp ch tp)"]
  by (simp_all add: manager_step_def)

definition users_kept :: "authenticator \<Rightarrow> authenticator \<Rightarrow> bool" where
  "users_kept a a' = (\<forall>u. mhas (users a) u \<longrightarrow> mhas (users a') u)"

lemma auth_env_of: "\<exists>v :: auth_env. env_write v = w \<and> env_now v = t \<and> env_rnd v = r"
  by (rule exI [of _ "\<lparr>env_write = w, env_now = t, env_rnd = r\<rparr>"]) simp

lemma auth_ok_ops:
  assumes "auth_ok a"
  shows "auth_ok (Auth_SetStatus w t u st a)"
    "Auth_Check A w t r u pw a = Ret (a', ok) \<Longrightarrow> auth_ok a'"
    "Auth_Register A w t r u pw a = Ret (a', ok) \<Longrightarrow> auth_ok a'"
proof -
  obtain v :: auth_env where v: "env_write v = w" "env_now v = t" "env_rnd v = r" using auth_env_of by blast
  show "auth_ok (Auth_SetStatus w t u st a)"
    using auth_ok_step [OF assms, of A "(v, SetStatusOp u st)"] v by (simp add: auth_step_def)
  show "Auth_Check A w t r u pw a = Ret (a', ok) \<Longrightarrow> auth_ok a'"
    using auth_ok_step [OF assms, of A "(v, CheckOp u pw)"] v by (simp add: auth_step_def)
  show "Auth_Register A w t r u pw a = Ret (a', ok) \<Longrightarrow> auth_ok a'"
    using auth_ok_step [OF assms, of A "(v, RegisterOp u pw)"] v by (simp add: auth_step_def)
qed

lemma users_kept_ops:
  "users_kept a (Auth_SetStatus w t u st a)"
  "Auth_Check A w t r u pw a = Ret (a', ok) \<Longrightarrow> users_kept a a'"
  "Auth_Check A w t r u pw a = Ret (a', True) \<Longrightarrow> mhas (users a') u"
  "Auth_Register A w t r u pw a = Ret (a', ok) \<Longrightarrow> users_kept a a'"
proof -
  show "users_kept a (Auth_SetStatus w t u st a)"
    by (simp add: users_kept_def Auth_SetStatus_def mhas_def split: option.split)
  show "users_kept a a'" if "Auth_Check A w t r u pw a = Ret (a', ok)"
    using that by (cases rule: Auth_Check_cases) (auto simp: users_kept_def mhas_def)
  show "mhas (users a') u" if "Auth_Check A w t r u pw a = Ret (a', True)"
    using that by (cases rule: Auth_Check_cases) (auto simp: mhas_def)
  show "users_kept a a'" if "Auth_Register A w t r u pw a = Ret (a', ok)"
    using that by (auto simp: Auth_Register_def users_kept_def mhas_def obind_Ret_iff Let_def split: if_splits option.splits)
qed

section \<open>Connections\<close>

lemma user_known_kept: "users_kept a a' \<Longrightarrow> user_known a u \<Longrightarrow> user_known a' u"
  by (auto simp: user_known_def users_kept_def)

lemma client_ok_kept: "users_kept a a' \<Longrightarrow> client_ok a p \<Longrightarrow> client_ok a' p"
  by (auto simp: client_ok_def dest: user_known_kept)

lemma phase_ok_kept: "users_kept a a' \<Longrightarrow> phase_ok a p \<Longrightarrow> phase_ok a' p"
  by (auto simp: phase_ok_def dest: user_known_kept split: option.splits phase.splits)

lemma conns_ok_auth: "conns_ok a cs ps \<Longrightarrow> users_kept a a' \<Longrightarrow> conns_ok a' cs ps"
  by (auto simp: conns_ok_def list_all_iff dest: client_ok_kept phase_ok_kept)

lemma conns_ok_get:
  "conns_ok a cs ps \<Longrightarrow> mget cs c = Some cl \<Longrightarrow> client_ok a (c, cl)"
  "conns_ok a cs ps \<Longrightarrow> mget cs c = Some cl \<Longrightarrow> \<not> unclaimed (mget ps c)"
  "conns_ok a cs ps \<Longrightarrow> mget ps c = Some (Registering h reg) \<Longrightarrow>
     Send reg = Some [] \<and> user_known a (User reg) \<and> mget cs c = None"
  by (auto simp: conns_ok_def unclaimed_def phase_ok_def dest: mget_Some_mem list_all_mget dest!: spec [of _ c])

lemma conns_ok_put:
  "conns_ok a cs ps \<Longrightarrow> client_ok a (c, cl) \<Longrightarrow> \<not> unclaimed (mget ps c) \<Longrightarrow> conns_ok a (mput c cl cs) ps"
  by (auto simp: conns_ok_def intro!: list_all_mput)

lemma conns_ok_del: "conns_ok a cs ps \<Longrightarrow> conns_ok a (mdel c cs) ps"
  by (auto simp: conns_ok_def intro!: list_all_mdel)

lemma conns_ok_distinct: "conns_ok a cs ps \<Longrightarrow> mkeys_distinct cs"
  by (simp add: conns_ok_def)

lemma conns_ok_phase:
  "conns_ok a cs ps \<Longrightarrow> phase_ok a (Some p) \<Longrightarrow> (unclaimed (Some p) \<Longrightarrow> unclaimed (mget ps c)) \<Longrightarrow>
     conns_ok a cs (mput c p ps)"
  by (auto simp: conns_ok_def)

lemma live_put:
  "mget cs c = Some cl \<Longrightarrow> (Send cl' = None) = (Send cl = None) \<Longrightarrow> live (mput c cl' cs) = live cs"
  "mget cs c = None \<Longrightarrow> live (mput c cl' cs) = live cs + (if Send cl' = None then 0 else 1)"
  by (induction cs) (auto simp: live_def)

lemma live_del:
  "mkeys_distinct cs \<Longrightarrow> mget cs c = Some cl \<Longrightarrow> Send cl \<noteq> None \<Longrightarrow> int (live (mdel c cs)) = int (live cs) - 1"
proof (induction cs)
  case (Cons p cs)
  have "c \<notin> fst ` set cs \<Longrightarrow> mdel c cs = cs" by (simp add: delete_id)
  with Cons show ?case by (cases p) (auto simp: live_def mkeys_distinct_def)
qed simp

lemma offer_Send [simp]: "(Send (offer m c) = None) = (Send c = None)"
  by (simp add: offer_def split: option.split)

lemma offer_Some [simp]: "(\<exists>q. Send (offer m c) = Some q) = (\<exists>q. Send c = Some q)"
  by (auto simp: offer_def split: option.split)

lemma client_ok_offer:
  "client_ok a (c, cl) \<Longrightarrow> (Type m = MsgTypeDirectMessage \<Longrightarrow> User cl = Sender m \<or> User cl = Recipient m) \<Longrightarrow>
     client_ok a (c, offer m cl)"
  by (auto simp: client_ok_def offer_def queue_ok_def split: option.splits)

section \<open>Changes of the node\<close>

lemma node_inv_irrelevant [simp]:
  "node_inv (n\<lparr>bcast := x1\<rparr>) = node_inv n" "node_inv (n\<lparr>unreg := x2\<rparr>) = node_inv n"
  "node_inv (n\<lparr>outbox := x3\<rparr>) = node_inv n" "node_inv (n\<lparr>closed_conns := x4\<rparr>) = node_inv n"
  "node_inv (n\<lparr>peers := x5\<rparr>) = node_inv n" "node_inv (n\<lparr>peerIDs := x6\<rparr>) = node_inv n"
  "node_inv (n\<lparr>remoteUsers := x7\<rparr>) = node_inv n" "node_inv (n\<lparr>n_limiter := x8\<rparr>) = node_inv n"
  "node_inv (n\<lparr>messages_total := x9\<rparr>) = node_inv n" "node_inv (n\<lparr>active_peers := x9\<rparr>) = node_inv n"
  "node_inv (n\<lparr>ssh_conns := y1\<rparr>) = node_inv n" "node_inv (n\<lparr>ssh_open := y2\<rparr>) = node_inv n"
  "node_inv (n\<lparr>ssh_pipe := y3\<rparr>) = node_inv n" "node_inv (enqueue w m n) = node_inv n"
  "node_inv (SendMessage c m n) = node_inv n"
  by (simp_all add: node_inv_def enqueue_def SendMessage_def)

lemma SendMessage_phases [simp]: "phases (SendMessage c m n) = phases n"
  by (simp add: SendMessage_def)

lemma node_inv_sends [simp]: "node_inv (fold (SendMessage c) ms n) = node_inv n"
  by (induction ms arbitrary: n) simp_all

lemma free_unlock: "free n \<Longrightarrow> n\<lparr>n_mu := Readers 0\<rparr> = n"
  by simp

lemma node_inv_free: "node_inv n \<Longrightarrow> free n"
  by (simp add: node_inv_def)

lemma node_inv_storage: "node_inv n \<Longrightarrow> storage_ok s \<Longrightarrow> node_inv (n\<lparr>n_storage := s\<rparr>)"
  by (simp add: node_inv_def)

lemma node_inv_channels: "node_inv n \<Longrightarrow> manager_ok m \<Longrightarrow> node_inv (n\<lparr>n_channels := m\<rparr>)"
  by (simp add: node_inv_def)

lemma node_inv_auth: "node_inv n \<Longrightarrow> auth_ok a \<Longrightarrow> users_kept (n_auth n) a \<Longrightarrow> node_inv (n\<lparr>n_auth := a\<rparr>)"
  by (auto simp: node_inv_def intro: conns_ok_auth)

lemma node_inv_client:
  "node_inv n \<Longrightarrow> mget (clients n) c = Some cl \<Longrightarrow> client_ok (n_auth n) (c, cl') \<Longrightarrow>
     (Send cl' = None) = (Send cl = None) \<Longrightarrow> node_inv (n\<lparr>clients := mput c cl' (clients n)\<rparr>)"
  by (auto simp: node_inv_def live_put(1) intro: conns_ok_put dest: conns_ok_get(2))

lemma node_inv_get: "node_inv n \<Longrightarrow> mget (clients n) c = Some cl \<Longrightarrow> client_ok (n_auth n) (c, cl)"
  by (auto simp: node_inv_def dest: conns_ok_get)

lemma node_inv_sent: "node_inv n \<Longrightarrow> node_inv (sent e k c t n)"
  by (auto simp: sent_def server_msg_def intro!: node_inv_client client_ok_offer dest: node_inv_get split: option.split)

lemma node_inv_activate:
  assumes "node_inv n" and "\<not> unclaimed (mget (phases n) c)"
  shows "node_inv (n\<lparr>clients := mput c ((mget_or no_client (clients n) c)\<lparr>ActiveChannel := ch\<rparr>) (clients n)\<rparr>)"
proof (cases "mget (clients n) c")
  case (Some cl)
  have "client_ok (n_auth n) (c, cl\<lparr>ActiveChannel := ch\<rparr>)"
    using node_inv_get [OF assms(1) Some] by (auto simp: client_ok_def split: option.splits)
  with assms Some show ?thesis by (auto simp: mget_or_def intro: node_inv_client)
next
  case None
  have "client_ok (n_auth n) (c, no_client\<lparr>ActiveChannel := ch\<rparr>)"
    by (simp add: client_ok_def no_client_def user_known_def)
  with assms None show ?thesis
    by (auto simp: node_inv_def mget_or_def live_put(2) no_client_def intro: conns_ok_put)
qed

lemma node_inv_channels_activate:
  "node_inv n \<Longrightarrow> \<not> unclaimed (mget (phases n) c) \<Longrightarrow> manager_ok m \<Longrightarrow>
     node_inv (n\<lparr>n_channels := m,
       clients := mput c ((mget_or no_client (clients n) c)\<lparr>ActiveChannel := ch\<rparr>) (clients n)\<rparr>)"
  using node_inv_activate [of "n\<lparr>n_channels := m\<rparr>" c ch] by (simp add: node_inv_channels)

lemma node_inv_deliver:
  assumes "node_inv n"
  shows "node_inv (deliver msg n)"
proof -
  let ?f = "\<lambda>(conn, c). (conn, if wants (n_channels n) msg c then offer msg c else c)"
  have fst: "map fst (map ?f cs) = map fst cs" for cs by (induction cs) auto
  have ok: "client_ok (n_auth n) (?f p)" if "client_ok (n_auth n) p" for p
    using that by (cases p) (auto simp: wants_def intro: client_ok_offer)
  have none: "mget (map ?f cs) c = None \<longleftrightarrow> mget cs c = None" for cs c
    by (induction cs) auto
  have live: "live (map ?f cs) = live cs" for cs
    by (induction cs) (simp_all add: live_def split_beta)
  have "conns_ok (n_auth n) (map ?f (clients n)) (phases n)"
    using assms ok unfolding node_inv_def conns_ok_def mkeys_distinct_def fst none
    by (auto simp: list_all_iff)
  then show ?thesis using assms live by (simp add: node_inv_def deliver_def)
qed

lemma node_inv_phase:
  "node_inv n \<Longrightarrow> phase_ok (n_auth n) (Some p) \<Longrightarrow> (unclaimed (Some p) \<Longrightarrow> unclaimed (mget (phases n) c)) \<Longrightarrow>
     node_inv (set_phase c p n)"
  by (simp add: node_inv_def set_phase_def conns_ok_phase)

lemma node_inv_close: "node_inv n \<Longrightarrow> node_inv (close_conn c n)"
  unfolding close_conn_def by (rule node_inv_phase) (simp_all add: phase_ok_def unclaimed_def)

lemma node_inv_comps:
  assumes "node_inv n"
  shows "storage_ok (n_storage n)" "auth_ok (n_auth n)" "manager_ok (n_channels n)"
  using assms by (simp_all add: node_inv_def)

lemma node_inv_set_status: "node_inv n \<Longrightarrow> node_inv (set_status e u s n)"
  unfolding set_status_def by (intro node_inv_auth auth_ok_ops(1) users_kept_ops(1) node_inv_comps(2))

lemmas keeps_inv = node_inv_storage node_inv_channels node_inv_sent node_inv_deliver node_inv_set_status
  storage_ok_ops manager_ok_ops

section \<open>The loop of a client\<close>

fun keeps :: "node outcome \<Rightarrow> bool" where
  "keeps (Ret n) = node_inv n"
| "keeps _ = True"

lemma keeps_lines: "(\<And>ls. keeps (g ls)) \<Longrightarrow> keeps (obind (format_lines f ms) g)"
  by (cases "format_lines f ms") auto

lemma set_status_mu [simp]: "n_mu (set_status e u st n) = n_mu n"
  by (simp add: set_status_def)

lemma keeps_messages:
  assumes "node_inv n"
  shows "keeps (cmd_active e conn n)" "keeps (cmd_dm e conn parts u n)" 
    "keeps (cmd_reply e conn msg parts c n)" "keeps (cmd_typing e u c n)" "keeps (cmd_health e conn n)"
  using assms node_inv_free [OF assms]
  by (simp_all add: cmd_active_def cmd_dm_def cmd_reply_def cmd_typing_def cmd_health_def GetNodeInfo_def free_ops
      node_inv_sent node_inv_deliver)

lemma keeps_edit:
  assumes "node_inv n"
  shows "keeps (cmd_edit e conn parts u n)" "keeps (cmd_delete e conn parts u n)" "keeps (cmd_react e conn parts u n)"
  using assms node_inv_free [OF assms] node_inv_comps(1) [OF assms]
  by (simp_all add: cmd_edit_def cmd_delete_def cmd_react_def free_ops Let_def split_beta
      node_inv_sent node_inv_storage storage_ok_ops split: option.split)

lemma cmd_status_alt:
  "cmd_status e conn parts username n =
     (if length parts < 2 then sendToClient e 0 conn ''Usage: /status <online|away|dnd|offline>'' n
      else if parts ! 1 \<notin> set valid_statuses
        then sendToClient e 0 conn ''Invalid status. Use: online, away, dnd, idle, offline'' n
      else obind (sendToClient e 0 conn (''Status set to: '' @ parts ! 1) (set_status e username (parts ! 1) n))
          (broadcastToClients
            (no_message\<lparr>Type := MsgTypeStatusChange, ID := GenerateID (ne_draw e 1) (ne_now e),
               Sender := username, Content := parts ! 1, Timestamp := ne_now e\<rparr>)))"
  by (simp add: cmd_status_def set_status_def Let_def)

lemma keeps_status:
  assumes "node_inv n"
  shows "keeps (cmd_status e conn parts u n)" "keeps (handleAdminMute e conn parts u n)"
    "keeps (handleAdminUnmute e conn parts u n)" "keeps (handleAdminBan e conn parts u n)"
  using assms node_inv_free [OF assms]
  by (simp_all add: cmd_status_alt handleAdminMute_def handleAdminUnmute_def handleAdminBan_def kick_free admin_only_def
      free_ops node_inv_sent node_inv_deliver node_inv_set_status)

lemma keeps_search: "node_inv n \<Longrightarrow> keeps (cmd_search L e conn parts n)"
  by (auto simp: cmd_search_def Let_def free_ops node_inv_free node_inv_sent intro!: keeps_lines)

lemma keeps_history:
  assumes "node_inv n"
  shows "keeps (cmd_history e conn parts c n)"
proof -
  have "keeps (obind r (\<lambda>(msgs, total).
      if msgs = [] then sendToClient e 0 conn (a msgs total) n
      else obind (format_lines history_line msgs) (\<lambda>ls. sendToClient e 0 conn (b msgs total ls) n)))" for r a b
    using assms by (cases r) (auto simp: free_ops node_inv_free node_inv_sent intro!: keeps_lines)
  then show ?thesis unfolding cmd_history_def Let_def .
qed

lemma keeps_channel:
  assumes "node_inv n" and "\<not> unclaimed (mget (phases n) conn)"
  shows "keeps (handleChannelCommand e conn parts u n)"
proof -
  have "keeps (channel_create e conn parts u n)" "keeps (channel_join e conn parts u n)"
    "keeps (channel_leave e conn parts u n)" "keeps (channel_switch e conn parts u n)" "keeps (channel_list e conn n)"
    "keeps (channel_topic e conn parts n)" "keeps (channel_info e conn parts n)"
    using assms node_inv_free [OF assms(1)] node_inv_comps(3) [OF assms(1)]
    by (simp_all add: channel_create_def channel_join_def channel_leave_def channel_switch_def channel_list_def
        channel_topic_def channel_info_def activate_def free_ops free_unlock Let_def split_beta node_inv_activate node_inv_channels_activate
        node_inv_sent node_inv_channels manager_ok_ops split: option.split)
  then show ?thesis using assms by (simp add: handleChannelCommand_def free_ops node_inv_free node_inv_sent Let_def)
qed

lemma keeps_run_command:
  assumes "node_inv n" and "\<not> unclaimed (mget (phases n) conn)"
  shows "keeps (run_command L e conn msg parts c n)"
  using keeps_messages [OF assms(1)] keeps_edit [OF assms(1)] keeps_status [OF assms(1)] keeps_search [OF assms(1)]
    keeps_history [OF assms(1)] keeps_channel [OF assms] assms(1)
  by (simp add: run_command_def Let_def free_ops node_inv_free node_inv_sent)

lemma keeps_client_message:
  assumes "node_inv n" and "\<not> unclaimed (mget (phases n) conn)"
  shows "keeps (client_message L e conn msg n)"
  using assms keeps_run_command [OF assms]
  by (simp add: client_message_def handleCommand_def free_ops node_inv_free node_inv_sent Let_def split_beta)

section \<open>Everything else\<close>

lemma node_inv_unlock [simp]: "free n \<Longrightarrow> node_inv (n\<lparr>n_mu := Writer, n_mu := Readers 0\<rparr>) = node_inv n"
  by (simp add: node_inv_def)

lemma keeps_first:
  assumes "node_inv n" and "mget (phases n) c = Some Greeting"
  shows "keeps (handle_first L e c msg n)"
proof (cases "handle_first L e c msg n")
  case (Ret n')
  note inv = assms(1) and auth = node_inv_comps(2) [OF assms(1)]
  have a: "node_inv (n\<lparr>n_auth := a\<rparr>)"
    if "Auth_Check A w t r u pw (n_auth n) = Ret (a, ok) \<or> Auth_Register A w t r u pw (n_auth n) = Ret (a, ok)"
    for A w t r u pw a ok
    using that inv auth by (blast intro: node_inv_auth auth_ok_ops users_kept_ops)
  have reg: "node_inv (set_phase c (Registering h \<lparr>User = u, Send = Some [], ActiveChannel = ch\<rparr>) (SendMessage c m (n\<lparr>n_auth := a\<rparr>)))"
    if "Auth_Check A w t r u pw (n_auth n) = Ret (a, True)" for A w t r u pw a h ch m
    using a [OF disjI1, OF that] users_kept_ops(3) [OF that] assms(2)
    by (intro node_inv_phase) (simp_all add: phase_ok_def user_known_def unclaimed_def SendMessage_def)
  have peer: "node_inv (set_phase c PeerLoop m)" if "node_inv m" "phases m = phases n" for m
    using that assms(2) by (intro node_inv_phase) (simp_all add: phase_ok_def unclaimed_def)
  from Ret node_inv_free [OF inv] have "node_inv n'"
    by (cases rule: handle_first_cases) (auto simp: inv reg node_inv_close dest: a [OF disjI1] a [OF disjI2] intro!: peer)
  with Ret show ?thesis by simp
qed simp_all

lemma keeps_welcome:
  assumes "node_inv n" and "mget (phases n) c = Some (Welcoming u)"
  shows "keeps (handle_welcome e c u n)"
proof -
  have "node_inv (set_phase c ClientLoop (fold (SendMessage c) ms (n\<lparr>n_channels := fst (Manager_Join v ch u (n_channels n))\<rparr>)))"
    for ms v ch
    using assms node_inv_comps(3) [OF assms(1)]
    by (intro node_inv_phase) (simp_all add: node_inv_channels manager_ok_ops phase_ok_def unclaimed_def)
  then show ?thesis
    by (cases "GetRecentMessages 50 (n_storage n)") (simp_all add: handle_welcome_def Let_def)
qed

lemma keeps_register:
  assumes "node_inv n" and "mget (phases n) c = Some (Registering h reg)"
  shows "keeps (handle_register e c reg (set_phase c (if h then Welcoming (User reg) else ClientLoop) n))"
proof -
  let ?p = "if h then Welcoming (User reg) else ClientLoop"
  have conns: "conns_ok (n_auth n) (clients n) (phases n)" and reg: "Send reg = Some []" "user_known (n_auth n) (User reg)"
    "mget (clients n) c = None"
    using assms conns_ok_get(3) [of "n_auth n" "clients n" "phases n" c h reg] by (auto simp: node_inv_def)
  have "conns_ok (n_auth n) (clients n) (mput c ?p (phases n))"
    using conns by (cases h) (auto simp: phase_ok_def unclaimed_def intro!: conns_ok_phase)
  then have "conns_ok (n_auth n) (mput c reg (clients n)) (mput c ?p (phases n))"
    using reg by (intro conns_ok_put) (auto simp: client_ok_def queue_ok_def unclaimed_def)
  with assms reg show ?thesis
    by (simp add: handle_register_def writing_free node_inv_free set_phase_def Let_def)
      (cases h; simp add: node_inv_def live_put(2))
qed

lemma keeps_unregister: "node_inv n \<Longrightarrow> keeps (handle_unregister e c n)"
  by (auto simp: handle_unregister_def wlock_def wunlock_def node_inv_free free_unlock Let_def split: option.split)
    (auto simp: node_inv_def conns_ok_del live_del conns_ok_distinct)

lemma keeps_broadcast:
  assumes "node_inv n"
  shows "keeps (handle_broadcast e msg n)"
proof -
  let ?n = "n\<lparr>messages_total := messages_total n + 1\<rparr>"
  let ?s = "if stored_type (Type msg) then ?n\<lparr>n_storage := fst (Save (env_save e) msg (n_storage ?n))\<rparr> else ?n"
  have "node_inv ?s"
    using assms node_inv_storage [of ?n] by (simp add: storage_ok_ops node_inv_comps)
  moreover from this have "node_inv (deliver msg ?s)" by (rule node_inv_deliver)
  ultimately show ?thesis
    using node_inv_free by (simp add: handle_broadcast_def Let_def broadcastToClients_free broadcastToPeers_free)
qed

lemma keeps_peer:
  assumes "node_inv n"
  shows "keeps (peer_message L e c msg n)"
proof -
  have "\<exists>b n'. apply_peer L e c msg n = Ret (b, n') \<and> node_inv n'" if n: "node_inv n" for n
    using n node_inv_free [OF n] node_inv_comps(1) [OF n]
    by (auto simp: apply_peer_def coordinator_def note_remote_def writing_free free_unlock Let_def
        node_inv_storage storage_ok_ops split: message_type.split option.split) (simp_all add: node_inv_def)
  from this [of "n\<lparr>peers := mput c (ne_now e) (peers n)\<rparr>"] assms node_inv_free [OF assms]
  show ?thesis
    by (auto simp: peer_message_def writing_free free_unlock broadcastToClients_free node_inv_free node_inv_deliver)
qed

lemma keeps_accept: "node_inv n \<Longrightarrow> mget (phases n) c = None \<Longrightarrow> keeps (handle_accept c n)"
  by (auto simp: handle_accept_def reading_free node_inv_free node_inv_close phase_ok_def unclaimed_def intro!: node_inv_phase)

lemma keeps_ssh:
  assumes "node_inv n" and "mget (phases n) c = None"
  shows "keeps (obind (CheckAuth L e u pw n) (\<lambda>(ok, n). Ret (if ok then ssh_session e c u n else n)))"
proof (cases "Auth_Check (lib_argon L) (ne_users e) (ne_now e) (ne_salt e) u pw (n_auth n)")
  case (Ret x)
  obtain a ok where x: "x = (a, ok)" by (cases x)
  have a: "node_inv (n\<lparr>n_auth := a\<rparr>)"
    using Ret x assms(1) node_inv_comps(2) [OF assms(1)] by (auto intro: node_inv_auth auth_ok_ops users_kept_ops)
  have "node_inv (ssh_session e c u (n\<lparr>n_auth := a\<rparr>))" if ok
  proof -
    have "mhas (users a) u" using Ret x that by (auto intro: users_kept_ops(3))
    then show ?thesis using a assms(2) node_inv_comps(3) [OF assms(1)] unfolding ssh_session_def
      by (intro node_inv_phase) (simp_all add: node_inv_channels manager_ok_ops phase_ok_def user_known_def unclaimed_def)
  qed
  with Ret x a show ?thesis by (simp add: CheckAuth_def)
qed (simp_all add: CheckAuth_def)

lemma keeps_rest:
  assumes "node_inv n"
  shows "keeps (Ret (pump c n))" "keeps (Ret (handle_client_end c n))" "keeps (Ret (ssh_end c n))" "keeps (heartbeat e n)"
    "keeps (monitor e n)" "keeps (election n)" "keeps (Ret (InjectMessage e msg n))" "keeps (ssh_line L e c text n)"
proof -
  show "keeps (Ret (pump c n))"
  proof (cases "mget (clients n) c")
    case (Some cl)
    have "client_ok (n_auth n) (c, cl\<lparr>Send := Some q\<rparr>)" if "Send cl = Some (m # q)" for m q
      using node_inv_get [OF assms Some] that by (auto simp: client_ok_def queue_ok_def)
    then show ?thesis using assms Some
      by (auto simp: pump_def intro!: node_inv_client split: option.split list.split)
  qed (use assms in \<open>simp add: pump_def\<close>)
  show "keeps (Ret (handle_client_end c n))"
    using assms by (auto simp: handle_client_end_def phase_ok_def unclaimed_def intro!: node_inv_phase)
  have "node_inv (n\<lparr>isLeader := True, leaderID := port n\<rparr>)" "node_inv (n\<lparr>isLeader := False\<rparr>)"
    using assms by (simp_all add: node_inv_def)
  then show "keeps (election n)" using assms
    by (auto simp: election_def wlock_def wunlock_def node_inv_free broadcastToPeers_free free_unlock)
  show "keeps (Ret (ssh_end c n))" "keeps (heartbeat e n)" "keeps (monitor e n)" "keeps (Ret (InjectMessage e msg n))"
    using assms by (simp_all add: ssh_end_def heartbeat_def monitor_def InjectMessage_def writing_free broadcastToPeers_free
        node_inv_free free_unlock Let_def)
  show "keeps (ssh_line L e c text n)"
    using assms by (cases "ssh_content L e (sshKey n) text") (auto simp: ssh_line_def split: option.split)
qed

lemma keeps_links:
  assumes "node_inv n"
  shows "mget (phases n) c = None \<Longrightarrow> keeps (dial_peer e c n)" "keeps (peer_end c n)"
  using assms by (auto simp: dial_peer_def peer_end_def writing_free node_inv_free free_unlock node_inv_close Let_def
      phase_ok_def unclaimed_def intro!: node_inv_phase)

lemma node_inv_step:
  assumes "node_inv n"
  shows "keeps (node_step L e ev n)"
proof (cases ev)
  case (SshMsgEv c)
  let ?n = "n\<lparr>ssh_pipe := delete_first (\<lambda>(d, _). d = c) (ssh_pipe n)\<rparr>"
  have "keeps (client_message L e c msg ?n)" if "in_phase c ClientLoop n" for msg
    using keeps_client_message [of ?n c] assms that by (simp add: in_phase_def unclaimed_def)
  with SshMsgEv assms show ?thesis by (auto split: option.split)
next
  case (ClientEv c msg)
  then show ?thesis using assms keeps_client_message [OF assms, of c] by (simp add: in_phase_def unclaimed_def)
next
  case (RegisterEv c)
  then show ?thesis using assms keeps_register [OF assms] by (auto split: option.split phase.split)
next
  case (WelcomeEv c)
  then show ?thesis using assms keeps_welcome [OF assms] by (auto split: option.split phase.split)
next
  case CompactEv
  then show ?thesis using assms by (simp add: node_inv_storage storage_ok_ops node_inv_comps)
qed (use assms keeps_rest [OF assms] keeps_unregister keeps_broadcast in \<open>auto simp: in_phase_def keeps_accept keeps_first keeps_ssh node_inv_close
    keeps_links keeps_peer\<close>)

interpretation node_machine: outcome_machine "\<lambda>(e, ev). node_step L e ev" node_inv for L
proof
  fix n op n'
  assume "node_inv n" and "(case op of (e, ev) \<Rightarrow> node_step L e ev) n = Ret n'"
  then show "node_inv n'" using node_inv_step [of n L "fst op" "snd op"] by (cases op) simp
qed

lemma node_inv_demo: "node_inv demo_node"
proof -
  have "auth_ok demo_auth"
    by (simp add: auth_ok_def demo_auth_def mkeys_distinct_def ValidateUsername_def username_char_def)
  moreover have "manager_ok demo_channels"
    by (simp add: manager_ok_def channel_ok_def demo_channels_def general_channel_def mkeys_distinct_def mhas_def
        ValidateChannelName_def channel_name_char_def)
  moreover have "conns_ok demo_auth (clients demo_node) (phases demo_node)"
    by (auto simp: conns_ok_def mkeys_distinct_def client_ok_def user_known_def mhas_def demo_auth_def queue_ok_def
        phase_ok_def unclaimed_def)
  ultimately show ?thesis
    using coherent_test [of 1024] by (simp add: node_inv_def live_def demo_node_def coherent_def demo_client_def)
qed

text \<open>
  C1. The node's invariant, in every state any run reaches from a state that has it: the lock is free; every client
  that is registered under a name is a registered user; no queue holds more than 256 messages; a direct message is
  only in the queues of its sender and its recipient; the gauge of connected clients counts the clients with a
  queue; a node that leads has itself as the leader; and the store, the authenticator and the channel manager keep
  their own invariants.
\<close>

theorem node_invariant:
  assumes "node_inv n" and "node_run L evs n = Ret n'"
  shows "n_mu n' = Readers 0 \<and>
    (\<forall>c cl. mget (clients n') c = Some cl \<longrightarrow>
       (User cl \<noteq> [] \<longrightarrow> Auth_UserExists (n_auth n') (User cl)) \<and>
       (\<forall>q. Send cl = Some q \<longrightarrow> length q \<le> 256 \<and>
          (\<forall>m \<in> set q. Type m = MsgTypeDirectMessage \<longrightarrow> User cl = Sender m \<or> User cl = Recipient m))) \<and>
    connected_clients n' = int (length (filter (\<lambda>p. Send (snd p) \<noteq> None) (clients n'))) \<and>
    (isLeader n' \<longrightarrow> leaderID n' = port n') \<and>
    storage_ok (n_storage n') \<and> auth_ok (n_auth n') \<and> manager_ok (n_channels n')"
proof -
  have inv: "node_inv n'"
    using node_machine.orun_invar [OF assms(1)] assms(2) unfolding node_run_def by blast
  have "(User cl \<noteq> [] \<longrightarrow> Auth_UserExists (n_auth n') (User cl)) \<and>
      (\<forall>q. Send cl = Some q \<longrightarrow> length q \<le> 256 \<and>
        (\<forall>m \<in> set q. Type m = MsgTypeDirectMessage \<longrightarrow> User cl = Sender m \<or> User cl = Recipient m))"
    if "mget (clients n') c = Some cl" for c cl
    using node_inv_get [OF inv that]
    by (auto simp: client_ok_def user_known_def Auth_UserExists_def queue_ok_def send_buffer_def list_all_iff)
  with inv show ?thesis by (auto simp: node_inv_def live_def)
qed

lemma handle_broadcast_returns: "free n \<Longrightarrow> \<exists>n'. handle_broadcast e msg n = Ret n'"
  by (simp add: handle_broadcast_def Let_def broadcastToClients_free broadcastToPeers_free)

lemma demo_same: "demo_node\<lparr>bcast := []\<rparr> = demo_node"
  by (simp add: demo_node_def)

lemma demo_text: "TrimSpace ''/dm bob hi'' = ''/dm bob hi''" "Fields ''/dm bob hi'' = [''/dm'', ''bob'', ''hi'']"
  by (simp_all add: text_eval)

lemma demo_dm:
  "\<exists>dm. client_message demo_lib demo_env 1 (says ''/dm bob hi'') demo_node = Ret (enqueue (Some 1) dm demo_node)"
proof -
  have "run_command L e c msg [''/dm'', ''bob'', ''hi''] cl n = cmd_dm e c [''/dm'', ''bob'', ''hi''] (User cl) n" for L e c msg cl n
    by (simp add: run_command_def)
  moreover have "HasPrefix ''/dm bob hi'' ''/''" by (simp add: HasPrefix_def)
  ultimately show ?thesis
    by (simp add: client_message_def handleCommand_def reading_free cmd_dm_def Let_def demo_text)
      (rule exI, rule refl)
qed

theorem node_invariant_witness:
  "\<exists>n'. node_run demo_lib [(demo_env, ClientEv 1 (says ''/dm bob hi'')), (demo_env, BroadcastEv 0)] demo_node = Ret n' \<and>
     n_mu n' = Readers 0 \<and> connected_clients n' = int (length (filter (\<lambda>p. Send (snd p) \<noteq> None) (clients n')))"
proof -
  let ?evs = "[(demo_env, ClientEv 1 (says ''/dm bob hi'')), (demo_env, BroadcastEv 0)]"
  have "node_step demo_lib demo_env (ClientEv 1 (says ''/dm bob hi'')) demo_node =
      client_message demo_lib demo_env 1 (says ''/dm bob hi'') demo_node"
    by (simp add: in_phase_def waiting_def)
  with demo_dm obtain dm where dm: "node_step demo_lib demo_env (ClientEv 1 (says ''/dm bob hi'')) demo_node =
      Ret (enqueue (Some 1) dm demo_node)" by auto
  obtain n' where "handle_broadcast demo_env dm demo_node = Ret n'"
    using handle_broadcast_returns [of demo_node] by auto
  with dm have run: "node_run demo_lib ?evs demo_node = Ret n'" by (simp add: enqueue_def demo_same del: node_step.simps(8))
  from node_invariant [OF node_inv_demo run] run show ?thesis by blast
qed

end
