(* ===== verification/NodeFrame.thy ===== *)
theory NodeFrame
  imports NodeInv
begin

text \<open>
  What a command of a client cannot change. A relation between the node before and after a command that every single
  effect of the commands respects (\<open>command_frame\<close>, without the changes of stored messages; \<open>message_frame\<close>, with them)
  holds between the node before and after any command, whatever the client sends. A relation that every step respects
  holds along every run (\<open>run_frame\<close>).
\<close>

lemma cmd_channel_leave_alt:
  "channel_leave e conn parts username n =
     (if length parts < 3 then sendToClient e 0 conn ''Usage: /channel leave <name>'' n
      else
        (let n = n\<lparr>n_channels := fst (Manager_Leave (ne_channels e) (parts ! 2) username (n_channels n))\<rparr>
         in obind (if ActiveChannel (mget_or no_client (clients n) conn) = parts ! 2 then activate conn ''general'' n
              else writing (\<lambda>n. n) n)
              (sendToClient e 0 conn (''Left #'' @ parts ! 2 @ ''. Active channel: general''))))"
  by (cases "n_mu n") (simp_all add: channel_leave_def activate_def writing_def wlock_def Let_def)

lemma activate_free:
  "free m \<Longrightarrow> activate c ch m =
    Ret (m\<lparr>clients := mput c ((mget_or no_client (clients m) c)\<lparr>ActiveChannel := ch\<rparr>) (clients m)\<rparr>)"
  by (cases m) (simp add: activate_def writing_free)

lemma writing_nothing: "free m \<Longrightarrow> writing (\<lambda>n. n) m = Ret m"
  by (cases m) (simp add: writing_free)

section \<open>What a command cannot change\<close>

fun frames :: "(node \<Rightarrow> node \<Rightarrow> bool) \<Rightarrow> node \<Rightarrow> node outcome \<Rightarrow> bool" where
  \<comment> \<open>if the step returns, the nodes before and after are so related\<close>
  "frames R n (Ret n') = R n n'"
| "frames R n _ = True"

lemma frames_mono: "frames R n x \<Longrightarrow> (\<And>n'. R n n' \<Longrightarrow> S m n') \<Longrightarrow> frames S m x"
  by (cases x) simp_all

lemma frames_lines: "(\<And>ls. frames R n (g ls)) \<Longrightarrow> frames R n (obind (format_lines f ms) g)"
  by (cases "format_lines f ms") auto

definition given_status :: "string \<Rightarrow> bool" where
  \<comment> \<open>a status that a command sets\<close>
  "given_status st = (st \<in> set valid_statuses \<or> st = ''muted'' \<or> st = ''banned'')"

lemma given_status_simps [simp]:
  "given_status ''muted''" "given_status ''banned''" "given_status ''online''" "st \<in> set valid_statuses \<Longrightarrow> given_status st"
  by (simp_all add: given_status_def valid_statuses_def)

locale command_frame =
  fixes E :: "node_env \<Rightarrow> bool" and R :: "node \<Rightarrow> node \<Rightarrow> bool"
    \<comment> \<open>the environments that are considered, and the relation\<close>
  assumes frame_refl: "R n n"
    and frame_status: "E e \<Longrightarrow> given_status st \<Longrightarrow> R n m \<Longrightarrow> R n (set_status e u st m)"
    and frame_channels: "E e \<Longrightarrow> R n m \<Longrightarrow> R n (m\<lparr>n_channels := fst (manager_call (ne_channels e, op) (n_channels m))\<rparr>)"
    and frame_limiter: "R n m \<Longrightarrow> R n (m\<lparr>n_limiter := l\<rparr>)"
    and frame_sent: "R n m \<Longrightarrow> R n (sent e k c t m)"
    and frame_deliver: "R n m \<Longrightarrow> R n (deliver msg m)"
    and frame_enqueue: "R n m \<Longrightarrow> R n (enqueue (Some c) msg m)"
    and frame_active: "R n m \<Longrightarrow>
      R n (m\<lparr>clients := mput c ((mget_or no_client (clients m) c)\<lparr>ActiveChannel := ch\<rparr>) (clients m)\<rparr>)"
begin

lemma frame_manager:
  assumes "E e" and "R n m"
  shows "R n (m\<lparr>n_channels := fst (Manager_Create (ne_channels e) t ch u p (n_channels m))\<rparr>)"
    "R n (m\<lparr>n_channels := fst (Manager_Join (ne_channels e) ch u (n_channels m))\<rparr>)"
    "R n (m\<lparr>n_channels := fst (Manager_Leave (ne_channels e) ch u (n_channels m))\<rparr>)"
    "R n (m\<lparr>n_channels := fst (Manager_SetTopic (ne_channels e) ch txt (n_channels m))\<rparr>)"
  using frame_channels [OF assms, of "CreateOp t ch u p"] frame_channels [OF assms, of "JoinOp ch u"]
    frame_channels [OF assms, of "LeaveOp ch u"] frame_channels [OF assms, of "SetTopicOp ch txt"] by simp_all

lemmas frame_rules = frame_refl frame_manager frame_limiter frame_sent frame_deliver frame_enqueue frame_active frame_status

lemma frame_activate: "free m \<Longrightarrow> R n m \<Longrightarrow> \<exists>m'. activate c ch m = Ret m' \<and> R n m' \<and> free m'"
  by (simp add: activate_free frame_rules)

lemma frame_commands:
  assumes "free n" and "E e"
  shows "frames R n (cmd_active e c n)" "frames R n (cmd_dm e c parts u n)" "frames R n (cmd_reply e c msg parts cl n)"
    "frames R n (cmd_typing e u cl n)" "frames R n (cmd_health e c n)" "frames R n (cmd_status e c parts u n)"
    "frames R n (handleAdminMute e c parts u n)" "frames R n (handleAdminUnmute e c parts u n)"
    "frames R n (handleAdminBan e c parts u n)"
  using assms by (simp_all add: cmd_active_def cmd_dm_def cmd_reply_def cmd_typing_def cmd_health_def GetNodeInfo_def
      cmd_status_alt handleAdminMute_def handleAdminUnmute_def handleAdminBan_def kick_free admin_only_def free_ops frame_rules)

lemma frame_search: "free n \<Longrightarrow> frames R n (cmd_search L e c parts n)"
  by (auto simp: cmd_search_def Let_def free_ops frame_rules intro!: frames_lines)

lemma frame_history:
  assumes "free n"
  shows "frames R n (cmd_history e c parts cl n)"
proof -
  have "frames R n (obind r (\<lambda>(msgs, total).
      if msgs = [] then sendToClient e 0 c (a msgs total) n
      else obind (format_lines history_line msgs) (\<lambda>ls. sendToClient e 0 c (b msgs total ls) n)))" for r a b
    using assms by (cases r) (auto simp: free_ops frame_rules intro!: frames_lines)
  then show ?thesis unfolding cmd_history_def Let_def .
qed

lemma frame_channel:
  assumes "free n" and "E e"
  shows "frames R n (handleChannelCommand e c parts u n)"
proof -
  have act: "frames R n (obind (activate c ch m) (sendToClient e k d t))" if "free m" "R n m" for ch m k d t
    using frame_activate [OF that, of c ch] by (auto simp: free_ops frame_rules)
  have "frames R n (channel_create e c parts u n)" "frames R n (channel_list e c n)"
    "frames R n (channel_topic e c parts n)" "frames R n (channel_info e c parts n)"
    using assms by (simp_all add: channel_create_def channel_list_def channel_topic_def channel_info_def free_ops frame_rules Let_def
        split_beta
        split: option.split)
  moreover have "frames R n (channel_join e c parts u n)"
    using assms act by (simp add: channel_join_def free_ops frame_rules Let_def split_beta)
  moreover have "frames R n (channel_leave e c parts u n)"
    using assms act by (simp add: cmd_channel_leave_alt writing_nothing sendToClient_free frame_rules Let_def)
  moreover have "frames R n (channel_switch e c parts u n)"
    using assms act by (simp add: channel_switch_def free_ops frame_rules Let_def)
  ultimately show ?thesis using assms
    by (simp add: handleChannelCommand_def free_ops frame_rules Let_def)
qed

end

locale message_frame = command_frame +
  assumes frame_update: "R n m \<Longrightarrow> R n (m\<lparr>n_storage := fst (UpdateMessage i t (n_storage m))\<rparr>)"
    and frame_delete: "R n m \<Longrightarrow> R n (m\<lparr>n_storage := fst (DeleteMessage i (n_storage m))\<rparr>)"
    and frame_react: "R n m \<Longrightarrow> R n (m\<lparr>n_storage := fst (AddReaction i em u (n_storage m))\<rparr>)"
begin

lemma frame_client:
  assumes "free n" and "E e"
  shows "frames R n (client_message L e c msg n)"
proof -
  have "frames R n (cmd_edit e c parts u n)" "frames R n (cmd_delete e c parts u n)" "frames R n (cmd_react e c parts u n)" for parts u
    using assms by (simp_all add: cmd_edit_def cmd_delete_def cmd_react_def free_ops frame_rules frame_update frame_delete frame_react Let_def split_beta split: option.split)
  then have "frames R n (run_command L e c m parts cl n)" for m parts cl
    using frame_commands [OF assms] frame_search [OF assms(1)] frame_history [OF assms(1)] frame_channel [OF assms] assms by (simp add: run_command_def Let_def free_ops frame_rules)
  then show ?thesis using assms
    by (simp add: client_message_def handleCommand_def free_ops frame_rules frame_update frame_delete frame_react Let_def split_beta)
qed

end

locale run_frame =
  fixes P :: "node \<Rightarrow> bool" and R :: "node \<Rightarrow> node \<Rightarrow> bool"
  assumes run_refl: "R n n"
    and run_trans: "R n m \<Longrightarrow> R m k \<Longrightarrow> R n k"
    and run_step: "node_inv n \<Longrightarrow> P n \<Longrightarrow> node_step L e ev n = Ret n' \<Longrightarrow> P n' \<and> R n n'"
begin

lemma frame_run: "node_inv n \<Longrightarrow> P n \<Longrightarrow> node_run L evs n = Ret n' \<Longrightarrow> P n' \<and> R n n'"
proof (induction evs arbitrary: n)
  case (Cons x evs)
  obtain e ev where x: "x = (e, ev)" by (cases x)
  from Cons.prems(3) obtain n1 where n1: "node_step L e ev n = Ret n1" "node_run L evs n1 = Ret n'"
    by (auto simp: x obind_Ret_iff simp del: node_step.simps)
  have "node_inv n1" using node_inv_step [OF Cons.prems(1), of L e ev] n1(1) by simp
  moreover have "P n1 \<and> R n n1" using run_step [OF Cons.prems(1,2) n1(1)] .
  ultimately show ?case using Cons.IH n1(2) run_trans by blast
qed (simp add: run_refl)

end

end
