(* ===== verification/NodeDelivery.thy ===== *)
theory NodeDelivery
  imports NodeFrame
begin

text \<open>
  What becomes of a message a client sends: who receives it, under which name, what the node stores and what it
  relays to its peers; and which stored messages a client's command can change.
\<close>

section \<open>A client's message\<close>

definition sender_of :: "nat \<Rightarrow> node \<Rightarrow> string" where
  "sender_of c n = User (mget_or no_client (clients n) c)"

definition may_chat :: "node_env \<Rightarrow> nat \<Rightarrow> node \<Rightarrow> bool" where
  \<comment> \<open>the connection is in its loop, which is not blocked, and its user is neither over the rate limit nor muted\<close>
  "may_chat e c n =
     (mget (ssh_conns n) c = None \<and> in_phase c ClientLoop n \<and> \<not> waiting c n \<and>
      snd (Allow (tnanos (ne_now e)) (sender_of c n) (n_limiter n)) \<and>
      Auth_GetStatus (n_auth n) (sender_of c n) \<noteq> ''muted'')"

definition stamped :: "node_env \<Rightarrow> nat \<Rightarrow> node \<Rightarrow> wire_msg \<Rightarrow> wire_msg" where
  \<comment> \<open>the message as the node passes it on\<close>
  "stamped e c n msg =
     (let cl = mget_or no_client (clients n) c in
      msg\<lparr>ID := (if ID msg = [] then GenerateID (ne_draw e 8) (ne_now e) else ID msg), Sender := User cl,
        Channel := (if Channel msg \<noteq> [] then Channel msg
                    else if ActiveChannel cl \<noteq> [] then ActiveChannel cl else ''general'')\<rparr>)"

lemma stamped_simps [simp]:
  "Type (stamped e c n msg) = Type msg" "Content (stamped e c n msg) = Content msg"
  "Sender (stamped e c n msg) = sender_of c n" "Recipient (stamped e c n msg) = Recipient msg"
  "Channel (stamped e c n msg) \<noteq> []"
  by (simp_all add: stamped_def sender_of_def Let_def)

lemma chat_step:
  assumes "free n" and "may_chat e c n" and "\<not> HasPrefix (TrimSpace (Content msg)) ''/''"
  shows "node_step L e (ClientEv c msg) n = Ret (enqueue (Some c) (stamped e c n msg)
     (n\<lparr>n_limiter := fst (Allow (tnanos (ne_now e)) (sender_of c n) (n_limiter n))\<rparr>))"
  using assms by (auto simp: may_chat_def client_message_def reading_free sender_of_def stamped_def Let_def split: prod.splits)

definition saved :: "node_env \<Rightarrow> wire_msg \<Rightarrow> storage \<Rightarrow> storage" where
  "saved e m s = (if stored_type (Type m) then fst (Save (env_save e) m s) else s)"

definition relayed :: "wire_msg \<Rightarrow> node \<Rightarrow> (nat \<times> wire_msg) list" where
  "relayed m n = (if relayed_type (Type m) then map (\<lambda>p. (p, m)) (map fst (peers n)) else [])"

lemma broadcast_effect:
  assumes "free n"
  shows "\<exists>n'. handle_broadcast e m n = Ret n' \<and>
    n' = (deliver m n)\<lparr>messages_total := messages_total n + 1, n_storage := saved e m (n_storage n),
           outbox := outbox n @ relayed m n\<rparr>"
  using assms by (simp add: handle_broadcast_def saved_def relayed_def broadcastToClients_free broadcastToPeers_free
      deliver_def Let_def)

lemma clients_deliver: "mget (clients (deliver m n)) d = map_option (\<lambda>cl. if wants (n_channels n) m cl then offer m cl else cl) (mget (clients n) d)"
  unfolding deliver_def by (induction "clients n" arbitrary: n) (auto simp: map_of_map split: prod.split)

definition after_chat :: "node_env \<Rightarrow> nat \<Rightarrow> wire_msg \<Rightarrow> node \<Rightarrow> node" where
  \<comment> \<open>the node when the message was sent and the event loop took it\<close>
  "after_chat e c msg n =
     (let m = stamped e c n msg in
      (deliver m n)\<lparr>n_limiter := fst (Allow (tnanos (ne_now e)) (sender_of c n) (n_limiter n)),
        messages_total := messages_total n + 1, n_storage := saved e m (n_storage n), outbox := outbox n @ relayed m n\<rparr>)"

lemma chat_run:
  assumes "free n" and "may_chat e c n" and "\<not> HasPrefix (TrimSpace (Content msg)) ''/''"
  shows "node_run L [(e, ClientEv c msg), (e, BroadcastEv (length (bcast n)))] n = Ret (after_chat e c msg n)"
proof -
  let ?m = "stamped e c n msg"
  let ?n = "n\<lparr>n_limiter := fst (Allow (tnanos (ne_now e)) (sender_of c n) (n_limiter n))\<rparr>"
  have step: "node_step L e (ClientEv c msg) n = Ret (enqueue (Some c) ?m ?n)"
    using assms by (rule chat_step)
  have "node_step L e (BroadcastEv (length (bcast n))) (enqueue (Some c) ?m ?n) = handle_broadcast e ?m ?n"
    by (simp add: enqueue_def)
  with step broadcast_effect [of ?n e ?m] assms(1) show ?thesis
    by (simp add: after_chat_def relayed_def deliver_def Let_def)
qed

abbreviation stored :: "storage \<Rightarrow> wire_msg list" where
  "stored s \<equiv> view s (allMsgs s)"

lemma saved_stamped:
  assumes "addresses_ok s" and "length (Content msg) \<le> MaxMessageSize" and "ID (stamped e c n msg) \<noteq> []"
  shows "stored (fst (Save v (stamped e c n msg) s)) = trim_capacity (capacity s) (stored s @ [stamped e c n msg])"
proof -
  have "prepare_msg v (stamped e c n msg) = stamped e c n msg"
    using assms(3) by (simp add: prepare_msg_def normalizeChannel_def Let_def)
  then show ?thesis using Save_view(1) [OF assms(1), of "stamped e c n msg" v] assms(2) by simp
qed

text \<open>
  C2. A message is put into exactly the queues it is meant for. If a client that may chat sends a message that is no
  command, and the event loop then takes it, the message goes out under the client's own name whatever name it
  claims: a direct message to its sender and its recipient; any other one to the members of its channel (notices of
  joining and leaving to everybody). It is appended to the queue of each of these, unless that holds 256 messages
  already: then the client does not get it, and nobody is told. No other queue changes. A chat message, direct message
  or image is saved once, and with at most a mebibyte of text is then the last message stored; and the message is sent
  once to every peer, unless it is a direct message or a typing notice. Neither step can fail or block.
\<close>

theorem message_delivered:
  assumes "n_mu n = Readers 0" and "may_chat e c n" and "\<not> HasPrefix (TrimSpace (Content msg)) ''/''"
    and "m = stamped e c n msg"
  shows "\<exists>n'. node_run L [(e, ClientEv c msg), (e, BroadcastEv (length (bcast n)))] n = Ret n' \<and>
    bcast n' = bcast n \<and>
    (\<forall>d. mget (clients n') d =
      map_option (\<lambda>cl.
        if (if Type msg = MsgTypeDirectMessage then User cl = sender_of c n \<or> User cl = Recipient msg
            else Manager_IsMember (n_channels n) (Channel m) (User cl) \<or> Type msg = MsgTypeJoin \<or> Type msg = MsgTypeLeave)
        then (case Send cl of
                Some q \<Rightarrow> if length q < 256 then cl\<lparr>Send := Some (q @ [m])\<rparr> else cl
              | None \<Rightarrow> cl)
        else cl) (mget (clients n) d)) \<and>
    Sender m = sender_of c n \<and> Content m = Content msg \<and> Type m = Type msg \<and>
    n_storage n' = (if Type msg = MsgTypeChat \<or> Type msg = MsgTypeDirectMessage \<or> Type msg = MsgTypeImage
      then fst (Save (env_save e) m (n_storage n)) else n_storage n) \<and>
    (addresses_ok (n_storage n) \<and> length (Content msg) \<le> 1024 * 1024 \<and> ID m \<noteq> [] \<longrightarrow>
      stored (n_storage n') = (if Type msg = MsgTypeChat \<or> Type msg = MsgTypeDirectMessage \<or> Type msg = MsgTypeImage
        then trim_capacity (capacity (n_storage n)) (stored (n_storage n) @ [m]) else stored (n_storage n))) \<and>
    outbox n' = outbox n @ (if Type msg = MsgTypeDirectMessage \<or> Type msg = MsgTypeTyping then []
      else map (\<lambda>p. (p, m)) (map fst (peers n)))"
proof -
  let ?n' = "after_chat e c msg n"
  have offer: "offer m cl = (case Send cl of Some q \<Rightarrow> if length q < 256 then cl\<lparr>Send := Some (q @ [m])\<rparr> else cl | None \<Rightarrow> cl)" for cl
    by (simp add: offer_def send_buffer_def split: option.split)
  have "mget (clients ?n') d = map_option (\<lambda>cl. if wants (n_channels n) m cl then offer m cl else cl) (mget (clients n) d)" for d
    unfolding assms(4) by (simp add: after_chat_def clients_deliver Let_def)
  moreover have "n_storage ?n' = saved e m (n_storage n)" "outbox ?n' = outbox n @ relayed m n" "bcast ?n' = bcast n"
    by (simp_all add: after_chat_def assms(4) Let_def)
  ultimately show ?thesis
    using chat_run [OF assms(1-3), of L] saved_stamped [of "n_storage n" msg e c n "env_save e"] unfolding offer
    by (intro exI [of _ ?n']) (simp add: assms(4) wants_def saved_def stored_type_def relayed_def relayed_type_def MaxMessageSize_def)
qed

lemma demo_may_chat: "may_chat demo_env 1 demo_node" "may_chat demo_env 2 demo_node"
proof -
  have allow: "snd (Allow (tnanos zero_time) u (NewLimiter 10 20))" for u
    using fl64_exact [of 20] by (simp add: Allow_def bucket_of_def NewLimiter_def refilled_def Let_def mget_or_def)
  show "may_chat demo_env 1 demo_node" "may_chat demo_env 2 demo_node"
    using allow by (simp_all add: may_chat_def sender_of_def mget_or_def in_phase_def waiting_def Auth_GetStatus_def demo_auth_def
        demo_profile_def)
qed

lemma plain_text: "\<not> HasPrefix (TrimSpace ''hi'') ''/''"
  by (simp add: text_eval)

theorem message_delivered_witness:
  "\<exists>n' m. node_run demo_lib [(demo_env, ClientEv 1 (says ''hi'')), (demo_env, BroadcastEv 0)] demo_node = Ret n' \<and>
     Sender m = ''alice'' \<and> Content m = ''hi'' \<and> mget (clients n') 2 = Some ((demo_client ''bob'')\<lparr>Send := Some [m]\<rparr>) \<and>
     stored (n_storage n') = [m]"
proof -
  define m where "m = stamped demo_env 1 demo_node (says ''hi'')"
  have member: "Manager_IsMember demo_channels (Channel m) ''bob''"
    by (simp add: m_def stamped_def Manager_IsMember_def demo_channels_def general_channel_def mhas_def mget_or_def Let_def)
  have store: "addresses_ok (test_store 1024)" "stored (test_store 1024) = []" "capacity (test_store 1024) = 1024"
    by (simp_all add: addresses_ok_def test_store_def view_def)
  have "ne_draw demo_env 8 = Some ''12345678''" by (simp add: demo_env_def)
  then have i: "ID m \<noteq> []" using GenerateID_not_Nil [of "ne_draw demo_env 8" zero_time] by (simp add: m_def stamped_def Let_def)
  have name: "sender_of 1 demo_node = ''alice''" by (simp add: sender_of_def mget_or_def)
  have slash: "\<not> HasPrefix (TrimSpace (Content (says ''hi''))) ''/''" using plain_text by simp
  from message_delivered [OF demo_simps(4) demo_may_chat(1) slash m_def, of demo_lib] obtain n' where
    run: "node_run demo_lib [(demo_env, ClientEv 1 (says ''hi'')), (demo_env, BroadcastEv (length (bcast demo_node)))] demo_node = Ret n'"
    and cl: "\<forall>d. mget (clients n') d =
      map_option (\<lambda>cl.
        if (if Type (says ''hi'') = MsgTypeDirectMessage then User cl = sender_of 1 demo_node \<or> User cl = Recipient (says ''hi'')
            else Manager_IsMember (n_channels demo_node) (Channel m) (User cl) \<or> Type (says ''hi'') = MsgTypeJoin \<or>
                 Type (says ''hi'') = MsgTypeLeave)
        then (case Send cl of
                Some q \<Rightarrow> if length q < 256 then cl\<lparr>Send := Some (q @ [m])\<rparr> else cl
              | None \<Rightarrow> cl)
        else cl) (mget (clients demo_node) d)"
    and m: "Sender m = sender_of 1 demo_node" "Content m = Content (says ''hi'')"
    and st: "addresses_ok (n_storage demo_node) \<and> length (Content (says ''hi'')) \<le> 1024 * 1024 \<and> ID m \<noteq> [] \<longrightarrow>
      stored (n_storage n') = (if Type (says ''hi'') = MsgTypeChat \<or> Type (says ''hi'') = MsgTypeDirectMessage \<or> Type (says ''hi'') = MsgTypeImage
        then trim_capacity (capacity (n_storage demo_node)) (stored (n_storage demo_node) @ [m]) else stored (n_storage demo_node))"
    by blast
  have "mget (clients n') 2 = Some ((demo_client ''bob'')\<lparr>Send := Some [m]\<rparr>)" using cl member by simp
  moreover have "stored (n_storage n') = [m]" using st store i by (simp add: trim_capacity_def)
  ultimately show ?thesis using run m name
    by (intro exI [of _ n'] exI [of _ m]) (simp del: node_run_simps node_step.simps)
qed

section \<open>Whose messages a command changes\<close>

interpretation leaves: command_frame "\<lambda>e. True" "\<lambda>n n'. n_storage n' = n_storage n"
  by unfold_locales (simp_all add: set_status_def)

lemma storage_run_command:
  assumes "run_command L e c msg parts cl n = Ret n'" and "free n"
  shows "n_storage n' = n_storage n \<or>
    (\<exists>i t m. GetMessageByID i (n_storage n) = Some m \<and> Sender m = User cl \<and>
       n_storage n' = fst (UpdateMessage i t (n_storage n))) \<or>
    (\<exists>i m. GetMessageByID i (n_storage n) = Some m \<and>
       (Sender m = User cl \<or> Auth_GetRole (n_auth n) (User cl) = ''admin'') \<and>
       n_storage n' = fst (DeleteMessage i (n_storage n))) \<or>
    (\<exists>i em. n_storage n' = fst (AddReaction i em (User cl) (n_storage n)))"
proof -
  consider "hd parts = ''/edit''" | "hd parts = ''/delete''" | "hd parts = ''/react''"
    | "hd parts \<notin> {''/edit'', ''/delete'', ''/react''}" by blast
  then show ?thesis
  proof cases
    case 1
    then have "cmd_edit e c parts (User cl) n = Ret n'" using assms(1) by (simp add: run_command_def)
    then have "n_storage n' = n_storage n \<or> (\<exists>m. GetMessageByID (parts ! 1) (n_storage n) = Some m \<and> Sender m = User cl \<and>
        n_storage n' = fst (UpdateMessage (parts ! 1) (Join (drop 2 parts) '' '') (n_storage n)))"
      using assms(2) by (auto simp: cmd_edit_def free_ops Let_def split: if_splits option.splits)
    then show ?thesis by blast
  next
    case 2
    then have "cmd_delete e c parts (User cl) n = Ret n'" using assms(1) by (simp add: run_command_def)
    then have "n_storage n' = n_storage n \<or> (\<exists>m. GetMessageByID (parts ! 1) (n_storage n) = Some m \<and>
        (Sender m = User cl \<or> Auth_GetRole (n_auth n) (User cl) = ''admin'') \<and>
        n_storage n' = fst (DeleteMessage (parts ! 1) (n_storage n)))"
      using assms(2) by (auto simp: cmd_delete_def free_ops Let_def split: if_splits option.splits)
    then show ?thesis by blast
  next
    case 3
    then have "cmd_react e c parts (User cl) n = Ret n'" using assms(1) by (simp add: run_command_def)
    then have "n_storage n' = n_storage n \<or>
        n_storage n' = fst (AddReaction (parts ! 1) (parts ! 2) (User cl) (n_storage n))"
      using assms(2) by (simp add: cmd_react_def free_ops Let_def split_beta split: if_splits) auto
    then show ?thesis by blast
  next
    case 4
    then have "frames (\<lambda>n n'. n_storage n' = n_storage n) n (run_command L e c msg parts cl n)"
      using leaves.frame_commands [OF assms(2) TrueI] leaves.frame_search [OF assms(2)] leaves.frame_history [OF assms(2)]
        leaves.frame_channel [OF assms(2) TrueI] assms(2) by (simp add: run_command_def Let_def free_ops)
    with assms(1) show ?thesis by simp
  qed
qed

definition same_text :: "wire_msg \<Rightarrow> wire_msg \<Rightarrow> bool" where
  \<comment> \<open>all but the reactions\<close>
  "same_text m m' = (m\<lparr>Reactions := None\<rparr> = m'\<lparr>Reactions := None\<rparr>)"

lemma GetMessageByID_unique:
  assumes "coherent s" and "GetMessageByID i s = Some w" and "m \<in> set (stored s)" and "ID m = i"
  shows "m = w"
proof -
  have w: "w \<in> set (stored s)" "ID w = i"
    using assms(2) by (auto simp: GetMessageByID_def find_Some_iff) (metis nth_mem set_rev length_rev)+
  have "distinct (map ID (stored s))" using coherentD(2) [OF assms(1)] by (simp add: map_ID_view)
  with w assms(3,4) show ?thesis by (auto simp: distinct_map inj_on_def)
qed

lemma stored_update:
  assumes "coherent s"
  shows "stored (fst (UpdateMessage i t s)) = map (on_id i (edit t)) (stored s) \<or> fst (UpdateMessage i t s) = s"
    "coherent (fst (UpdateMessage i t s))"
    "stored (fst (DeleteMessage i s)) = filter (\<lambda>m. ID m \<noteq> i) (stored s) \<or> fst (DeleteMessage i s) = s"
    "coherent (fst (DeleteMessage i s))"
    "stored (fst (AddReaction i em u s)) = map (on_id i (react em u)) (stored s) \<or> fst (AddReaction i em u s) = s"
    "coherent (fst (AddReaction i em u s))"
proof -
  note abs = pair_caseD [OF UpdateMessage_refines [OF assms, THEN conjunct1]]
    pair_caseD [OF DeleteMessage_refines [OF assms, THEN conjunct1]]
    pair_caseD [OF AddReaction_refines [OF assms, THEN conjunct1]]
  have sp: "sp_all (store_abs s') = stored s'" for s' by (simp add: store_abs_def)
  have none: "\<not> spec_has i (store_abs s) \<Longrightarrow> find (\<lambda>m. ID m = i) (allMsgs s) = None"
    using spec_has_view [of i s] by simp
  show "stored (fst (UpdateMessage i t s)) = map (on_id i (edit t)) (stored s) \<or> fst (UpdateMessage i t s) = s"
    using abs(1) [of i t] none by (auto simp: spec_change_def UpdateMessage_def simp flip: sp)
  show "stored (fst (DeleteMessage i s)) = filter (\<lambda>m. ID m \<noteq> i) (stored s) \<or> fst (DeleteMessage i s) = s"
    using abs(2) [of i] none by (auto simp: spec_delete_def DeleteMessage_def simp flip: sp)
  show "stored (fst (AddReaction i em u s)) = map (on_id i (react em u)) (stored s) \<or> fst (AddReaction i em u s) = s"
    using abs(3) [of i em u] none by (auto simp: spec_change_def AddReaction_def simp flip: sp)
qed (simp_all add: UpdateMessage_refines [OF assms] DeleteMessage_refines [OF assms] AddReaction_refines [OF assms])

definition gone :: "wire_msg \<Rightarrow> storage \<Rightarrow> bool" where
  \<comment> \<open>no stored message has the identifier any more\<close>
  "gone m s = (\<forall>m' \<in> set (stored s). ID m' \<noteq> ID m)"

abbreviation kept :: "wire_msg \<Rightarrow> storage \<Rightarrow> bool" where
  "kept m s \<equiv> \<exists>m' \<in> set (stored s). same_text m m'"

lemma client_storage:
  assumes "free n" and "coherent (n_storage n)" and "client_message L e c msg n = Ret n'" and "m \<in> set (stored (n_storage n))"
  shows "(kept m (n_storage n') \<or> Sender m = sender_of c n \<or>
      Auth_GetRole (n_auth n) (sender_of c n) = ''admin'' \<and> gone m (n_storage n')) \<and> coherent (n_storage n')"
proof -
  let ?cl = "mget_or no_client (clients n) c" and ?s = "n_storage n"
  have same: "same_text m (on_id i (react em u) m)" for i em u
    by (simp add: same_text_def on_id_def react_def Let_def)
  have here: "kept m s" if "m \<in> set (stored s)" for s using that by (auto simp: same_text_def)
  have "n_storage n' = ?s \<or> (\<exists>msg parts. run_command L e c msg parts ?cl n = Ret n')"
    using assms(1,3) by (auto simp: client_message_def handleCommand_def free_ops Let_def split_beta split: if_splits)
  with storage_run_command [OF _ assms(1), of L e c _ _ ?cl n']
  consider "n_storage n' = ?s" | i t w where "GetMessageByID i ?s = Some w" "Sender w = User ?cl"
      "n_storage n' = fst (UpdateMessage i t ?s)"
    | i w where "GetMessageByID i ?s = Some w" "Sender w = User ?cl \<or> Auth_GetRole (n_auth n) (User ?cl) = ''admin''"
      "n_storage n' = fst (DeleteMessage i ?s)"
    | i em where "n_storage n' = fst (AddReaction i em (User ?cl) ?s)"
    by blast
  then show ?thesis
  proof cases
    case 1
    then show ?thesis using assms(2) here [OF assms(4)] by simp
  next
    case 2
    then have "m \<in> set (stored (n_storage n'))" if "ID m \<noteq> i"
      using stored_update(1) [OF assms(2), of i t] assms(4) that by (force simp: on_id_def)
    moreover have "Sender m = sender_of c n" if "ID m = i"
      using GetMessageByID_unique [OF assms(2) 2(1) assms(4) that] 2(2) by (simp add: sender_of_def)
    ultimately show ?thesis using stored_update(2) [OF assms(2)] 2(3) here by metis
  next
    case 3
    have del: "m \<in> set (stored (n_storage n'))" if "ID m \<noteq> i"
      using stored_update(3) [OF assms(2), of i] assms(4) that 3(3) by auto
    have "kept m (n_storage n') \<or> gone m (n_storage n')" if "ID m = i"
      using stored_update(3) [OF assms(2), of i] here [of "n_storage n'"] assms(4) that 3(3) by (auto simp: gone_def)
    moreover have "w = m" if "ID m = i" using GetMessageByID_unique [OF assms(2) 3(1) assms(4) that] by simp
    ultimately show ?thesis using stored_update(4) [OF assms(2)] 3(2,3) here [OF del] by (cases "ID m = i") (auto simp: sender_of_def)
  next
    case 4
    then have "m \<in> set (stored (n_storage n')) \<or> on_id i (react em (User ?cl)) m \<in> set (stored (n_storage n'))"
      using stored_update(5) [OF assms(2), of i em "User ?cl"] assms(4) by auto
    then have "kept m (n_storage n')" using same [of i em "User ?cl"] here by blast
    then show ?thesis using stored_update(6) [OF assms(2)] 4 by simp
  qed
qed

lemma storage_frame [simp]:
  "n_storage (set_phase c p n) = n_storage n" "n_storage (close_conn c n) = n_storage n"
  "n_storage (SendMessage c m n) = n_storage n" "n_storage (enqueue w m n) = n_storage n" "n_storage (deliver m n) = n_storage n"
  by (simp_all add: set_phase_def close_conn_def SendMessage_def enqueue_def deliver_def)

lemma sends_storage [simp]: "n_storage (fold (SendMessage c) ms n) = n_storage n"
  by (induction ms arbitrary: n) (simp_all add: SendMessage_def)

lemma first_storage: "free n \<Longrightarrow> handle_first L e c msg n = Ret n' \<Longrightarrow> n_storage n' = n_storage n"
  by (cases rule: handle_first_cases) auto

lemma storage_step:
  assumes "free n" and "node_step L e ev n = Ret n'"
    and "\<forall>c msg. ev \<noteq> ClientEv c msg \<and> ev \<noteq> PeerEv c msg" and "\<forall>c. ev \<noteq> SshMsgEv c" and "ev \<noteq> CompactEv"
  shows "n_storage n' = n_storage n \<or> (\<exists>i msg. ev = BroadcastEv i \<and> n_storage n' = fst (Save (env_save e) msg (n_storage n)))"
proof (cases ev)
  case (FirstEv d msg)
  then show ?thesis using assms(1,2) first_storage [OF assms(1), of L e d msg n'] by (auto split: if_splits)
next
  case (SshEv d u pw)
  then show ?thesis using assms(2) by (auto simp: CheckAuth_def ssh_session_def obind_Ret_iff split: if_splits)
next
  case (SshLineEv d t)
  then show ?thesis using assms(2) by (auto simp: ssh_line_def obind_Ret_iff split: if_splits option.splits)
next
  case (WelcomeEv d)
  then show ?thesis using assms(2)
    by (auto simp: handle_welcome_def obind_Ret_iff Let_def split: option.splits phase.splits)
qed (use assms in \<open>auto simp: handle_accept_def reading_free writing_free handle_register_def dial_peer_def peer_end_def
    monitor_def handle_client_end_def handle_unregister_def wlock_def wunlock_def handle_broadcast_def pump_def SendMessage_def
    broadcastToClients_free broadcastToPeers_free heartbeat_def election_def InjectMessage_def ssh_end_def Let_def
    split: option.splits phase.splits list.splits if_splits\<close>)

lemma save_keeps:
  assumes "coherent s" and "m \<in> set (stored s)"
  shows "kept m (fst (Save v msg s)) \<or> m = hd (stored s) \<and> int (length (stored s)) = capacity s"
proof (cases "length (Content msg) \<le> MaxMessageSize")
  case True
  have a: "addresses_ok s"
    using coherentD(6) [OF assms(1) all_copies] by (auto simp: addresses_ok_def list_all_iff split: option.split)
  have len: "int (length (stored s)) \<le> capacity s" using coherentD(1) [OF assms(1)] by (simp add: storage_ok_def view_def)
  have "m \<in> set (stored (fst (Save v msg s)))" if "m \<in> set (tl (stored s)) \<or> int (length (stored s)) < capacity s"
    using that assms(2) unfolding Save_view(1) [OF a True] by (cases "stored s") (auto simp: trim_capacity_def)
  moreover have "m = hd (stored s)" if "m \<notin> set (tl (stored s))" using that assms(2) by (cases "stored s") auto
  ultimately show ?thesis using len by (fastforce simp: same_text_def)
next
  case False
  then have "fst (Save v msg s) = s" by (simp add: Save_def prepare_msg_def Let_def)
  then show ?thesis using assms(2) by (auto simp: same_text_def)
qed

text \<open>
  C5. Own messages only. Let the identifiers of the stored messages be unique (the store is coherent), and let anything
  happen but a message from a peer: then a stored message keeps its text, up to reactions, with three exceptions.
  A client, over TCP or SSH, may change a message whose sender has the client's name; a client whose user is an admin may
  make a message of others disappear, not change it; and when the event loop saves a message while the store is full,
  the oldest one is dropped. Of these events only such a save can make identifiers ambiguous. Where they are (clients choose them),
  this no longer holds: see \<open>duplicate_id_edits_others\<close>. What a peer can do is \<open>peer_needs_no_credentials\<close>.
\<close>

theorem only_own_messages_change:
  assumes "n_mu n = Readers 0" and "coherent (n_storage n)" and "node_step L e ev n = Ret n'"
    and "m \<in> set (stored (n_storage n))" and "\<forall>c msg. ev \<noteq> PeerEv c msg"
  shows "((\<exists>m' \<in> set (stored (n_storage n')). same_text m m') \<or>
     (\<exists>c. (ev = SshMsgEv c \<or> (\<exists>msg. ev = ClientEv c msg)) \<and>
        (Sender m = sender_of c n \<or>
         Auth_GetRole (n_auth n) (sender_of c n) = ''admin'' \<and> (\<forall>m' \<in> set (stored (n_storage n')). ID m' \<noteq> ID m))) \<or>
     (\<exists>i. ev = BroadcastEv i) \<and> m = hd (stored (n_storage n)) \<and> int (length (stored (n_storage n))) = capacity (n_storage n)) \<and>
    ((\<forall>i. ev \<noteq> BroadcastEv i) \<longrightarrow> coherent (n_storage n'))"
proof -
  have same: "kept m (n_storage n)" using assms(4) by (auto simp: same_text_def)
  have client: "(kept m (n_storage n') \<or> Sender m = sender_of c n \<or>
      Auth_GetRole (n_auth n) (sender_of c n) = ''admin'' \<and> gone m (n_storage n')) \<and> coherent (n_storage n')"
    if "client_message L e c msg k = Ret n'" and "free k" and "n_storage k = n_storage n" "n_auth k = n_auth n" "clients k = clients n"
    for c msg k
    using client_storage [OF that(2) _ that(1), of m] that(3-5) assms(2,4) by (simp add: sender_of_def)
  show ?thesis
  proof (cases ev)
    case (ClientEv c msg)
    then show ?thesis using assms(1-3) same client [of c msg n] unfolding gone_def by (auto split: if_splits)
  next
    case (SshMsgEv c)
    then show ?thesis using assms(1-3) same client [of c _ "n\<lparr>ssh_pipe := delete_first (\<lambda>(d, _). d = c) (ssh_pipe n)\<rparr>"]
      unfolding gone_def by (auto split: if_splits option.splits)
  next
    case CompactEv
    then have "allMsgs (n_storage n') = allMsgs (n_storage n)" "messages (n_storage n') = messages (n_storage n)"
      "sto_heap (n_storage n') = sto_heap (n_storage n)" "capacity (n_storage n') = capacity (n_storage n)"
      using assms(3) by (auto simp: CompactAOF_def Let_def split: option.split)
    with store_same [OF this] assms(2) same CompactEv show ?thesis by (simp add: view_def)
  next
    case (BroadcastEv i)
    then consider "n_storage n' = n_storage n" | msg where "n_storage n' = fst (Save (env_save e) msg (n_storage n))"
      using storage_step [OF assms(1,3)] by blast
    then show ?thesis
    proof cases
      case (2 msg)
      then show ?thesis using save_keeps [OF assms(2,4), of "env_save e" msg] BroadcastEv by auto
    qed (use same BroadcastEv in simp)
  qed (use storage_step [OF assms(1,3)] assms(2,5) same in \<open>auto simp del: node_step.simps\<close>)
qed

definition memo :: wire_msg where
  "memo = (chat ''00000001'' ''alice'' ''hi'')\<lparr>Channel := ''general''\<rparr>"

definition memo_store :: storage where
  \<comment> \<open>a store that holds one message of \<open>alice\<close>\<close>
  "memo_store = fst (Save plain_save memo (test_store 1024))"

lemma memo_stored: "stored memo_store = [memo]" "coherent memo_store" "addresses_ok memo_store"
proof -
  have s: "coherent (test_store 1024)" "addresses_ok (test_store 1024)" "allMsgs (test_store 1024) = []"
    "capacity (test_store 1024) = 1024"
    by (simp_all add: coherent_test) (simp_all add: addresses_ok_def test_store_def)
  have prep: "prepare_msg plain_save memo = memo" "length (Content memo) \<le> MaxMessageSize"
    by (simp_all add: prepare_msg_def memo_def chat_def no_message_def normalizeChannel_def MaxMessageSize_def)
  show "stored memo_store = [memo]" "addresses_ok memo_store"
    using Save_view(1,2) [OF s(2) prep(2), of plain_save] s by (simp_all add: memo_store_def prep view_def trim_capacity_def)
  have "fresh_save (test_store 1024) plain_save memo"
    by (simp add: fresh_save_def copies_def test_store_def)
  then show "coherent memo_store" using Save_refines [OF s(1)] by (simp add: memo_store_def)
qed

definition memo_node :: node where
  "memo_node = demo_node\<lparr>n_storage := memo_store\<rparr>"

lemma memo_node_simps [simp]:
  "n_mu memo_node = Readers 0" "n_storage memo_node = memo_store" "clients memo_node = clients demo_node"
  "n_auth memo_node = demo_auth" "n_channels memo_node = demo_channels" "bcast memo_node = []" "peers memo_node = []"
  "phases memo_node = phases demo_node" "ssh_conns memo_node = ssh_conns demo_node" "outbox memo_node = []"
  "n_limiter memo_node = NewLimiter 10 20"
  by (simp_all add: memo_node_def)

lemma memo_may_chat: "may_chat demo_env 2 memo_node"
  using demo_may_chat(2) by (simp add: may_chat_def sender_of_def in_phase_def waiting_def)

lemma demo_sender [simp]:
  "sender_of 1 demo_node = ''alice''" "sender_of 2 demo_node = ''bob''" "sender_of 3 demo_node = ''mallory''"
  "sender_of 1 memo_node = ''alice''" "sender_of 2 memo_node = ''bob''" "sender_of 3 memo_node = ''mallory''"
  by (simp_all add: sender_of_def mget_or_def)

lemma memo_found: "GetMessageByID ''00000001'' memo_store = Some memo"
  by (simp add: GetMessageByID_def memo_stored) (simp add: memo_def chat_def)

lemma delete_text: "TrimSpace ''/delete 00000001'' = ''/delete 00000001''"
  "Fields ''/delete 00000001'' = [''/delete'', ''00000001'']" "HasPrefix ''/delete 00000001'' ''/''"
  by (simp_all add: text_eval)

theorem only_own_messages_change_witness:
  "\<exists>n'. node_step demo_lib demo_env (ClientEv 2 (says ''/delete 00000001'')) memo_node = Ret n' \<and>
     (\<exists>m' \<in> set (stored (n_storage n')). same_text memo m')"
proof -
  have "run_command L e c msg [''/delete'', i] cl n = cmd_delete e c [''/delete'', i] (User cl) n" for L e c msg i cl n
    by (simp add: run_command_def)
  moreover have "Sender memo = ''alice''" by (simp add: memo_def chat_def)
  ultimately obtain n' where n': "node_step demo_lib demo_env (ClientEv 2 (says ''/delete 00000001'')) memo_node = Ret n'"
    by (simp add: in_phase_def waiting_def client_message_def handleCommand_def free_ops cmd_delete_def delete_text
        memo_found mget_or_def Let_def)
  have "memo \<in> set (stored (n_storage memo_node))" "Sender memo \<noteq> sender_of 2 memo_node"
    "Auth_GetRole (n_auth memo_node) (sender_of 2 memo_node) \<noteq> ''admin''"
    by (simp_all add: memo_stored) (simp add: memo_def chat_def)
  with only_own_messages_change [OF memo_node_simps(1) _ n' this(1)] n' memo_stored(2) show ?thesis by auto
qed

end
