(* ===== verification/Api.thy ===== *)
theory Api
  imports NodeDelivery
begin

text \<open>
  \<open>internal/api/api.go\<close>: the REST interface. A request is its path, method, \<open>Authorization\<close> header, query parameters
  (\<open>Query().Get\<close>, the empty string where there is none) and what decoding its body gives (\<open>None\<close>: not JSON, or
  larger than \<open>MaxMessageSize\<close>). A response is a status and, as values, what is encoded into its body (of an error, what it says). A handler that
  panics is \<open>Panic\<close>: \<open>net/http\<close> then drops the connection and the server lives on. \<open>serve\<close> is the multiplexer that
  \<open>Start\<close> sets up, for paths it does not redirect.
\<close>

section \<open>Requests and responses\<close>

record message_req =
  rq_content :: string
  rq_sender :: string
  rq_channel :: string
  rq_recipient :: string

record request =
  r_path :: string
  r_method :: string
  r_authorization :: string
  r_query :: "(string, string) gomap"
  r_body :: "message_req option"

datatype api_body =
    ErrorBody string
  | SentBody string
  | ChannelsBody "channel list"
  | HistoryBody string "wire_msg list" int int int   \<comment> \<open>channel, messages, total, limit, offset\<close>
  | UsersBody "string list" "(string, (string, profile_value) gomap) gomap"
  | HealthBody node_info gotime
  | SearchBody string "wire_msg list" nat

type_synonym response = "nat \<times> api_body"

record api_server =
  apiKey :: string
  certFile :: string
  keyFile :: string

definition NewServer :: "string \<Rightarrow> (nat \<Rightarrow> string option) \<Rightarrow> gotime \<Rightarrow> string \<Rightarrow> string \<Rightarrow> api_server" where
  \<comment> \<open>the first argument is the environment's \<open>API_KEY\<close>\<close>
  "NewServer env draw now cert key =
     \<lparr>apiKey = (if env = [] then GenerateID (draw 0) now @ GenerateID (draw 1) now else env),
      certFile = cert, keyFile = key\<rparr>"

definition query_get :: "request \<Rightarrow> string \<Rightarrow> string" where
  "query_get r k = mget_or [] (r_query r) k"

type_synonym handler = "request \<Rightarrow> node \<Rightarrow> (response \<times> node) outcome"

definition authMiddleware :: "api_server \<Rightarrow> handler \<Rightarrow> handler" where
  \<comment> \<open>\<open>subtle.ConstantTimeCompare\<close> is 1 exactly for equal strings\<close>
  "authMiddleware s next_handler r n =
     (if r_path r = ''/api/health'' \<and> r_method r = ''GET'' then next_handler r n
      else
        (let auth = (if r_authorization r = [] then query_get r ''api_key'' else r_authorization r);
             bearerMatch = (auth = ''Bearer '' @ apiKey s);
             directMatch = (auth = apiKey s)
         in if \<not> bearerMatch \<and> \<not> directMatch then Ret ((401, ErrorBody ''unauthorized''), n)
            else next_handler r n))"

section \<open>Handlers\<close>

definition only_method :: "string \<Rightarrow> handler \<Rightarrow> handler" where
  \<comment> \<open>the check all handlers start with\<close>
  "only_method m h r n = (if r_method r \<noteq> m then Ret ((405, ErrorBody ''Method not allowed''), n) else h r n)"

definition api_sender :: "node \<Rightarrow> string \<Rightarrow> string" where
  "api_sender n sender =
     (if sender = [] then ''api-bot''
      else if Auth_GetRole (n_auth n) sender = [] then ''api-bot'' else sender)"

definition handleMessage :: "node_env \<Rightarrow> handler" where
  \<comment> \<open>the handler waits for the event loop to take the message; here it is then in \<open>bcast\<close>\<close>
  "handleMessage e = only_method ''POST'' (\<lambda>r n.
     case r_body r of
       None \<Rightarrow> Ret ((400, ErrorBody ''Invalid JSON or body too large''), n)
     | Some req \<Rightarrow>
         if rq_content req = [] then Ret ((400, ErrorBody ''content is required''), n)
         else
           (let sender = api_sender n (rq_sender req) in
            if MaxMessageSize < length (rq_content req) then Ret ((413, ErrorBody ''content exceeds maximum size''), n)
            else
              (let msgType = (if rq_recipient req \<noteq> [] then MsgTypeDirectMessage else MsgTypeChat);
                   msg = no_message\<lparr>Type := msgType, ID := GenerateID (ne_draw e 6) (ne_now e), Sender := sender,
                     Content := rq_content req, Channel := rq_channel req, Recipient := rq_recipient req,
                     Timestamp := ne_now e\<rparr>
               in Ret ((201, SentBody (ID msg)), InjectMessage e msg n))))"

definition handleChannels :: handler where
  "handleChannels = only_method ''GET'' (\<lambda>r n. Ret ((200, ChannelsBody (Manager_List False (n_channels n))), n))"

definition page_limit :: "request \<Rightarrow> int" where
  "page_limit r =
     (let l = query_get r ''limit''; limit = (if l = [] then 50 else Sscanf_d l 50) in if 200 < limit then 200 else limit)"

definition page_offset :: "request \<Rightarrow> int" where
  "page_offset r = (let off = query_get r ''offset'' in if off = [] then 0 else Sscanf_d off 0)"

definition path_channel :: "request \<Rightarrow> string" where
  "path_channel r = hd (Split (TrimPrefix (r_path r) ''/api/channels/'') CHR ''/'')"

definition handleChannelHistory :: handler where
  "handleChannelHistory = only_method ''GET'' (\<lambda>r n.
     let channelName = path_channel r in
     if channelName = [] then Ret ((400, ErrorBody ''Channel name required''), n)
     else obind (GetChannelMessages channelName (page_limit r) (page_offset r) (n_storage n))
       (\<lambda>(msgs, total). Ret ((200, HistoryBody channelName msgs total (page_limit r) (page_offset r)), n)))"

definition handleUsers :: handler where
  "handleUsers = only_method ''GET'' (\<lambda>r n.
     obind (GetOnlineUsers n) (\<lambda>(onlineUsers, n). Ret ((200, UsersBody onlineUsers (Auth_GetAllProfiles (n_auth n))), n)))"

definition handleHealth :: "node_env \<Rightarrow> handler" where
  "handleHealth e = only_method ''GET'' (\<lambda>r n.
     obind (GetNodeInfo n) (\<lambda>(info, n). Ret ((200, HealthBody info (ne_now e)), n)))"

definition handleSearch :: "node_lib \<Rightarrow> handler" where
  "handleSearch L = only_method ''GET'' (\<lambda>r n.
     let query = query_get r ''q'' in
     if query = [] then Ret ((400, ErrorBody (''query parameter '' @ [CHR 0x27] @ ''q'' @ [CHR 0x27] @ '' is required'')), n)
     else (let results = SearchMessages (lib_lower L) query (n_storage n)
           in Ret ((200, SearchBody query results (length results)), n)))"

definition serve :: "node_lib \<Rightarrow> node_env \<Rightarrow> api_server \<Rightarrow> handler" where
  "serve L e s r n =
     (let p = r_path r in
      if p = ''/api/message'' then authMiddleware s (handleMessage e) r n
      else if p = ''/api/channels'' then authMiddleware s handleChannels r n
      else if HasPrefix p ''/api/channels/'' then authMiddleware s handleChannelHistory r n
      else if p = ''/api/users'' then authMiddleware s handleUsers r n
      else if p = ''/api/health'' then handleHealth e r n
      else if p = ''/api/search'' then authMiddleware s (handleSearch L) r n
      else Ret ((404, ErrorBody ''404 page not found''), n))"

section \<open>What the key protects\<close>

definition credential :: "request \<Rightarrow> string" where
  "credential r = (if r_authorization r = [] then query_get r ''api_key'' else r_authorization r)"

definition knows_key :: "api_server \<Rightarrow> request \<Rightarrow> bool" where
  "knows_key s r = (credential r = apiKey s \<or> credential r = ''Bearer '' @ apiKey s)"

lemma authMiddleware_alt:
  "authMiddleware s h r n =
     (if r_path r = ''/api/health'' \<and> r_method r = ''GET'' \<or> knows_key s r then h r n
      else Ret ((401, ErrorBody ''unauthorized''), n))"
  by (auto simp: authMiddleware_def knows_key_def credential_def Let_def)

lemma health_is_no_prefix: "\<not> HasPrefix ''/api/health'' ''/api/channels/''"
  by (simp add: HasPrefix_def)

text \<open>
  C20. The key guards the interface. A request without it changes nothing and is answered with an error and no data
  of the node, whatever its path, method, parameters and body, except for \<open>GET /api/health\<close>, which tells everybody the
  node's state; a request with it never gets the answer 401.
\<close>

theorem api_key_required:
  assumes "n_mu n = Readers 0" and "serve L e s r n = Ret ((status, body), n')"
  shows "(\<not> knows_key s r \<longrightarrow>
       n' = n \<and> ((status \<in> {401, 404, 405} \<and> (\<exists>t. body = ErrorBody t)) \<or>
         r_path r = ''/api/health'' \<and> r_method r = ''GET'' \<and> (\<exists>i t. body = HealthBody i t))) \<and>
    (knows_key s r \<longrightarrow> status \<noteq> 401)"
proof -
  have answer: "status = 405 \<and> n' = n \<and> (\<exists>t. body = ErrorBody t) \<or>
      n' = n \<and> status = 200 \<and> r_method r = ''GET'' \<and> (\<exists>i t. body = HealthBody i t)"
    if "handleHealth e r n = Ret ((status, body), n')"
    using that assms(1) by (auto simp: handleHealth_def only_method_def GetNodeInfo_def reading_free split: if_splits)
  have unauthorized: "status \<noteq> 401" if "h r n = Ret ((status, body), n')"
    "h \<in> {handleMessage e, handleChannels, handleChannelHistory, handleUsers, handleSearch L}" for h
    using that by (auto simp: handleMessage_def handleChannels_def handleChannelHistory_def handleUsers_def handleSearch_def
        only_method_def Let_def obind_Ret_iff split: if_splits option.splits)
  have "(\<exists>h\<in>{handleMessage e, handleChannels, handleChannelHistory, handleUsers, handleSearch L}.
        serve L e s r n = authMiddleware s h r n \<and> r_path r \<noteq> ''/api/health'') \<or>
      (r_path r = ''/api/health'' \<and> serve L e s r n = handleHealth e r n) \<or>
      serve L e s r n = Ret ((404, ErrorBody ''404 page not found''), n)"
    using health_is_no_prefix by (simp add: serve_def Let_def)
  then consider (guarded) h where "serve L e s r n = authMiddleware s h r n" "r_path r \<noteq> ''/api/health''"
      "h \<in> {handleMessage e, handleChannels, handleChannelHistory, handleUsers, handleSearch L}"
    | (health) "r_path r = ''/api/health''" "serve L e s r n = handleHealth e r n"
    | (other) "serve L e s r n = Ret ((404, ErrorBody ''404 page not found''), n)"
    by blast
  then show ?thesis
  proof cases
    case guarded
    then show ?thesis using assms(2) unauthorized [of h] by (cases "knows_key s r") (simp_all add: authMiddleware_alt)
  next
    case health
    then show ?thesis using assms(2) answer by auto
  next
    case other
    then show ?thesis using assms(2) by auto
  qed
qed

definition api_get :: "string \<Rightarrow> string \<Rightarrow> (string \<times> string) list \<Rightarrow> request" where
  "api_get path key q = \<lparr>r_path = path, r_method = ''GET'', r_authorization = key, r_query = q, r_body = None\<rparr>"

definition demo_server :: api_server where
  "demo_server = \<lparr>apiKey = ''k3y'', certFile = [], keyFile = []\<rparr>"

theorem api_key_required_witness:
  "\<exists>t. serve demo_lib demo_env demo_server (api_get ''/api/users'' ''guess'' []) demo_node = Ret ((401, ErrorBody t), demo_node)"
proof -
  have "\<not> knows_key demo_server (api_get ''/api/users'' ''guess'' [])"
    by (simp add: knows_key_def credential_def demo_server_def api_get_def)
  moreover have "serve demo_lib demo_env demo_server (api_get ''/api/users'' ''guess'' []) demo_node =
      Ret ((401, ErrorBody ''unauthorized''), demo_node)"
    using calculation by (simp add: serve_def authMiddleware_alt api_get_def HasPrefix_def)
  ultimately show ?thesis using api_key_required [OF demo_simps(4)] by blast
qed

text \<open>
  The interface speaks for anybody. The check that the sender of a posted message is a real user cannot fail:
  \<open>GetRole\<close> answers \<open>member\<close> for unknown users. Whoever has the key can post under every name that is not empty,
  registered or not, as long as no profile has an empty role; the message goes to the event loop like any other.
\<close>

theorem api_impersonates:
  assumes "knows_key s r" and "r_path r = ''/api/message''" and "r_method r = ''POST''" and "r_body r = Some req"
    and "rq_content req \<noteq> []" and "length (rq_content req) \<le> MaxMessageSize" and "rq_sender req \<noteq> []"
    and "list_all (\<lambda>(_, p). Role p \<noteq> []) (users (n_auth n))"
  shows "\<exists>m. serve L e s r n = Ret ((201, SentBody (GenerateID (ne_draw e 6) (ne_now e))), enqueue None m n) \<and>
    Sender m = rq_sender req \<and> Content m = rq_content req \<and>
    Channel m = (if rq_channel req = [] then ''general'' else rq_channel req) \<and>
    (Type m = MsgTypeDirectMessage \<longleftrightarrow> rq_recipient req \<noteq> [])"
proof -
  have "Auth_GetRole (n_auth n) (rq_sender req) \<noteq> []"
    using assms(8) list_all_mget [of "\<lambda>(_, p). Role p \<noteq> []" "users (n_auth n)" "rq_sender req"]
    by (auto simp: Auth_GetRole_def split: option.split)
  then have "api_sender n (rq_sender req) = rq_sender req" using assms(7) by (simp add: api_sender_def)
  moreover have "serve L e s r n = handleMessage e r n" using assms(1,2) by (simp add: serve_def authMiddleware_alt)
  ultimately show ?thesis using assms(3-6)
    by (auto simp: handleMessage_def only_method_def InjectMessage_def Let_def not_less [symmetric])
qed

theorem api_impersonates_witness:
  "\<exists>m. serve demo_lib demo_env demo_server
       \<lparr>r_path = ''/api/message'', r_method = ''POST'', r_authorization = ''Bearer k3y'', r_query = [],
        r_body = Some \<lparr>rq_content = ''hi'', rq_sender = ''nobody'', rq_channel = [], rq_recipient = []\<rparr>\<rparr> demo_node =
     Ret ((201, SentBody (GenerateID (ne_draw demo_env 6) zero_time)), enqueue None m demo_node) \<and>
     Sender m = ''nobody'' \<and> \<not> Auth_UserExists demo_auth ''nobody''"
  using api_impersonates [of demo_server "\<lparr>r_path = ''/api/message'', r_method = ''POST'', r_authorization = ''Bearer k3y'',
      r_query = [], r_body = Some \<lparr>rq_content = ''hi'', rq_sender = ''nobody'', rq_channel = [], rq_recipient = []\<rparr>\<rparr>"
      "\<lparr>rq_content = ''hi'', rq_sender = ''nobody'', rq_channel = [], rq_recipient = []\<rparr>" demo_node demo_lib demo_env]
  by (auto simp: knows_key_def credential_def demo_server_def demo_auth_def demo_profile_def MaxMessageSize_def
      Auth_UserExists_def mhas_def)

text \<open>
  C37. A page of history. For a limit and an offset that are not negative the answer holds at most 200 messages: of the
  channel named in the path, the last ones after leaving out as many of the newest as the offset says. A negative
  limit makes the handler panic where the channel has a message.
\<close>

theorem api_history_page:
  assumes "knows_key s r" and "HasPrefix (r_path r) ''/api/channels/''" and "r_method r = ''GET''"
    and "path_channel r \<noteq> []" and "int (length (chan (n_storage n) (path_channel r))) < 2 ^ 62"
    and "- (2 ^ 62) < page_limit r" and "0 \<le> page_offset r" and "page_offset r < 2 ^ 61"
  shows "(let V = view (n_storage n) (chan (n_storage n) (path_channel r));
          P = take_last (nat (page_limit r)) (take (length V - nat (page_offset r)) V)
      in (0 \<le> page_limit r \<longrightarrow> length P \<le> 200 \<and>
           serve L e s r n = Ret ((200, HistoryBody (path_channel r) P (int (length V)) (page_limit r) (page_offset r)), n)) \<and>
         (page_limit r < 0 \<and> V \<noteq> [] \<and> page_offset r \<le> int (length V) \<longrightarrow> serve L e s r n = Panic))"
proof -
  let ?s = "n_storage n" and ?ch = "path_channel r"
  have nch: "normalizeChannel ?ch = ?ch" using assms(4) by (simp add: normalizeChannel_def)
  have limit: "page_limit r \<le> 200" by (simp add: page_limit_def Let_def)
  have paths: "r_path r \<noteq> ''/api/message''" "r_path r \<noteq> ''/api/channels''"
    using assms(2) by (auto simp: HasPrefix_def)
  have serve: "serve L e s r n = obind (GetChannelMessages ?ch (page_limit r) (page_offset r) ?s)
      (\<lambda>(msgs, total). Ret ((200, HistoryBody ?ch msgs total (page_limit r) (page_offset r)), n))"
    using assms(1-4) paths by (simp add: serve_def authMiddleware_alt handleChannelHistory_def only_method_def Let_def)
  have "GetChannelMessages ?ch (page_limit r) (page_offset r) ?s = Panic"
    if "page_limit r < 0" "chan ?s ?ch \<noteq> []" "page_offset r \<le> int (length (chan ?s ?ch))"
    using negative_limit [of ?s ?ch "page_limit r" "page_offset r"] that assms(5-7) nch by simp
  moreover have "GetChannelMessages ?ch (page_limit r) (page_offset r) ?s =
      (let V = view ?s (chan ?s ?ch) in
       Ret (take_last (nat (page_limit r)) (take (length V - nat (page_offset r)) V), int (length V)))"
    if "0 \<le> page_limit r"
    using page [of ?s ?ch "nat (page_limit r)" "nat (page_offset r)"] that assms(5,7,8) limit nch by simp
  ultimately show ?thesis using serve limit by (auto simp: Let_def view_def)
qed

theorem api_history_page_witness:
  "serve demo_lib demo_env demo_server (api_get ''/api/channels/general/history'' ''k3y'' [(''limit'', ''-1'')]) memo_node = Panic"
proof -
  let ?r = "api_get ''/api/channels/general/history'' ''k3y'' [(''limit'', ''-1'')]"
  have r: "knows_key demo_server ?r" "HasPrefix (r_path ?r) ''/api/channels/''" "r_method ?r = ''GET''"
    by (simp_all add: knows_key_def credential_def demo_server_def api_get_def HasPrefix_def)
  have ch: "path_channel ?r = ''general''"
    by (simp add: path_channel_def api_get_def TrimPrefix_def HasPrefix_def)
  have lim: "page_limit ?r = -1" "page_offset ?r = 0"
    by (simp_all add: page_limit_def page_offset_def query_get_def api_get_def mget_or_def)
      (simp add: Sscanf_d_def scan_int_def skip_space.simps scan_number_def is_digit_def digits_val_def in_int64_def ascii_space_def Let_def)
  have V: "length (chan memo_store ''general'') = 1"
  proof -
    have "map ID (chan memo_store ''general'') = [''00000001'']"
      using Save_step_chan(1) [of memo plain_save "test_store 1024" "''general''"]
      by (simp add: memo_store_def store_step_def memo_def chat_def MaxMessageSize_def normalizeChannel_def prepare_msg_def
          trim_capacity_def Let_def)
    then show ?thesis by (metis length_map One_nat_def length_Cons list.size(3))
  qed
  then have "view memo_store (chan memo_store ''general'') \<noteq> []" by (auto simp: view_def)
  then show ?thesis
    using api_history_page [OF r, of memo_node demo_lib demo_env] V by (simp add: ch lim view_def Let_def)
qed

end
