(* ===== verification/Tui.thy ===== *)
theory Tui
  imports Node
begin

text \<open>
  \<open>internal/tui/model.go\<close>, the state and the update function of the terminal client. BubbleTea hands \<open>Update\<close> one
  message after the other, so it is a function on the model. The text input and the viewport are components of a
  library: \<open>tui_lib\<close> holds what they do to a key, to new contents and to scrolling; what the program itself sets in
  them are fields. Calls of \<open>sendFunc\<close> are collected in \<open>sent_msgs\<close>. What is drawn is in theory \<open>TuiView\<close>; \<open>Update\<close>
  takes it as the argument \<open>render\<close>, since it puts the drawn messages into the viewport.
\<close>

section \<open>State\<close>

datatype focus = FocusInput | FocusSidebar | FocusChat

record channel_state =
  Messages :: "wire_msg list"
  Unread :: int

record text_input =
  Placeholder :: string
  CharLimit :: int
  in_Width :: int
  in_Value :: string
  in_Focused :: bool

record viewport =
  vp_Width :: int
  vp_Height :: int
  vp_Content :: string
  vp_Offset :: int

record tui =
  username :: string
  secretKey :: string
  t_width :: int
  t_height :: int
  t_focus :: focus
  t_input :: text_input
  t_viewport :: viewport
  t_channels :: "string list"
  activeChannel :: string
  channelState :: "(string, channel_state) gomap"
  dmUsers :: "string list"
  sidebarCursor :: int
  statusText :: string
  typingUsers :: "(string, gotime) gomap"
  connected :: bool
  sent_msgs :: "wire_msg list"

datatype tea_msg =
    WindowSizeMsg int int
  | KeyMsg string
  | ServerMsg wire_msg
  | ErrorMsg string
  | OtherMsg   \<comment> \<open>any other message: the cursor blinks, the mouse moves\<close>

record tui_lib =
  input_update :: "tea_msg \<Rightarrow> text_input \<Rightarrow> text_input"
  SetContent :: "string \<Rightarrow> viewport \<Rightarrow> viewport"
  GotoBottom :: "viewport \<Rightarrow> viewport"
  LineUp :: "nat \<Rightarrow> viewport \<Rightarrow> viewport"
  LineDown :: "nat \<Rightarrow> viewport \<Rightarrow> viewport"

definition no_state :: channel_state where
  "no_state = \<lparr>Messages = [], Unread = 0\<rparr>"

definition NewModel :: "string \<Rightarrow> string \<Rightarrow> tui" where
  "NewModel user key =
     \<lparr>username = user, secretKey = key, t_width = 0, t_height = 0, t_focus = FocusInput,
      t_input = \<lparr>Placeholder = ''Type a message...'', CharLimit = 2000, in_Width = 60, in_Value = [], in_Focused = True\<rparr>,
      t_viewport = \<lparr>vp_Width = 60, vp_Height = 20, vp_Content = [], vp_Offset = 0\<rparr>,
      t_channels = [''general''], activeChannel = ''general'', channelState = [(''general'', no_state)],
      dmUsers = [], sidebarCursor = 0, statusText = ''Connected'', typingUsers = [], connected = True, sent_msgs = []\<rparr>"

section \<open>Channels\<close>

definition sidebarWidth :: "tui \<Rightarrow> int" where
  \<comment> \<open>the quotient is only used where it is at least 20, so rounding it down is rounding it to zero\<close>
  "sidebarWidth m =
     (let w = t_width m div 4; w = (if w < 20 then 20 else w); w = (if 35 < w then 35 else w) in w)"

definition sidebarItems :: "tui \<Rightarrow> string list" where
  "sidebarItems m = t_channels m @ map (\<lambda>u. ''dm:'' @ u) (dmUsers m)"

definition ensureChannel :: "string \<Rightarrow> tui \<Rightarrow> tui" where
  "ensureChannel name m =
     (if mhas (channelState m) name then m
      else
        (let m = m\<lparr>channelState := mput name no_state (channelState m)\<rparr> in
         if HasPrefix name ''dm:'' then m else m\<lparr>t_channels := t_channels m @ [name]\<rparr>))"

definition change_state :: "string \<Rightarrow> (channel_state \<Rightarrow> channel_state) \<Rightarrow> tui \<Rightarrow> tui" where
  \<comment> \<open>an update through the pointer \<open>m.channelState[name]\<close>\<close>
  "change_state name f m =
     (case mget (channelState m) name of
        None \<Rightarrow> m
      | Some st \<Rightarrow> m\<lparr>channelState := mput name (f st) (channelState m)\<rparr>)"

definition switchToChannel :: "string \<Rightarrow> tui \<Rightarrow> tui" where
  "switchToChannel name m =
     (let m = ensureChannel name m; m = m\<lparr>activeChannel := name\<rparr>
      in change_state name (\<lambda>st. st\<lparr>Unread := 0\<rparr>) m)"

fun index_of :: "'a \<Rightarrow> 'a list \<Rightarrow> nat option" where
  \<comment> \<open>the position at which the loops of \<open>nextChannel\<close> and \<open>prevChannel\<close> find the active channel\<close>
  "index_of x [] = None"
| "index_of x (y # ys) = (if y = x then Some 0 else map_option Suc (index_of x ys))"

definition nextChannel :: "tui \<Rightarrow> tui" where
  "nextChannel m =
     (let items = sidebarItems m in
      case index_of (activeChannel m) items of
        None \<Rightarrow> m
      | Some i \<Rightarrow> switchToChannel (items ! ((i + 1) mod length items)) m)"

definition prevChannel :: "tui \<Rightarrow> tui" where
  \<comment> \<open>\<open>i - 1 + len(items)\<close> is not negative\<close>
  "prevChannel m =
     (let items = sidebarItems m in
      case index_of (activeChannel m) items of
        None \<Rightarrow> m
      | Some i \<Rightarrow> switchToChannel (items ! ((i + length items - 1) mod length items)) m)"

section \<open>What the user types\<close>

definition tui_message :: "node_env \<Rightarrow> string \<Rightarrow> tui \<Rightarrow> wire_msg" where
  "tui_message e content m =
     no_message\<lparr>Type := MsgTypeChat, ID := GenerateID (ne_draw e 9) (ne_now e), Sender := username m,
       Content := content, Channel := activeChannel m, Timestamp := ne_now e\<rparr>"

definition sendFunc :: "wire_msg \<Rightarrow> tui \<Rightarrow> tui" where
  "sendFunc msg m = m\<lparr>sent_msgs := sent_msgs m @ [msg]\<rparr>"

definition handleInput :: "node_lib \<Rightarrow> node_env \<Rightarrow> string \<Rightarrow> tui \<Rightarrow> tui outcome" where
  "handleInput L e text m =
     (if HasPrefix text ''/'' then
        (let parts = Fields text;
             m = (if HasPrefix text ''/channel switch '' \<and> 3 \<le> length parts then switchToChannel (parts ! 2) m else m)
         in Ret (sendFunc (tui_message e text m) m))
      else
        obind (if secretKey m = [] then Ret None
               else Encrypt (lib_argon L) (lib_gcm L) (ne_enc_salt e) (ne_enc_nonce e) text (secretKey m))
          (\<lambda>r. let content = (case r of None \<Rightarrow> text | Some encrypted \<Rightarrow> encrypted)
                in Ret (sendFunc (tui_message e content m) m)))"

section \<open>What the server sends\<close>

definition add_message :: "string \<Rightarrow> bool \<Rightarrow> wire_msg \<Rightarrow> tui \<Rightarrow> tui" where
  \<comment> \<open>append to a channel that is made if it is missing; count it as unread if asked to and it is not shown\<close>
  "add_message ch badge msg m =
     (let m = ensureChannel ch m in
      change_state ch (\<lambda>st. st\<lparr>Messages := Messages st @ [msg],
          Unread := (if badge \<and> ch \<noteq> activeChannel m then Unread st + 1 else Unread st)\<rparr>) m)"

definition msg_channel :: "wire_msg \<Rightarrow> string" where
  "msg_channel msg = (if Channel msg = [] then ''general'' else Channel msg)"

definition on_messages :: "(wire_msg list \<Rightarrow> wire_msg list) \<Rightarrow> tui \<Rightarrow> tui" where
  \<comment> \<open>\<open>for ch, state := range m.channelState\<close>\<close>
  "on_messages f m = m\<lparr>channelState := map (\<lambda>(ch, st). (ch, st\<lparr>Messages := f (Messages st)\<rparr>)) (channelState m)\<rparr>"

definition tally :: "string \<Rightarrow> string \<Rightarrow> wire_msg \<Rightarrow> wire_msg" where
  "tally emoji user w =
     (let R = (case Reactions w of None \<Rightarrow> [] | Some R \<Rightarrow> R)
      in w\<lparr>Reactions := Some (mput emoji (mget_or [] R emoji @ [user]) R)\<rparr>)"

definition show_dm :: "wire_msg \<Rightarrow> tui \<Rightarrow> tui" where
  "show_dm msg m =
     (let other = (if Sender msg = username m then Recipient msg else Sender msg);
          m = add_message (''dm:'' @ other) True msg m
      in if other \<in> set (dmUsers m) then m else m\<lparr>dmUsers := dmUsers m @ [other]\<rparr>)"

definition handleServerMessage :: "node_lib \<Rightarrow> gotime \<Rightarrow> wire_msg \<Rightarrow> tui \<Rightarrow> tui outcome" where
  "handleServerMessage L now msg m =
     (case Type msg of
        MsgTypeChat \<Rightarrow>
          obind (if secretKey m = [] then Ret None else Decrypt (lib_argon L) (lib_gcm L) (Content msg) (secretKey m))
            (\<lambda>r. let msg' = (case r of None \<Rightarrow> msg | Some decrypted \<Rightarrow> msg\<lparr>Content := decrypted\<rparr>)
                  in Ret (add_message (msg_channel msg) True msg' m))
      | MsgTypeImage \<Rightarrow> Ret (add_message (msg_channel msg) True msg m)
      | MsgTypeDirectMessage \<Rightarrow> Ret (show_dm msg m)
      | MsgTypeJoin \<Rightarrow> Ret (add_message (msg_channel msg) False msg m)
      | MsgTypeLeave \<Rightarrow> Ret (add_message (msg_channel msg) False msg m)
      | MsgTypeEditMessage \<Rightarrow>
          Ret (on_messages (update_first (\<lambda>w. ID w = ID msg) (\<lambda>w. w\<lparr>Content := Content msg, Edited := True\<rparr>)) m)
      | MsgTypeDeleteMessage \<Rightarrow> Ret (on_messages (delete_first (\<lambda>w. ID w = ID msg)) m)
      | MsgTypeReaction \<Rightarrow>
          Ret (on_messages (update_first (\<lambda>w. ID w = ID msg) (tally (Content msg) (Sender msg))) m)
      | MsgTypeTyping \<Rightarrow>
          Ret (if Sender msg = username m then m else m\<lparr>typingUsers := mput (Sender msg) now (typingUsers m)\<rparr>)
      | MsgTypeStatusChange \<Rightarrow> Ret (m\<lparr>statusText := Sender msg @ '' is now '' @ Content msg\<rparr>)
      | _ \<Rightarrow> Ret m)"

section \<open>The update function\<close>

definition refresh :: "tui_lib \<Rightarrow> (tui \<Rightarrow> string) \<Rightarrow> tui \<Rightarrow> tui" where
  "refresh T render m = m\<lparr>t_viewport := GotoBottom T (SetContent T (render m) (t_viewport m))\<rparr>"

definition set_focus :: "focus \<Rightarrow> tui \<Rightarrow> tui" where
  \<comment> \<open>\<open>m.input.Focus()\<close> with the focus on the input, \<open>m.input.Blur()\<close> without\<close>
  "set_focus f m = m\<lparr>t_focus := f, t_input := (t_input m)\<lparr>in_Focused := (f = FocusInput)\<rparr>\<rparr>"

definition update_input :: "tui_lib \<Rightarrow> tea_msg \<Rightarrow> tui \<Rightarrow> tui" where
  \<comment> \<open>where no case returned\<close>
  "update_input T msg m =
     (if t_focus m = FocusInput then m\<lparr>t_input := input_update T msg (t_input m)\<rparr> else m)"

definition resize :: "tui_lib \<Rightarrow> (tui \<Rightarrow> string) \<Rightarrow> int \<Rightarrow> int \<Rightarrow> tui \<Rightarrow> tui" where
  "resize T render w h m =
     (let m = m\<lparr>t_width := w, t_height := h\<rparr>; chatWidth = w - sidebarWidth m - 3 in
      refresh T render
        (m\<lparr>t_viewport := (t_viewport m)\<lparr>vp_Width := chatWidth, vp_Height := h - 4\<rparr>,
           t_input := (t_input m)\<lparr>in_Width := chatWidth - 4\<rparr>\<rparr>))"

definition sidebar_key :: "tui_lib \<Rightarrow> (tui \<Rightarrow> string) \<Rightarrow> string \<Rightarrow> tui \<Rightarrow> tui option" where
  "sidebar_key T render key m =
     (if key = ''j'' \<or> key = ''down'' then
        Some (if sidebarCursor m < int (length (sidebarItems m)) - 1 then m\<lparr>sidebarCursor := sidebarCursor m + 1\<rparr> else m)
      else if key = ''k'' \<or> key = ''up'' then
        Some (if 0 < sidebarCursor m then m\<lparr>sidebarCursor := sidebarCursor m - 1\<rparr> else m)
      else if key = ''enter'' then
        Some (let items = sidebarItems m in
              if sidebarCursor m < int (length items)
              then set_focus FocusInput (refresh T render (switchToChannel (items ! nat (sidebarCursor m)) m))
              else m)
      else None)"

definition input_key :: "tui_lib \<Rightarrow> (tui \<Rightarrow> string) \<Rightarrow> node_lib \<Rightarrow> node_env \<Rightarrow> string \<Rightarrow> tui \<Rightarrow> tui outcome option" where
  "input_key T render L e key m =
     (if key = ''enter'' then
        Some (let text = TrimSpace (in_Value (t_input m)) in
              if text = [] then Ret m
              else obind (handleInput L e text (m\<lparr>t_input := (t_input m)\<lparr>in_Value := []\<rparr>\<rparr>)) (\<lambda>m. Ret (refresh T render m)))
      else if key = ''pgup'' then Some (Ret (m\<lparr>t_viewport := LineUp T 5 (t_viewport m)\<rparr>))
      else if key = ''pgdown'' then Some (Ret (m\<lparr>t_viewport := LineDown T 5 (t_viewport m)\<rparr>))
      else None)"

definition key_press :: "tui_lib \<Rightarrow> (tui \<Rightarrow> string) \<Rightarrow> node_lib \<Rightarrow> node_env \<Rightarrow> string \<Rightarrow> tui \<Rightarrow> (tui \<times> bool) outcome" where
  \<comment> \<open>the second component: the program quits\<close>
  "key_press T render L e key m =
     (if key = ''ctrl+c'' \<or> key = ''ctrl+q'' then Ret (m, True)
      else if key = ''esc'' then Ret (set_focus (if t_focus m = FocusInput then FocusSidebar else FocusInput) m, False)
      else if key = ''tab'' then Ret (refresh T render (nextChannel m), False)
      else if key = ''shift+tab'' then Ret (refresh T render (prevChannel m), False)
      else
        (case (if t_focus m = FocusSidebar then sidebar_key T render key m else None) of
           Some m' \<Rightarrow> Ret (m', False)
         | None \<Rightarrow>
             (case (if t_focus m = FocusInput then input_key T render L e key m else None) of
                Some r \<Rightarrow> obind r (\<lambda>m'. Ret (m', False))
              | None \<Rightarrow> Ret (update_input T (KeyMsg key) m, False))))"

fun Update :: "tui_lib \<Rightarrow> (tui \<Rightarrow> string) \<Rightarrow> node_lib \<Rightarrow> node_env \<Rightarrow> tea_msg \<Rightarrow> tui \<Rightarrow> (tui \<times> bool) outcome" where
  "Update T render L e (WindowSizeMsg w h) m = Ret (update_input T (WindowSizeMsg w h) (resize T render w h m), False)"
| "Update T render L e (KeyMsg key) m = key_press T render L e key m"
| "Update T render L e (ServerMsg msg) m =
     obind (handleServerMessage L (ne_now e) msg m) (\<lambda>m. Ret (refresh T render m, False))"
| "Update T render L e (ErrorMsg err) m = Ret (m\<lparr>statusText := ''Error: '' @ err\<rparr>, False)"
| "Update T render L e OtherMsg m = Ret (update_input T OtherMsg m, False)"

end
