(* ===== verification/TuiInv.thy ===== *)
theory TuiInv
  imports Tui NodeDemo
begin

text \<open>
  What every state of the terminal client satisfies (\<open>tui_inv\<close>, kept by \<open>Update\<close>), and how the tabulator key goes
  through the sidebar.
\<close>

definition tui_inv :: "tui \<Rightarrow> bool" where
  "tui_inv m =
     (mkeys_distinct (channelState m) \<and> list_all (\<lambda>(_, st). 0 \<le> Unread st) (channelState m) \<and>
      distinct (t_channels m) \<and> ''general'' \<in> set (t_channels m) \<and>
      list_all (\<lambda>ch. mhas (channelState m) ch \<and> \<not> HasPrefix ch ''dm:'') (t_channels m) \<and>
      list_all (\<lambda>(ch, _). HasPrefix ch ''dm:'' \<or> ch \<in> set (t_channels m)) (channelState m) \<and>
      distinct (dmUsers m) \<and> list_all (\<lambda>u. mhas (channelState m) (''dm:'' @ u)) (dmUsers m) \<and>
      (case mget (channelState m) (activeChannel m) of None \<Rightarrow> False | Some st \<Rightarrow> Unread st = 0) \<and>
      0 \<le> sidebarCursor m \<and> sidebarCursor m < int (length (sidebarItems m)))"

lemma tui_inv_NewModel: "tui_inv (NewModel user key)"
  by (simp add: tui_inv_def NewModel_def no_state_def mhas_def HasPrefix_def sidebarItems_def mkeys_distinct_def)

lemma tui_inv_cong:
  "t_channels m' = t_channels m \<Longrightarrow> activeChannel m' = activeChannel m \<Longrightarrow> channelState m' = channelState m \<Longrightarrow>
     dmUsers m' = dmUsers m \<Longrightarrow> sidebarCursor m' = sidebarCursor m \<Longrightarrow> tui_inv m' = tui_inv m"
  by (simp add: tui_inv_def sidebarItems_def)

lemma tui_inv_frame [simp]:
  "tui_inv (m\<lparr>t_width := w\<rparr>) = tui_inv m" "tui_inv (m\<lparr>t_height := w\<rparr>) = tui_inv m"
  "tui_inv (m\<lparr>t_focus := fo\<rparr>) = tui_inv m" "tui_inv (m\<lparr>t_input := inp\<rparr>) = tui_inv m"
  "tui_inv (m\<lparr>t_viewport := vp\<rparr>) = tui_inv m" "tui_inv (m\<lparr>statusText := tx\<rparr>) = tui_inv m"
  "tui_inv (m\<lparr>typingUsers := ty\<rparr>) = tui_inv m" "tui_inv (m\<lparr>sent_msgs := ms\<rparr>) = tui_inv m"
  by (rule tui_inv_cong; simp)+

lemma tui_inv_ops [simp]:
  "tui_inv (refresh T r m) = tui_inv m" "tui_inv (set_focus f m) = tui_inv m" "tui_inv (update_input T t m) = tui_inv m"
  "tui_inv (resize T r w h m) = tui_inv m" "tui_inv (sendFunc msg m) = tui_inv m"
  by (simp_all add: refresh_def set_focus_def update_input_def resize_def sendFunc_def Let_def)

section \<open>Channels\<close>

lemma mhas_mput [simp]: "mhas (mput k v m) k' = (k' = k \<or> mhas m k')"
  by (simp add: mhas_def)

lemma ensure_fields [simp]:
  "activeChannel (ensureChannel ch m) = activeChannel m" "dmUsers (ensureChannel ch m) = dmUsers m"
  "sidebarCursor (ensureChannel ch m) = sidebarCursor m" "username (ensureChannel ch m) = username m"
  "mhas (channelState (ensureChannel ch m)) ch"
  "mget (channelState (ensureChannel ch m)) d =
     (if d = ch \<and> \<not> mhas (channelState m) ch then Some no_state else mget (channelState m) d)"
  by (auto simp: ensureChannel_def Let_def mhas_def)

lemma tui_inv_ensure:
  assumes "tui_inv m"
  shows "tui_inv (ensureChannel ch m)"
proof (cases "mhas (channelState m) ch")
  case True
  then show ?thesis using assms by (simp add: ensureChannel_def)
next
  case False
  then have "ch \<notin> set (t_channels m)" "ch \<noteq> activeChannel m"
    using assms by (auto simp: tui_inv_def list_all_iff mhas_def)
  moreover have "list_all (\<lambda>(_, st). 0 \<le> Unread st) (mput ch no_state (channelState m))"
    using assms by (auto simp: tui_inv_def no_state_def intro: list_all_mput)
  moreover have "list_all (\<lambda>(c, _). HasPrefix c ''dm:'' \<or> c \<in> set (t_channels (ensureChannel ch m)))
      (mput ch no_state (channelState m))"
    using assms False by (intro list_all_mput) (auto simp: tui_inv_def ensureChannel_def Let_def list_all_iff)
  ultimately show ?thesis
    using assms False by (auto simp: tui_inv_def ensureChannel_def sidebarItems_def Let_def list_all_iff)
qed

lemma change_state_fields [simp]:
  "activeChannel (change_state ch f m) = activeChannel m" "dmUsers (change_state ch f m) = dmUsers m"
  "t_channels (change_state ch f m) = t_channels m" "sidebarCursor (change_state ch f m) = sidebarCursor m"
  "username (change_state ch f m) = username m" "sidebarItems (change_state ch f m) = sidebarItems m"
  "mget (channelState (change_state ch f m)) d =
     (if d = ch then map_option f (mget (channelState m) d) else mget (channelState m) d)"
  "mhas (channelState (change_state ch f m)) d = mhas (channelState m) d"
  by (auto simp: change_state_def sidebarItems_def mhas_def split: option.split)

lemma tui_inv_change:
  assumes "tui_inv m" and "\<And>st. 0 \<le> Unread st \<Longrightarrow> 0 \<le> Unread (f st)"
    and "\<And>st. ch = activeChannel m \<Longrightarrow> Unread st = 0 \<Longrightarrow> Unread (f st) = 0"
  shows "tui_inv (change_state ch f m)"
proof (cases "mget (channelState m) ch")
  case None
  then show ?thesis using assms(1) by (simp add: change_state_def)
next
  case (Some st)
  then have st: "(ch, st) \<in> set (channelState m)" by (rule mget_Some_mem)
  have "list_all (\<lambda>(_, st). 0 \<le> Unread st) (mput ch (f st) (channelState m))"
    using assms(1,2) st by (intro list_all_mput) (auto simp: tui_inv_def list_all_iff)
  moreover have "list_all (\<lambda>(c, _). HasPrefix c ''dm:'' \<or> c \<in> set (t_channels m)) (mput ch (f st) (channelState m))"
    using assms(1) st by (intro list_all_mput) (auto simp: tui_inv_def list_all_iff)
  ultimately show ?thesis
    using assms(1,3) Some by (auto simp: tui_inv_def change_state_def sidebarItems_def list_all_iff)
qed

lemma tui_inv_switch:
  assumes "tui_inv m"
  shows "tui_inv (switchToChannel ch m)"
proof -
  let ?m = "change_state ch (\<lambda>st. st\<lparr>Unread := 0\<rparr>) (ensureChannel ch m)"
  have "tui_inv ?m" by (intro tui_inv_change tui_inv_ensure assms) simp_all
  moreover have "switchToChannel ch m = ?m\<lparr>activeChannel := ch\<rparr>"
    by (simp add: switchToChannel_def change_state_def Let_def split: option.split)
  moreover have "\<exists>st. mget (channelState ?m) ch = Some st \<and> Unread st = 0"
    using ensure_fields(5) [of ch m] unfolding change_state_fields mhas_def by auto
  ultimately show ?thesis by (auto simp: tui_inv_def sidebarItems_def simp del: change_state_fields)
qed

lemma tui_inv_add: "tui_inv m \<Longrightarrow> tui_inv (add_message ch b msg m)"
  unfolding add_message_def Let_def by (intro tui_inv_change tui_inv_ensure) auto

lemma tui_inv_messages: "tui_inv m \<Longrightarrow> tui_inv (on_messages f m)"
proof -
  have keys: "mkeys_distinct (map (\<lambda>(ch, st). (ch, st\<lparr>Messages := f (Messages st)\<rparr>)) cs) = mkeys_distinct cs" for cs
    by (simp add: mkeys_distinct_def comp_def split_beta)
  have get: "mget (map (\<lambda>(ch, st). (ch, st\<lparr>Messages := f (Messages st)\<rparr>)) cs) ch =
      map_option (\<lambda>st. st\<lparr>Messages := f (Messages st)\<rparr>) (mget cs ch)" for cs ch
    by (induction cs) auto
  assume "tui_inv m"
  then show ?thesis
    by (auto simp: tui_inv_def on_messages_def sidebarItems_def keys get mhas_def list_all_iff
        split: option.splits)
qed

lemma tui_inv_dm: "tui_inv m \<Longrightarrow> tui_inv (show_dm msg m)"
proof -
  assume inv: "tui_inv m"
  have "tui_inv (if other \<in> set (dmUsers m') then m' else m'\<lparr>dmUsers := dmUsers m' @ [other]\<rparr>)"
    if m': "m' = add_message (''dm:'' @ other) True msg m" for other m'
  proof -
    have "tui_inv m'" "mhas (channelState m') (''dm:'' @ other)"
      using tui_inv_add [OF inv] by (simp_all add: m') (simp add: add_message_def Let_def)
    then show ?thesis by (auto simp: tui_inv_def sidebarItems_def)
  qed
  then show ?thesis unfolding show_dm_def Let_def by blast
qed

lemma tui_inv_server:
  assumes "tui_inv m" and "handleServerMessage L now msg m = Ret m'"
  shows "tui_inv m'"
  using assms tui_inv_add [OF assms(1)] tui_inv_dm [OF assms(1)] tui_inv_messages [OF assms(1)]
  by (auto simp: handleServerMessage_def obind_Ret_iff Let_def split: message_type.splits if_splits)

lemma tui_inv_input:
  assumes "tui_inv m" and "handleInput L e text m = Ret m'"
  shows "tui_inv m'"
  using assms tui_inv_switch [OF assms(1)] by (auto simp: handleInput_def obind_Ret_iff Let_def split: if_splits)

lemma tui_inv_tabs: "tui_inv m \<Longrightarrow> tui_inv (nextChannel m)" "tui_inv m \<Longrightarrow> tui_inv (prevChannel m)"
  by (auto simp: nextChannel_def prevChannel_def Let_def tui_inv_switch split: option.split)

lemma tui_inv_sidebar: "tui_inv m \<Longrightarrow> sidebar_key T r key m = Some m' \<Longrightarrow> tui_inv m'"
  by (auto simp: sidebar_key_def Let_def tui_inv_switch split: if_splits) (auto simp: tui_inv_def sidebarItems_def)

lemma tui_inv_step:
  assumes "tui_inv m" and "Update T r L e msg m = Ret (m', quit)"
  shows "tui_inv m'"
proof (cases msg)
  case (KeyMsg key)
  have line: "tui_inv m''" if "input_key T r L e key m = Some (Ret m'')" for m''
    using that assms(1) tui_inv_input [of "m\<lparr>t_input := (t_input m)\<lparr>in_Value := []\<rparr>\<rparr>" L e]
    by (auto simp: input_key_def Let_def obind_Ret_iff split: if_splits)
  show ?thesis using assms KeyMsg tui_inv_tabs [OF assms(1)]
    by (auto simp: key_press_def obind_Ret_iff split: if_splits option.splits dest: tui_inv_sidebar line)
qed (use assms tui_inv_server [OF assms(1)] in \<open>auto simp: obind_Ret_iff\<close>)

lemma tui_inv_items:
  assumes "tui_inv m"
  shows "distinct (sidebarItems m) \<and> (\<forall>ch \<in> set (sidebarItems m). mhas (channelState m) ch)"
proof -
  have "distinct (map (\<lambda>u. ''dm:'' @ u) (dmUsers m))" using assms by (simp add: tui_inv_def distinct_map inj_on_def)
  moreover have "''dm:'' @ u \<notin> set (t_channels m)" for u
    using assms by (auto simp: tui_inv_def list_all_iff HasPrefix_def)
  moreover have "mhas (channelState m) ch" if "ch \<in> set (t_channels m)" for ch
    using assms that by (simp add: tui_inv_def list_all_iff)
  moreover have "mhas (channelState m) (''dm:'' @ u)" if "u \<in> set (dmUsers m)" for u
    using assms that by (simp add: tui_inv_def list_all_iff)
  ultimately show ?thesis using assms unfolding sidebarItems_def
    by (auto simp: tui_inv_def simp del: append_Cons append_Nil)
qed

definition tui_step :: "tui_lib \<Rightarrow> (tui \<Rightarrow> string) \<Rightarrow> node_lib \<Rightarrow> node_env \<times> tea_msg \<Rightarrow> tui \<Rightarrow> tui outcome" where
  "tui_step T r L = (\<lambda>(e, msg) m. obind (Update T r L e msg m) (\<lambda>(m', quit). Ret m'))"

definition tui_run :: "tui_lib \<Rightarrow> (tui \<Rightarrow> string) \<Rightarrow> node_lib \<Rightarrow> (node_env \<times> tea_msg) list \<Rightarrow> tui \<Rightarrow> tui outcome" where
  "tui_run T r L = orun (tui_step T r L)"

interpretation tui_machine: outcome_machine "tui_step T r L" tui_inv for T r L
  by unfold_locales (auto simp: tui_step_def obind_Ret_iff intro: tui_inv_step)

text \<open>
  C19. The terminal client's state is sound after any keys and messages: the tabs of channels are pairwise different,
  \<open>general\<close> is among them, every tab and every partner of a direct message has its state, every state that is no
  direct message's has a tab, the channel shown exists and has no unread messages, and the cursor is on a line of the
  sidebar.
\<close>

theorem tui_invariant:
  assumes "tui_run T r L evs (NewModel user key) = Ret m"
  shows "distinct (sidebarItems m) \<and> ''general'' \<in> set (sidebarItems m) \<and>
    (\<forall>ch \<in> set (sidebarItems m). mhas (channelState m) ch) \<and>
    (\<forall>ch. mhas (channelState m) ch \<and> \<not> HasPrefix ch ''dm:'' \<longrightarrow> ch \<in> set (t_channels m)) \<and>
    (\<exists>st. mget (channelState m) (activeChannel m) = Some st \<and> Unread st = 0) \<and>
    0 \<le> sidebarCursor m \<and> sidebarCursor m < int (length (sidebarItems m))"
proof -
  have inv: "tui_inv m"
    using tui_machine.orun_invar [OF tui_inv_NewModel] assms unfolding tui_run_def by blast
  have "ch \<in> set (t_channels m)" if "mhas (channelState m) ch" "\<not> HasPrefix ch ''dm:''" for ch
    using inv that by (auto simp: tui_inv_def mhas_def list_all_iff dest!: mget_Some_mem)
  with inv show ?thesis using tui_inv_items [OF inv]
    by (auto simp: tui_inv_def sidebarItems_def split: option.splits)
qed

definition dm_from :: "string \<Rightarrow> string \<Rightarrow> wire_msg" where
  "dm_from user content = no_message\<lparr>Type := MsgTypeDirectMessage, Sender := user, Content := content\<rparr>"

definition demo_tui_lib :: tui_lib where
  "demo_tui_lib =
     \<lparr>input_update = (\<lambda>_ inp. inp), SetContent = (\<lambda>s vp. vp\<lparr>vp_Content := s\<rparr>), GotoBottom = (\<lambda>vp. vp),
      LineUp = (\<lambda>_ vp. vp), LineDown = (\<lambda>_ vp. vp)\<rparr>"

theorem tui_invariant_witness:
  "\<exists>m. tui_run demo_tui_lib (\<lambda>_. []) demo_lib [(demo_env, ServerMsg (dm_from ''bob'' ''hi'')), (demo_env, KeyMsg ''tab'')] (NewModel ''alice'' []) = Ret m \<and>
     (\<exists>st. mget (channelState m) (activeChannel m) = Some st \<and> Unread st = 0)"
proof -
  obtain m where "tui_run demo_tui_lib (\<lambda>_. []) demo_lib [(demo_env, ServerMsg (dm_from ''bob'' ''hi'')), (demo_env, KeyMsg ''tab'')] (NewModel ''alice'' []) = Ret m"
    by (simp add: tui_run_def tui_step_def handleServerMessage_def dm_from_def key_press_def)
  with tui_invariant [OF this] show ?thesis by blast
qed

section \<open>The tabulator key\<close>

lemma index_of_nth: "distinct xs \<Longrightarrow> i < length xs \<Longrightarrow> index_of (xs ! i) xs = Some i"
  by (induction xs arbitrary: i) (auto simp: nth_Cons split: nat.splits)

lemma index_of_None: "x \<notin> set xs \<Longrightarrow> index_of x xs = None"
  by (induction xs) auto

lemma switch_known:
  assumes "mhas (channelState m) ch"
  shows "activeChannel (switchToChannel ch m) = ch" "sidebarItems (switchToChannel ch m) = sidebarItems m"
    "t_channels (switchToChannel ch m) = t_channels m"
  using assms by (simp_all add: switchToChannel_def ensureChannel_def Let_def change_state_def sidebarItems_def split: option.split)

lemma tab_step:
  assumes "tui_inv m" and "i < length (sidebarItems m)" and "activeChannel m = sidebarItems m ! i"
  shows "activeChannel (nextChannel m) = sidebarItems m ! ((i + 1) mod length (sidebarItems m))"
    "activeChannel (prevChannel m) = sidebarItems m ! ((i + length (sidebarItems m) - 1) mod length (sidebarItems m))"
    "sidebarItems (nextChannel m) = sidebarItems m" "sidebarItems (prevChannel m) = sidebarItems m"
proof -
  note items = tui_inv_items [OF assms(1)]
  have known: "mhas (channelState m) (sidebarItems m ! (k mod length (sidebarItems m)))" for k
    using items assms(2) by (metis mod_less_divisor not_less_zero nth_mem neq0_conv)
  have "index_of (activeChannel m) (sidebarItems m) = Some i"
    using items assms(2,3) by (simp add: index_of_nth)
  then show "activeChannel (nextChannel m) = sidebarItems m ! ((i + 1) mod length (sidebarItems m))"
    "activeChannel (prevChannel m) = sidebarItems m ! ((i + length (sidebarItems m) - 1) mod length (sidebarItems m))"
    "sidebarItems (nextChannel m) = sidebarItems m" "sidebarItems (prevChannel m) = sidebarItems m"
    using switch_known [OF known] by (simp_all add: nextChannel_def prevChannel_def Let_def)
qed

lemma tabs:
  assumes "tui_inv m" and "i < length (sidebarItems m)" and "activeChannel m = sidebarItems m ! i"
  shows "tui_inv ((nextChannel ^^ k) m) \<and> sidebarItems ((nextChannel ^^ k) m) = sidebarItems m \<and>
    activeChannel ((nextChannel ^^ k) m) = sidebarItems m ! ((i + k) mod length (sidebarItems m))"
proof (induction k)
  case (Suc k)
  have "0 < length (sidebarItems m)" using assms(2) by linarith
  then have "(i + k) mod length (sidebarItems m) < length (sidebarItems m)" by (rule mod_less_divisor)
  then show ?case
    using Suc tab_step [of "(nextChannel ^^ k) m" "(i + k) mod length (sidebarItems m)"] tui_inv_tabs(1)
    by (simp add: mod_Suc_eq)
qed (use assms in simp)

text \<open>
  The tabulator key goes round. From a channel with a line in the sidebar, as many tabs as there are lines come
  back to it and pass every line; shift and tab undoes tab, and tab undoes it; the lines stay as they are. From a
  channel without a line both keys change nothing at all.
\<close>

theorem tab_cycle:
  assumes "tui_inv m"
  shows "(activeChannel m \<in> set (sidebarItems m) \<longrightarrow>
      (\<forall>ch \<in> set (sidebarItems m). \<exists>k < length (sidebarItems m). activeChannel ((nextChannel ^^ k) m) = ch) \<and>
      activeChannel ((nextChannel ^^ length (sidebarItems m)) m) = activeChannel m \<and>
      activeChannel (prevChannel (nextChannel m)) = activeChannel m \<and>
      activeChannel (nextChannel (prevChannel m)) = activeChannel m \<and>
      (\<forall>k. sidebarItems ((nextChannel ^^ k) m) = sidebarItems m)) \<and>
    (activeChannel m \<notin> set (sidebarItems m) \<longrightarrow> nextChannel m = m \<and> prevChannel m = m)"
proof (cases "activeChannel m \<in> set (sidebarItems m)")
  case True
  let ?n = "length (sidebarItems m)"
  obtain i where i: "i < ?n" "activeChannel m = sidebarItems m ! i" using True by (metis in_set_conv_nth)
  note step = tab_step [OF assms i] and run = tabs [OF assms i]
  have "\<exists>k < ?n. activeChannel ((nextChannel ^^ k) m) = sidebarItems m ! j" if "j < ?n" for j
  proof (intro exI conjI)
    show "(j + ?n - i) mod ?n < ?n" using that by (intro mod_less_divisor) linarith
    have "(i + (j + ?n - i) mod ?n) mod ?n = j" using that i(1) by (simp add: mod_add_right_eq)
    then show "activeChannel ((nextChannel ^^ ((j + ?n - i) mod ?n)) m) = sidebarItems m ! j" using run by simp
  qed
  then have "\<forall>ch \<in> set (sidebarItems m). \<exists>k < ?n. activeChannel ((nextChannel ^^ k) m) = ch"
    by (metis in_set_conv_nth)
  moreover have "activeChannel (prevChannel (nextChannel m)) = activeChannel m"
  proof -
    have pos: "0 < ?n" using i(1) by linarith
    have "((i + 1) mod ?n + ?n - 1) mod ?n = i" using i(1) by (cases "i + 1 = ?n") simp_all
    then show ?thesis
      using tab_step(2) [OF tui_inv_tabs(1) [OF assms], of "(i + 1) mod ?n"] step i(2) mod_less_divisor [OF pos, of "i + 1"]
      by simp
  qed
  moreover have "activeChannel (nextChannel (prevChannel m)) = activeChannel m"
  proof -
    have pos: "0 < ?n" using i(1) by linarith
    have "((i + ?n - 1) mod ?n + 1) mod ?n = i" using i(1) by (cases i) simp_all
    then show ?thesis
      using tab_step(1) [OF tui_inv_tabs(2) [OF assms], of "(i + ?n - 1) mod ?n"] step i(2)
        mod_less_divisor [OF pos, of "i + ?n - 1"]
      by simp
  qed
  ultimately show ?thesis using True run i by simp
next
  case False
  then show ?thesis by (simp add: nextChannel_def prevChannel_def index_of_None Let_def)
qed

theorem tab_cycle_witness:
  "let m = switchToChannel ''dev'' (NewModel ''alice'' []); stuck = switchToChannel ''dm:bob'' m
   in activeChannel (prevChannel (nextChannel m)) = ''dev'' \<and> nextChannel stuck = stuck"
proof -
  let ?m = "switchToChannel ''dev'' (NewModel ''alice'' [])"
  have inv: "tui_inv ?m" "tui_inv (switchToChannel ''dm:bob'' ?m)"
    by (intro tui_inv_switch tui_inv_NewModel)+
  have "activeChannel ?m = ''dev''" "''dev'' \<in> set (sidebarItems ?m)"
    "activeChannel (switchToChannel ''dm:bob'' ?m) \<notin> set (sidebarItems (switchToChannel ''dm:bob'' ?m))"
    by (simp_all add: switchToChannel_def ensureChannel_def change_state_def NewModel_def sidebarItems_def mhas_def HasPrefix_def Let_def)
  then show ?thesis using tab_cycle [OF inv(1)] tab_cycle [OF inv(2)] by (simp add: Let_def)
qed

end
