(* ===== verification/NodeGaps.thy ===== *)
theory NodeGaps
  imports NodeDelivery
begin

text \<open>
  Where the node does less than its comments and its commands promise: claimed senders in replies, mutes that do not
  last, identifiers chosen by clients, peers without credentials, message types nobody checks, and a session that
  ends while its last command runs. Each theorem describes the behaviour of the code for every state in which it
  occurs.
\<close>

definition in_loop :: "nat \<Rightarrow> node \<Rightarrow> bool" where
  "in_loop c n = (mget (ssh_conns n) c = None \<and> in_phase c ClientLoop n \<and> \<not> waiting c n)"

definition words :: "wire_msg \<Rightarrow> string list" where
  \<comment> \<open>the words of a slash command; empty for anything else\<close>
  "words msg = (let content = TrimSpace (Content msg) in if HasPrefix content ''/'' then Fields content else [])"

lemma command_step:
  assumes "free n" and "in_loop c n" and "words msg \<noteq> []"
  shows "\<exists>i. node_step L e (ClientEv c msg) n =
     run_command L e c (msg\<lparr>ID := i\<rparr>) (words msg) (mget_or no_client (clients n) c) n"
proof -
  define m where "m = (if ID msg = [] then msg\<lparr>ID := GenerateID (ne_draw e 8) (ne_now e)\<rparr> else msg)"
  have m: "m = msg\<lparr>ID := ID m\<rparr>" by (simp add: m_def)
  have "HasPrefix (TrimSpace (Content msg)) ''/''" "words msg = Fields (TrimSpace (Content msg))"
    using assms(3) by (auto simp: words_def Let_def split: if_splits)
  then have "node_step L e (ClientEv c msg) n = run_command L e c m (words msg) (mget_or no_client (clients n) c) n"
    using assms(1,2) by (simp add: in_loop_def client_message_def handleCommand_def free_ops m_def Let_def)
  then show ?thesis by (subst (asm) m) (rule exI)
qed

text \<open>
  A reply goes out under whatever name its sender claims: for \<open>/reply\<close> the node takes over the message as it
  came, with its \<open>Sender\<close>, and neither the rate limit nor a mute is checked.
\<close>

theorem reply_keeps_claimed_sender:
  assumes "n_mu n = Readers 0" and "in_loop c n" and "words msg = ''/reply'' # i # w # ws"
  shows "\<exists>m. node_step L e (ClientEv c msg) n = Ret (enqueue (Some c) m n) \<and> Sender m = Sender msg \<and>
    Type m = MsgTypeChat \<and> ReplyTo m = i \<and> Content m = Join (w # ws) '' ''"
proof -
  from command_step [OF assms(1,2), of msg L e] assms(3) obtain k where
    "node_step L e (ClientEv c msg) n =
       run_command L e c (msg\<lparr>ID := k\<rparr>) (''/reply'' # i # w # ws) (mget_or no_client (clients n) c) n" by auto
  then show ?thesis by (auto simp: run_command_def cmd_reply_def simp del: node_step.simps)
qed

lemma demo_loop: "in_loop 1 demo_node" "in_loop 2 demo_node" "in_loop 2 memo_node"
  by (simp_all add: in_loop_def in_phase_def waiting_def)

theorem reply_keeps_claimed_sender_witness:
  "\<exists>m. node_step demo_lib demo_env (ClientEv 2 (says ''/reply 1 yes''\<lparr>Sender := ''alice''\<rparr>)) demo_node =
     Ret (enqueue (Some 2) m demo_node) \<and> sender_of 2 demo_node = ''bob'' \<and> Sender m = ''alice''"
proof -
  have "words (says ''/reply 1 yes''\<lparr>Sender := ''alice''\<rparr>) = ''/reply'' # ''1'' # ''yes'' # []"
    by (simp add: words_def text_eval)
  from reply_keeps_claimed_sender [OF _ demo_loop(2) this, of demo_lib demo_env] show ?thesis by auto
qed

text \<open>
  A mute does not last: a registered user who is muted is no longer muted after typing \<open>/status online\<close>
  (and neither does a login keep it).
\<close>

theorem status_lifts_mute:
  assumes "n_mu n = Readers 0" and "in_loop c n" and "words msg = [''/status'', ''online'']"
    and "Auth_GetStatus (n_auth n) (sender_of c n) = ''muted''"
  shows "\<exists>n'. node_step L e (ClientEv c msg) n = Ret n' \<and> Auth_GetStatus (n_auth n') (sender_of c n) = ''online'' \<and>
    sender_of c n' = sender_of c n"
proof -
  from command_step [OF assms(1,2), of msg L e] assms(3) obtain k where step:
    "node_step L e (ClientEv c msg) n =
       run_command L e c (msg\<lparr>ID := k\<rparr>) [''/status'', ''online''] (mget_or no_client (clients n) c) n" by auto
  obtain p where "mget (users (n_auth n)) (sender_of c n) = Some p"
    using assms(4) by (auto simp: Auth_GetStatus_def split: option.splits)
  then have "Auth_GetStatus (Auth_SetStatus w t (sender_of c n) ''online'' (n_auth n)) (sender_of c n) = ''online''" for w t
    by (simp add: Auth_GetStatus_def Auth_SetStatus_def)
  moreover have "sender_of c (deliver m (sent e k d t (set_status e u s n))) = sender_of c n" for m k d t u s
  proof -
    have "User (mget_or no_client (clients (sent e k d t n')) c) = User (mget_or no_client (clients n') c)" for n'
      by (auto simp: sent_def mget_or_def split: option.split)
    moreover have "User (mget_or no_client (clients (deliver m n')) c) = User (mget_or no_client (clients n') c)" for n'
      by (simp add: clients_deliver mget_or_def split: option.split)
    ultimately show ?thesis by (simp add: sender_of_def set_status_def)
  qed
  ultimately show ?thesis using assms(1) step
    by (simp add: run_command_def cmd_status_alt valid_statuses_def free_ops set_status_def sender_of_def Let_def del: node_step.simps)
qed

theorem status_lifts_mute_witness:
  "\<exists>n n'. Auth_GetStatus (n_auth n) ''bob'' = ''muted'' \<and>
     node_step demo_lib demo_env (ClientEv 2 (says ''/status online'')) n = Ret n' \<and> Auth_GetStatus (n_auth n') ''bob'' = ''online''"
proof -
  let ?n = "demo_node\<lparr>n_auth := Auth_SetStatus no_faults zero_time ''bob'' ''muted'' demo_auth\<rparr>"
  have "words (says ''/status online'') = [''/status'', ''online'']" by (simp add: words_def text_eval)
  moreover have "in_loop 2 ?n" using demo_loop(2) by (simp add: in_loop_def in_phase_def waiting_def)
  moreover have "sender_of 2 ?n = ''bob''" "Auth_GetStatus (n_auth ?n) ''bob'' = ''muted''"
    using demo_sender(2) by (simp_all add: sender_of_def Auth_GetStatus_def Auth_SetStatus_def demo_auth_def)
  ultimately show ?thesis using status_lifts_mute [of ?n 2 "says ''/status online''" demo_lib demo_env] by fastforce
qed

section \<open>Identifiers chosen by clients\<close>

lemma format_lines_short: "m \<in> set ms \<Longrightarrow> length (ID m) < 8 \<Longrightarrow> format_lines f ms = Panic"
  by (induction ms) auto

lemma history_last:
  assumes "map ID (chan s ch) = ids @ [i]" and "length i < 8" and "int (length (chan s ch)) < 2 ^ 62" and "ch \<noteq> []"
    and "n_storage n = s"
  shows "cmd_history e c [''/history'', ch] cl n = Panic"
proof -
  have nch: "normalizeChannel ch = ch" using assms(4) by (simp add: normalizeChannel_def)
  let ?V = "view s (chan s ch)"
  have "map ID ?V = ids @ [i]" using assms(1) by (simp add: map_ID_view)
  then obtain V m where V: "?V = V @ [m]" "ID m = i" by (auto simp: map_eq_append_conv)
  have "GetChannelMessages ch 50 0 s = Ret (take_last 50 ?V, int (length ?V))"
    using page [of s ch 50 0] assms(3) by (simp add: nch Let_def)
  moreover have "m \<in> set (take_last 50 ?V)" "take_last 50 ?V \<noteq> []"
    using V by (simp_all add: take_last_def)
  ultimately show ?thesis using V(2) assms(2,4,5) format_lines_short [of m "take_last 50 ?V" history_line]
    by (simp add: cmd_history_def Let_def)
qed

lemma after_chat_simps [simp]:
  "n_mu (after_chat e c msg n) = n_mu n" "bcast (after_chat e c msg n) = bcast n"
  "phases (after_chat e c msg n) = phases n" "ssh_conns (after_chat e c msg n) = ssh_conns n"
  "in_loop d (after_chat e c msg n) = in_loop d n"
  "n_storage (after_chat e c msg n) = saved e (stamped e c n msg) (n_storage n)"
  by (simp_all add: after_chat_def in_loop_def in_phase_def waiting_def Let_def) (simp_all add: deliver_def)

lemma chat_run_then:
  assumes "free n" and "may_chat e c n" and "\<not> HasPrefix (TrimSpace (Content msg)) ''/''"
  shows "node_run L ([(e, ClientEv c msg), (e, BroadcastEv (length (bcast n)))] @ evs) n =
    node_run L evs (after_chat e c msg n)"
  using chat_run [OF assms, of L] unfolding node_run_def orun_append by simp

text \<open>
  A client can crash the server with a short identifier. The node keeps an identifier that a client chooses, and
  \<open>/history\<close> slices eight bytes off it: after a chat message with an identifier of one to seven bytes is saved, the
  next \<open>/history\<close> of that channel, by anybody, panics.
\<close>

theorem short_id_crashes_server:
  assumes "n_mu n = Readers 0" and "may_chat e c n" and "\<not> HasPrefix (TrimSpace (Content msg)) ''/''"
    and "Type msg = MsgTypeChat" and "ID msg \<noteq> []" and "length (ID msg) < 8"
    and "length (Content msg) \<le> MaxMessageSize" and "storage_ok (n_storage n)"
    and "0 < capacity (n_storage n)" and "capacity (n_storage n) < 2 ^ 62"
    and "in_loop d n" and "words cmd = [''/history'', Channel (stamped e c n msg)]"
  shows "node_run L [(e, ClientEv c msg), (e, BroadcastEv (length (bcast n))), (e', ClientEv d cmd)] n = Panic"
proof -
  let ?m = "stamped e c n msg" and ?s = "n_storage n" and ?n = "after_chat e c msg n"
  define ch where "ch = Channel ?m"
  have ch: "ch \<noteq> []" "normalizeChannel ch = ch" by (simp_all add: ch_def normalizeChannel_def)
  have id: "ID (prepare_msg (env_save e) ?m) = ID msg"
    using assms(5) by (simp add: prepare_msg_def stamped_def Let_def)
  have s: "saved e ?m ?s = store_step (SaveOp (env_save e) ?m) ?s"
    using assms(4) by (simp add: saved_def stored_type_def store_step_def)
  have "map ID (chan (saved e ?m ?s) ch) = trim_capacity (capacity ?s) (map ID (chan ?s ch) @ [ID msg])"
    using Save_step_chan(1) [of ?m "env_save e" ?s ch] assms(7) by (simp add: s id ch_def [symmetric] ch)
  moreover have len: "int (length (chan ?s ch)) \<le> capacity ?s" "int (length (chan (saved e ?m ?s) ch)) \<le> capacity ?s"
    using list_all_get [of "list_ok (capacity ?s)" "messages ?s" ch] assms(8,9) storage_ok_step [OF assms(8), of "SaveOp (env_save e) ?m"]
      list_all_get [of "list_ok (capacity (saved e ?m ?s))" "messages (saved e ?m ?s)" ch]
      Save_step_chan(2) [of ?m "env_save e" ?s] assms(7)
    by (auto simp: storage_ok_def mget_or_def list_ok_def s split: option.split)
  ultimately obtain ids where ids: "map ID (chan (saved e ?m ?s) ch) = ids @ [ID msg]"
    using assms(9) by (cases "map ID (chan ?s ch)") (auto simp: trim_capacity_def split: if_splits)
  have "cmd_history e' d [''/history'', ch] cl ?n = Panic" for cl
    using len(2) assms(10) by (intro history_last [OF ids assms(6) _ ch(1)]) simp_all
  then have "node_step L e' (ClientEv d cmd) ?n = Panic"
    using command_step [of ?n d cmd L e'] assms(1,11,12) by (auto simp: run_command_def ch_def)
  then show ?thesis using chat_run_then [OF assms(1-3), of L "[(e', ClientEv d cmd)]"] by simp
qed

theorem short_id_crashes_server_witness:
  "node_run demo_lib [(demo_env, ClientEv 2 (says ''hi''\<lparr>ID := ''x''\<rparr>)), (demo_env, BroadcastEv 0),
     (demo_env, ClientEv 1 (says ''/history general''))] demo_node = Panic"
proof -
  have "words (says ''/history general'') = [''/history'', ''general'']" by (simp add: words_def text_eval)
  moreover have "Channel (stamped demo_env 2 demo_node (says ''hi''\<lparr>ID := ''x''\<rparr>)) = ''general''"
    by (simp add: stamped_def mget_or_def Let_def)
  moreover have "storage_ok (test_store 1024)" using coherentD(1) [OF coherent_test] by simp
  ultimately show ?thesis
    using short_id_crashes_server [OF demo_simps(4) demo_may_chat(2), of "says ''hi''\<lparr>ID := ''x''\<rparr>" 1 "says ''/history general''"
        demo_lib demo_env] plain_text demo_loop(1)
    by (simp add: MaxMessageSize_def)
qed

lemma find_deref: "find (\<lambda>m. ID m = i) (map (deref h) ms) = map_option (deref h) (find (\<lambda>m. ID m = i) ms)"
  by (induction ms) auto

lemma find_append_Some: "find P xs = Some v \<Longrightarrow> find P (xs @ ys) = Some v"
  by (induction xs) (auto split: if_splits)

lemma find_update_first:
  "(\<And>m. ID (f m) = ID m) \<Longrightarrow>
     find (\<lambda>m. ID m = i) (update_first (\<lambda>m. ID m = i) f ms) = map_option f (find (\<lambda>m. ID m = i) ms)"
  by (induction ms) auto

lemma UpdateMessage_first:
  assumes "find (\<lambda>m. ID m = i) (stored s) = Some v"
  shows "find (\<lambda>m. ID m = i) (stored (fst (UpdateMessage i t s))) = Some (v\<lparr>Content := t, Edited := True\<rparr>)"
proof -
  obtain m where m: "find (\<lambda>m. ID m = i) (allMsgs s) = Some m" "v = deref (sto_heap s) m"
    using assms by (auto simp: view_def find_deref)
  then show ?thesis
    by (simp add: UpdateMessage_def view_def find_deref find_update_first Let_def) (simp add: deref_def with_reactions_def)
qed

lemma sender_after_chat [simp]: "User (mget_or no_client (clients (after_chat e c msg n)) d) = sender_of d n"
proof -
  have "clients (after_chat e c msg n) = clients (deliver (stamped e c n msg) n)" by (simp add: after_chat_def Let_def)
  then show ?thesis by (simp add: mget_or_def clients_deliver sender_of_def split: option.split)
qed

lemma stored_after_chat:
  assumes "Type msg = MsgTypeChat" and "ID msg \<noteq> []" and "length (Content msg) \<le> MaxMessageSize"
    and "addresses_ok (n_storage n)" and "int (length (stored (n_storage n))) < capacity (n_storage n)"
  shows "stored (n_storage (after_chat e c msg n)) = stored (n_storage n) @ [stamped e c n msg]"
proof -
  have "prepare_msg (env_save e) (stamped e c n msg) = stamped e c n msg"
    using assms(2) by (simp add: prepare_msg_def stamped_def normalizeChannel_def Let_def)
  then show ?thesis using Save_view(1) [of "n_storage n" "stamped e c n msg" "env_save e"] assms
    by (simp add: saved_def stored_type_def trim_capacity_def)
qed

text \<open>
  Whose message is edited is checked on the wrong one: \<open>/edit\<close> looks at the sender of the last message with the
  identifier and changes the first one. A client that sends a message under the identifier of another user's
  message can then edit that message; it still carries the other user's name.
\<close>

theorem duplicate_id_edits_others:
  assumes "n_mu n = Readers 0" and "may_chat e c n" and "\<not> HasPrefix (TrimSpace (Content msg)) ''/''"
    and "Type msg = MsgTypeChat" and "ID msg \<noteq> []" and "length (Content msg) \<le> MaxMessageSize"
    and "addresses_ok (n_storage n)" and "int (length (stored (n_storage n))) < capacity (n_storage n)"
    and "find (\<lambda>m. ID m = ID msg) (stored (n_storage n)) = Some v"
    and "words cmd = ''/edit'' # ID msg # w # ws"
  shows "\<exists>n'. node_run L [(e, ClientEv c msg), (e, BroadcastEv (length (bcast n))), (e', ClientEv c cmd)] n = Ret n' \<and>
    find (\<lambda>m. ID m = ID msg) (stored (n_storage n')) = Some (v\<lparr>Content := Join (w # ws) '' '', Edited := True\<rparr>)"
proof -
  let ?n = "after_chat e c msg n"
  have loop: "in_loop c ?n" "n_mu ?n = Readers 0" using assms(1,2) by (simp_all add: may_chat_def in_loop_def [of c n])
  have st: "stored (n_storage ?n) = stored (n_storage n) @ [stamped e c n msg]"
    using assms(4-8) by (rule stored_after_chat)
  have id: "ID (stamped e c n msg) = ID msg" using assms(5) by (simp add: stamped_def Let_def)
  have last: "GetMessageByID (ID msg) (n_storage ?n) = Some (stamped e c n msg)"
    unfolding GetMessageByID_def st by (simp add: id)
  have first: "find (\<lambda>m. ID m = ID msg) (stored (n_storage ?n)) = Some v"
    using assms(9) unfolding st by (simp add: find_append_Some)
  obtain k where "node_step L e' (ClientEv c cmd) ?n =
      run_command L e' c (cmd\<lparr>ID := k\<rparr>) (words cmd) (mget_or no_client (clients ?n) c) ?n"
    using command_step [OF loop(2,1), of cmd L e'] assms(10) by auto
  also have "\<dots> = cmd_edit e' c (words cmd) (sender_of c n) ?n" by (simp add: run_command_def assms(10))
  also have "\<dots> = Ret (enqueue (Some c) (no_message\<lparr>Type := MsgTypeEditMessage, ID := ID msg, Sender := sender_of c n,
       Content := Join (w # ws) '' '', Channel := Channel (stamped e c n msg), Edited := True, Timestamp := ne_now e'\<rparr>)
      (?n\<lparr>n_storage := fst (UpdateMessage (ID msg) (Join (w # ws) '' '') (n_storage ?n))\<rparr>))"
    using last by (simp add: cmd_edit_def assms(10) Let_def)
  finally show ?thesis
    using chat_run_then [OF assms(1-3), of L "[(e', ClientEv c cmd)]"] UpdateMessage_first [OF first]
    by simp
qed

theorem duplicate_id_edits_others_witness:
  "\<exists>n'. node_run demo_lib [(demo_env, ClientEv 2 (says ''hi''\<lparr>ID := ''00000001''\<rparr>)), (demo_env, BroadcastEv 0),
       (demo_env, ClientEv 2 (says ''/edit 00000001 no''))] memo_node = Ret n' \<and>
     find (\<lambda>m. ID m = ''00000001'') (stored (n_storage n')) = Some (memo\<lparr>Content := ''no'', Edited := True\<rparr>) \<and>
     Sender memo = ''alice''"
proof -
  have w: "words (says ''/edit 00000001 no'') = ''/edit'' # ''00000001'' # ''no'' # []" by (simp add: words_def text_eval)
  have memo: "ID memo = ''00000001''" "Sender memo = ''alice''" by (simp_all add: memo_def chat_def)
  have cap: "capacity memo_store = 1024"
    unfolding memo_store_def by (subst Save_view(6)) (simp_all add: addresses_ok_def test_store_def memo_def chat_def MaxMessageSize_def)
  show ?thesis
    using duplicate_id_edits_others [OF memo_node_simps(1) memo_may_chat, of "says ''hi''\<lparr>ID := ''00000001''\<rparr>" memo
        "says ''/edit 00000001 no''" "''no''" "[]" demo_lib demo_env] plain_text w memo memo_stored
    by (simp add: MaxMessageSize_def cap)
qed

section \<open>Peers\<close>

definition handshake :: wire_msg where
  "handshake = no_message\<lparr>Type := MsgTypePeerHandshake\<rparr>"

lemma peer_step:
  assumes "free n"
  shows "peer_message L e c m n =
    obind (apply_peer L e c m (n\<lparr>peers := mput c (ne_now e) (peers n)\<rparr>))
      (\<lambda>(go_on, n). if go_on then broadcastToClients m n else Ret n)"
  using assms by (simp add: peer_message_def writing_free free_unlock)

lemma fold_SendMessage: "outbox (fold (SendMessage c) ms n) = outbox n @ map (\<lambda>m. (c, m)) ms"
  by (induction ms arbitrary: n) (simp_all add: SendMessage_def)

text \<open>
  C34. A peer needs no credentials. While there are fewer than 550 connections, anybody can connect, say it is a peer,
  and then (a) have the node send it every stored message after a time of its choice, direct messages included;
  (b) delete any message; (c) post a message under any name, which is saved and delivered like any other.
\<close>

theorem peer_needs_no_credentials:
  assumes "n_mu n = Readers 0" and "mget (phases n) c = None" and "length (clients n) + length (peers n) < 550"
    and "Type hs = MsgTypePeerHandshake"
  shows "\<exists>n1. node_run L [(e, AcceptEv c), (e, FirstEv c hs)] n = Ret n1 \<and>
    (Type m = MsgTypeSyncRequest \<longrightarrow> (\<exists>n2. node_step L e' (PeerEv c m) n1 = Ret n2 \<and>
       (\<forall>x \<in> set (stored (n_storage n)). After (Timestamp x) (Timestamp m) \<longrightarrow> (c, x) \<in> set (outbox n2)))) \<and>
    (Type m = MsgTypeDeleteMessage \<longrightarrow> (\<exists>n2. node_step L e' (PeerEv c m) n1 = Ret n2 \<and>
       n_storage n2 = fst (DeleteMessage (ID m) (n_storage n)))) \<and>
    (Type m = MsgTypeChat \<longrightarrow> (\<exists>n2. node_step L e' (PeerEv c m) n1 = Ret n2 \<and>
       n_storage n2 = fst (Save (env_save e') m (n_storage n)) \<and>
       (\<forall>d. mget (clients n2) d =
          map_option (\<lambda>cl. if wants (n_channels n) m cl then offer m cl else cl) (mget (clients n) d))))"
proof -
  obtain n1 where n1: "node_run L [(e, AcceptEv c), (e, FirstEv c hs)] n = Ret n1" "n_mu n1 = Readers 0"
    "in_phase c PeerLoop n1" "n_storage n1 = n_storage n" "clients n1 = clients n" "n_channels n1 = n_channels n"
    using assms by (simp add: handle_accept_def reading_free in_phase_def set_phase_def handle_first_def writing_free
        MaxClients_def MaxPeers_def wlock_def wunlock_def SendMessage_def Let_def)
  have "\<exists>n2. node_step L e' (PeerEv c m) n1 = Ret n2 \<and>
      (\<forall>x \<in> set (stored (n_storage n)). After (Timestamp x) (Timestamp m) \<longrightarrow> (c, x) \<in> set (outbox n2))"
    if "Type m = MsgTypeSyncRequest"
    using that by (simp add: peer_step n1 apply_peer_def GetMessagesAfter_def fold_SendMessage)
  moreover have "\<exists>n2. node_step L e' (PeerEv c m) n1 = Ret n2 \<and> n_storage n2 = fst (DeleteMessage (ID m) (n_storage n))"
    if "Type m = MsgTypeDeleteMessage"
    using that by (simp add: peer_step n1 apply_peer_def broadcastToClients_free)
  moreover have "\<exists>n2. node_step L e' (PeerEv c m) n1 = Ret n2 \<and> n_storage n2 = fst (Save (env_save e') m (n_storage n)) \<and>
       (\<forall>d. mget (clients n2) d =
          map_option (\<lambda>cl. if wants (n_channels n) m cl then offer m cl else cl) (mget (clients n) d))"
    if "Type m = MsgTypeChat"
    using that by (simp add: peer_step n1 apply_peer_def note_remote_def broadcastToClients_free clients_deliver Let_def)
  ultimately show ?thesis using n1(1) by blast
qed

theorem peer_needs_no_credentials_witness:
  "\<exists>n1 n2. node_run demo_lib [(demo_env, AcceptEv 9), (demo_env, FirstEv 9 handshake)] memo_node = Ret n1 \<and>
     node_step demo_lib demo_env (PeerEv 9 (no_message\<lparr>Type := MsgTypeDeleteMessage, ID := ''00000001''\<rparr>)) n1 = Ret n2 \<and>
     n_storage n2 = fst (DeleteMessage ''00000001'' memo_store)"
  using peer_needs_no_credentials [of memo_node 9 handshake demo_lib demo_env
      "no_message\<lparr>Type := MsgTypeDeleteMessage, ID := ''00000001''\<rparr>" demo_env]
  by (simp add: handshake_def del: node_run_simps node_step.simps)

text \<open>
  Any client can edit any message on the other nodes. The type of a client's message is never checked: one of type
  \<open>MsgTypeEditMessage\<close> goes to every peer as it is, and a node that receives it from a peer edits the message with
  that identifier, whoever sent it.
\<close>

theorem client_edits_on_peers:
  assumes "n_mu n = Readers 0" and "may_chat e c n" and "\<not> HasPrefix (TrimSpace (Content msg)) ''/''"
    and "Type msg = MsgTypeEditMessage" and "ID msg \<noteq> []"
  shows "\<exists>n'. node_run L [(e, ClientEv c msg), (e, BroadcastEv (length (bcast n)))] n = Ret n' \<and>
    outbox n' = outbox n @ map (\<lambda>p. (p, stamped e c n msg)) (map fst (peers n)) \<and>
    (transmit (stamped e c n msg) = Some m' \<and> n_mu B = Readers 0 \<and> in_phase d PeerLoop B \<longrightarrow>
       (\<exists>B'. node_step L' e' (PeerEv d m') B = Ret B' \<and>
          n_storage B' = fst (UpdateMessage (utf8_coerce (ID msg)) (utf8_coerce (Content msg)) (n_storage B))))"
proof -
  let ?m = "stamped e c n msg"
  have "\<exists>B'. node_step L' e' (PeerEv d m') B = Ret B' \<and>
      n_storage B' = fst (UpdateMessage (utf8_coerce (ID msg)) (utf8_coerce (Content msg)) (n_storage B))"
    if "transmit ?m = Some m'" "n_mu B = Readers 0" "in_phase d PeerLoop B"
  proof -
    have "Type m' = MsgTypeEditMessage" "ID m' = utf8_coerce (ID msg)" "Content m' = utf8_coerce (Content msg)"
      using that(1) assms(4,5) by (auto simp: transmit_def stamped_def Let_def split: if_splits)
    then show ?thesis using that by (simp add: peer_step apply_peer_def broadcastToClients_free)
  qed
  moreover have "outbox (after_chat e c msg n) = outbox n @ map (\<lambda>p. (p, ?m)) (map fst (peers n))"
    by (simp add: after_chat_def relayed_def relayed_type_def assms(4) Let_def)
  ultimately show ?thesis using chat_run [OF assms(1-3), of L] by blast
qed

theorem client_edits_on_peers_witness:
  "let n = demo_node\<lparr>peers := [(7, zero_time)]\<rparr>; B = memo_node\<lparr>phases := [(5, PeerLoop)]\<rparr>;
       msg = (says ''no'')\<lparr>Type := MsgTypeEditMessage, ID := ''00000001''\<rparr>
   in \<exists>n' m B'. node_run demo_lib [(demo_env, ClientEv 2 msg), (demo_env, BroadcastEv 0)] n = Ret n' \<and>
     outbox n' = [(7, m)] \<and> node_step demo_lib demo_env (PeerEv 5 (the (transmit m))) B = Ret B' \<and>
     n_storage B' = fst (UpdateMessage (utf8_coerce ''00000001'') (utf8_coerce ''no'') memo_store)"
proof -
  let ?n = "demo_node\<lparr>peers := [(7, zero_time)]\<rparr>" and ?B = "memo_node\<lparr>phases := [(5, PeerLoop)]\<rparr>"
  let ?msg = "(says ''no'')\<lparr>Type := MsgTypeEditMessage, ID := ''00000001''\<rparr>"
  have may: "may_chat demo_env 2 ?n"
    using demo_may_chat(2) by (simp add: may_chat_def sender_of_def in_phase_def waiting_def)
  have plain: "\<not> HasPrefix (TrimSpace ''no'') ''/''" by (simp add: text_eval)
  have t: "transmit (stamped demo_env 2 ?n ?msg) = Some (the (transmit (stamped demo_env 2 ?n ?msg)))"
    using stable_chat by (simp add: transmit_def stamped_def Let_def encodable_time_def zero_time_def)
  let ?m = "stamped demo_env 2 ?n ?msg"
  have "\<exists>n'. node_run demo_lib [(demo_env, ClientEv 2 ?msg), (demo_env, BroadcastEv 0)] ?n = Ret n' \<and> outbox n' = [(7, ?m)] \<and>
      (\<exists>B'. node_step demo_lib demo_env (PeerEv 5 (the (transmit ?m))) ?B = Ret B' \<and>
        n_storage B' = fst (UpdateMessage (utf8_coerce ''00000001'') (utf8_coerce ''no'') memo_store))"
    using client_edits_on_peers [of ?n demo_env 2 ?msg demo_lib "the (transmit ?m)" ?B 5 demo_lib demo_env]
      may plain t by (simp add: in_phase_def del: node_run_simps node_step.simps)
  then show ?thesis unfolding Let_def by blast
qed

section \<open>An SSH session that ends while a command runs\<close>

definition join_general :: string where
  "join_general = ''/channel join general''"

lemma join_general_text:
  "TrimSpace join_general = join_general" "HasPrefix join_general ''/''" "utf8_coerce join_general = join_general"
  "Fields join_general = [''/channel'', ''join'', ''general'']" "scanner_text join_general"
  by (simp_all add: join_general_def text_eval scanner_text_def)
    (simp add: valid_utf8_ascii valid_utf8_def [symmetric])

lemma join_after_leaving:
  assumes "free n" and "mget (clients n) c = None" and "Manager_Exists (n_channels n) ''general''"
    and "Content msg = join_general"
  shows "\<exists>n' g. client_message L e c msg n = Ret n' \<and> free n' \<and> phases n' = phases n \<and> bcast n' = bcast n \<and>
    unreg n' = unreg n \<and> mget (clients n') c = Some g \<and> Send g = None"
proof -
  have run: "run_command L e c m [''/channel'', ''join'', ''general''] no_client n =
      channel_join e c [''/channel'', ''join'', ''general''] [] n" for m
    by (simp add: run_command_def handleChannelCommand_def no_client_def)
  have "snd (Manager_Join v ''general'' [] (n_channels n))" for v
    using assms(3) by (auto simp: Manager_Exists_def mhas_def Manager_Join_def update_channel_def)
  then have "\<exists>n' g. channel_join e c [''/channel'', ''join'', ''general''] [] n = Ret n' \<and> free n' \<and> phases n' = phases n \<and>
      bcast n' = bcast n \<and> unreg n' = unreg n \<and> mget (clients n') c = Some g \<and> Send g = None"
    using assms(1-3) by (simp add: channel_join_def activate_def free_ops sent_def offer_def no_client_def mget_or_def
        split_beta Let_def)
  with assms run show ?thesis
    by (simp add: client_message_def handleCommand_def free_ops join_general_text mget_or_def Let_def)
qed

text \<open>
  C33. A user of SSH can crash the server by leaving at the right moment. The session's scanner and its loop both
  unregister the connection. If a user types \<open>/channel join general\<close> and disconnects, and the event loop takes the
  scanner's unregistration before the loop gets to the command, the command puts an empty entry under the connection
  back into the map of clients, and the second unregistration closes its nil channel, which panics.
\<close>

theorem ssh_disconnect_crashes_server:
  assumes "n_mu n = Readers 0" and "in_phase c ClientLoop n" and "\<not> waiting c n" and "c \<in> set (ssh_open n)"
    and "mget (clients n) c = Some cl" and "Send cl \<noteq> None" and "c \<notin> fst ` set (ssh_pipe n)" and "c \<notin> set (unreg n)" and "sshKey n = []"
    and "Manager_Exists (n_channels n) ''general''" and "encodable_time (ne_now e)"
  shows "node_run L [(e, SshLineEv c join_general), (e, SshEndEv c), (e, UnregisterEv c), (e, SshMsgEv c),
     (e, ClientEndEv c), (e, UnregisterEv c)] n = Panic"
proof -
  define msg where "msg = the (transmit (ssh_message e (mget_or [] (ssh_conns n) c) join_general))"
  have tr: "transmit (ssh_message e (mget_or [] (ssh_conns n) c) join_general) = Some msg"
    using assms(11) by (simp add: msg_def transmit_def ssh_message_def)
  then have content: "Content msg = join_general"
    by (auto simp: transmit_def ssh_message_def join_general_text split: if_splits)
  have none: "filter (\<lambda>(d, _). d = c) (ssh_pipe n) = []"
    using assms(7) by (force simp: filter_empty_conv)
  define n1 where "n1 = n\<lparr>ssh_pipe := ssh_pipe n @ [(c, msg)]\<rparr>"
  have s1: "node_step L e (SshLineEv c join_general) n = Ret n1"
    using assms(4,9) none tr by (simp add: scanner_idle_def join_general_text ssh_line_def ssh_content_def n1_def)
  have s2: "node_step L e (SshEndEv c) n1 = Ret (ssh_end c n1)"
    using assms(2-4) none by (simp add: scanner_idle_def n1_def in_phase_def waiting_def)
  obtain n3 where s3: "node_step L e (UnregisterEv c) (ssh_end c n1) = Ret n3" and n3: "free n3"
    "mget (clients n3) c = None" "phases n3 = phases n" "\<not> waiting c n3" "unreg n3 = unreg n"
    "ssh_pipe n3 = ssh_pipe n @ [(c, msg)]" "n_channels n3 = n_channels n"
    using assms(1,3,5,6,8) by (auto simp: ssh_end_def n1_def handle_unregister_def wlock_def wunlock_def remove1_append
        waiting_def enqueue_def Let_def)
  have pipe: "mget (ssh_pipe n3) c = Some msg"
    using assms(7) n3(6) by (simp add: map_add_def map_of_eq_None_iff [symmetric] split: option.split)
  let ?n = "n3\<lparr>ssh_pipe := delete_first (\<lambda>(d, _). d = c) (ssh_pipe n3)\<rparr>"
  obtain n4 g where n4: "client_message L e c msg ?n = Ret n4" "free n4" "phases n4 = phases n" "bcast n4 = bcast n3"
    "unreg n4 = unreg n" "mget (clients n4) c = Some g" "Send g = None"
    using join_after_leaving [of ?n c msg L e] n3 assms(10) content by auto
  have s4: "node_step L e (SshMsgEv c) n3 = Ret n4"
    using pipe n4(1) n3(3,4) assms(2) by (simp add: in_phase_def)
  have s5: "node_step L e (ClientEndEv c) n4 = Ret (handle_client_end c n4)"
    using n3(4) n4(3,4) assms(2) by (simp add: in_phase_def waiting_def)
  have s6: "node_step L e (UnregisterEv c) (handle_client_end c n4) = Panic"
    using n4 by (simp add: handle_client_end_def set_phase_def handle_unregister_def wlock_def)
  show ?thesis by (simp add: s1 s2 s3 s4 s5 s6 del: node_step.simps)
qed

theorem ssh_disconnect_crashes_server_witness:
  "node_run demo_lib [(demo_env, SshLineEv 3 join_general), (demo_env, SshEndEv 3), (demo_env, UnregisterEv 3),
     (demo_env, SshMsgEv 3), (demo_env, ClientEndEv 3), (demo_env, UnregisterEv 3)] demo_node = Panic"
  by (rule ssh_disconnect_crashes_server [where cl = "demo_client ''mallory''"])
    (simp_all add: in_phase_def waiting_def mkeys_distinct_def Manager_Exists_def demo_channels_def mhas_def
      encodable_time_def zero_time_def)

section \<open>What a login shows\<close>

lemma fold_SendMessage_channels: "n_channels (fold (SendMessage c) ms n) = n_channels n"
  by (induction ms arbitrary: n) (simp_all add: SendMessage_def)

text \<open>
  C35. A login shows everybody's channels. A client that has logged in is sent the last fifty stored messages, chat
  messages, images and notices among them, of all channels: also the messages of channels, private ones too, that its
  user is no member of and which are not delivered to it while it is connected.
\<close>

theorem login_shows_all_channels:
  assumes "mget (phases n) c = Some (Welcoming u)"
  shows "\<exists>n'. node_step L e (WelcomeEv c) n = Ret n' \<and>
    outbox n' = outbox n @ map (\<lambda>m. (c, m)) (filter (\<lambda>m. Type m \<in> {MsgTypeChat, MsgTypeImage, MsgTypeJoin, MsgTypeLeave})
      (drop (length (stored (n_storage n)) - 50) (stored (n_storage n)))) \<and>
    (\<forall>ch. ch \<noteq> ''general'' \<longrightarrow> Manager_IsMember (n_channels n') ch u = Manager_IsMember (n_channels n) ch u)"
proof -
  let ?s = "n_storage n"
  have "GetRecentMessages 50 ?s = Ret (drop (length (stored ?s) - 50) (stored ?s))"
  proof (cases "50 < length (allMsgs ?s)")
    case True
    then have "nat (int (length (allMsgs ?s)) - 50) = length (allMsgs ?s) - 50" by simp
    with True show ?thesis by (simp add: GetRecentMessages_def Let_def view_def drop_map)
  qed (auto simp: GetRecentMessages_def Let_def view_def)
  moreover have "Manager_IsMember (fst (Manager_Join w ''general'' u m)) ch u = Manager_IsMember m ch u" if "ch \<noteq> ''general''" for w m ch
    using that by (simp add: Manager_IsMember_def Manager_Join_def update_channel_def Let_def split: option.split)
  ultimately show ?thesis using assms
    by (simp add: handle_welcome_def Let_def fold_SendMessage fold_SendMessage_channels set_phase_def history_type_def comp_def)
qed

definition secret :: wire_msg where
  "secret = memo\<lparr>Channel := ''secret''\<rparr>"

lemma secret_stored: "stored (fst (Save plain_save secret (test_store 1024))) = [secret]"
proof -
  have "addresses_ok (test_store 1024)" "allMsgs (test_store 1024) = []" "capacity (test_store 1024) = 1024"
    by (simp_all add: addresses_ok_def test_store_def)
  moreover have "prepare_msg plain_save secret = secret" "length (Content secret) \<le> MaxMessageSize"
    by (simp_all add: prepare_msg_def secret_def memo_def chat_def no_message_def normalizeChannel_def MaxMessageSize_def)
  ultimately show ?thesis
    using Save_view(1) [of "test_store 1024" secret plain_save] by (simp add: view_def trim_capacity_def)
qed

theorem login_shows_all_channels_witness:
  "\<exists>n n'. node_step demo_lib demo_env (WelcomeEv 9) n = Ret n' \<and> outbox n' = [(9, secret)] \<and>
     \<not> Manager_IsMember (n_channels n') (Channel secret) ''bob''"
proof -
  let ?n = "set_phase 9 (Welcoming ''bob'') (demo_node\<lparr>n_storage := fst (Save plain_save secret (test_store 1024))\<rparr>)"
  have n: "mget (phases ?n) 9 = Some (Welcoming ''bob'')" "n_storage ?n = fst (Save plain_save secret (test_store 1024))"
    "outbox ?n = []" "n_channels ?n = demo_channels" by (simp_all add: set_phase_def)
  have t: "Type secret = MsgTypeChat" "Channel secret = ''secret''" by (simp_all add: secret_def memo_def chat_def no_message_def)
  have "\<not> Manager_IsMember demo_channels ''secret'' ''bob''" by (simp add: Manager_IsMember_def demo_channels_def)
  with login_shows_all_channels [OF n(1), of demo_lib demo_env] n t secret_stored
  have "\<exists>n'. node_step demo_lib demo_env (WelcomeEv 9) ?n = Ret n' \<and> outbox n' = [(9, secret)] \<and>
      \<not> Manager_IsMember (n_channels n') (Channel secret) ''bob''" by (auto simp del: node_step.simps)
  then show ?thesis by blast
qed

end
