(* ===== verification/SshText.thy ===== *)
theory SshText
  imports NodeGaps
begin

text \<open>
  Encrypted chat, end to end: what the user of one SSH session types and another one sees, and what becomes of a
  message whose cipher text looks like a command.
\<close>

section \<open>Text without white space\<close>

definition graph :: "char \<Rightarrow> bool" where
  "graph c = (0x20 < bval c \<and> bval c < 0x80)"

lemma graph_not_space: "graph c \<Longrightarrow> \<not> ascii_space c" "graph c \<Longrightarrow> c \<noteq> CHR 0xC2" "graph a \<Longrightarrow> \<not> wide_space a b c"
  "graph c \<Longrightarrow> \<not> wide_space a b c"
  by (auto simp: graph_def ascii_space_def wide_space_def)

lemma not_graph [simp]: "\<not> graph CHR 0xC2"
  by (simp add: graph_def)

lemma graph_space_prefix: "list_all graph s \<Longrightarrow> space_prefix s = 0"
  by (cases s rule: space_prefix.cases) (auto simp: graph_not_space split: list.split)

lemma graph_space_suffix: "list_all graph s \<Longrightarrow> space_suffix s = 0"
  by (cases s rule: space_suffix.cases) (auto simp: graph_not_space split: list.split)

lemma graph_TrimSpace: "list_all graph s \<Longrightarrow> TrimSpace s = s"
  by (simp add: TrimSpace_def trim_left.simps [of s] trim_right_rev.simps [of "rev s"] graph_space_prefix graph_space_suffix)

lemma graph_fields_from: "list_all graph s \<Longrightarrow> fields_from cur s = flush_field (rev s @ cur)"
proof (induction s arbitrary: cur)
  case (Cons a s)
  then have "space_prefix (a # s) = 0" by (intro graph_space_prefix) simp
  with Cons show ?case by (simp del: space_prefix.simps)
qed simp

lemma graph_Fields: "list_all graph s \<Longrightarrow> s \<noteq> [] \<Longrightarrow> Fields s = [s]"
  by (simp add: Fields_def graph_fields_from flush_field_def)

lemma graph_coerce: "list_all graph s \<Longrightarrow> utf8_coerce s = s"
  using valid_utf8_ascii [of s] by (simp add: graph_def list_all_iff valid_utf8_def)

lemma b64_ok_graph: "b64_ok c \<Longrightarrow> graph c"
  by (auto simp: b64_ok_def b64_val_def graph_def Let_def split: if_splits)

lemma StdEncode_graph: "list_all graph (StdEncode bs)"
  by (auto simp: list_all_iff dest!: b64_encode_chars b64_ok_graph)

lemma b64_char_slash: "n < 64 \<Longrightarrow> b64_char n = CHR ''/'' \<longleftrightarrow> n = 63"
  using b64_val_char [of n] by (auto simp: b64_char_def b64_val_def simp del: b64_val_char)

lemma StdEncode_slash:
  assumes "3 \<le> length bs"
  shows "HasPrefix (StdEncode bs) ''/'' \<longleftrightarrow> 252 \<le> bval (hd bs)"
proof -
  obtain a b c r where "bs = a # b # c # r"
    using assms by (metis Suc_le_length_iff numeral_3_eq_3)
  moreover have "bval a div 4 = 63 \<longleftrightarrow> 252 \<le> bval a" using bval_bound [of a] by (auto simp del: bval_bound)
  moreover have "bval a div 4 < 64" using bval_bound [of a] by (simp del: bval_bound)
  ultimately show ?thesis using b64_char_slash [of "bval a div 4"]
    by (simp add: sextets_def HasPrefix_def)
qed

section \<open>Encrypted lines\<close>

definition enc_env_ok :: "node_env \<Rightarrow> bool" where
  \<comment> \<open>the random source delivers a salt and nonces\<close>
  "enc_env_ok e =
     (case ne_enc_salt e of
        Some s \<Rightarrow> length s = 16 \<and> (case ne_enc_nonce e 12 of Some x \<Rightarrow> length x = 12 | None \<Rightarrow> False)
      | None \<Rightarrow> False)"

lemma ssh_content_encrypted:
  assumes "argon2_ok (lib_argon L)" and "gcm_ok (lib_gcm L)" and "enc_env_ok e" and "key \<noteq> []"
  obtains salt rest where "ne_enc_salt e = Some salt" "length salt = 16"
    "ssh_content L e key text = Ret (StdEncode (salt @ rest))" "28 \<le> length rest"
    "Decrypt (lib_argon L) (lib_gcm L) (StdEncode (salt @ rest)) key = Ret (Some text)"
proof -
  obtain salt nonce where r: "ne_enc_salt e = Some salt" "length salt = 16" "ne_enc_nonce e 12 = Some nonce" "length nonce = 12"
    using assms(3) by (auto simp: enc_env_ok_def split: option.splits)
  obtain k g where k: "deriveKey (lib_argon L) key salt = Ret k" "lib_gcm L k = Some g" "aead_ok g"
    using assms(1,2) by (rule deriveKey_ok)
  have g: "NonceSize g = 12" "length (Seal g nonce text) = length text + 16" "Open g nonce (Seal g nonce text) = Some text"
    using k(3) r(4) by (simp_all add: aead_ok_def)
  show thesis
  proof (rule that [OF r(1,2)])
    show "ssh_content L e key text = Ret (StdEncode (salt @ nonce @ Seal g nonce text))"
      using assms(4) r k g by (simp add: ssh_content_def Encrypt_def)
    show "28 \<le> length (nonce @ Seal g nonce text)" using r g by simp
    show "Decrypt (lib_argon L) (lib_gcm L) (StdEncode (salt @ nonce @ Seal g nonce text)) key = Ret (Some text)"
      using r g k by (simp add: Decrypt_def Let_def std.dec_enc)
  qed
qed

text \<open>
  Encryption end to end. What the user of an SSH session types under a key is encrypted; the message, decoded,
  passed on by the node under the sender's name and sent to another session with the same key, is shown there with
  the time, the sender and the text as typed, marked as encrypted.
\<close>

theorem ssh_text_arrives:
  assumes "argon2_ok (lib_argon L)" and "gcm_ok (lib_gcm L)" and "enc_env_ok e" and "key \<noteq> []"
    and "encodable_time (ne_now e)"
  shows "\<exists>content m m'. ssh_content L e key text = Ret content \<and> transmit (ssh_message e typed content) = Some m \<and>
    transmit (m\<lparr>Sender := name\<rparr>) = Some m' \<and>
    adapter_write L key m' = Ret (Some (''['' @ Kitchen (coerce_time (ne_now e)) @ ''] '' @ utf8_coerce name @ '': '' @
      text @ '' [E2EE]'' @ [CHR 0x0D, CHR 0x0A]))"
proof -
  obtain salt rest where c: "ssh_content L e key text = Ret (StdEncode (salt @ rest))"
    "Decrypt (lib_argon L) (lib_gcm L) (StdEncode (salt @ rest)) key = Ret (Some text)"
    using ssh_content_encrypted [OF assms(1-4)] by blast
  have keep: "utf8_coerce (StdEncode (salt @ rest)) = StdEncode (salt @ rest)"
    by (intro graph_coerce StdEncode_graph)
  have general: "utf8_coerce ''general'' = ''general''"
    by (intro graph_coerce) (simp add: graph_def)
  define m where "m = the (transmit (ssh_message e typed (StdEncode (salt @ rest))))"
  have m: "transmit (ssh_message e typed (StdEncode (salt @ rest))) = Some m" "Type m = MsgTypeChat"
    "Content m = StdEncode (salt @ rest)" "Channel m = ''general''" "Timestamp m = coerce_time (ne_now e)" "\<not> Edited m"
    using assms(5) by (simp_all add: m_def transmit_def ssh_message_def keep general no_message_def)
  define m' where "m' = the (transmit (m\<lparr>Sender := name\<rparr>))"
  have m': "transmit (m\<lparr>Sender := name\<rparr>) = Some m'" "Type m' = MsgTypeChat" "Sender m' = utf8_coerce name"
    "Content m' = StdEncode (salt @ rest)" "Channel m' = ''general''" "Timestamp m' = coerce_time (ne_now e)" "\<not> Edited m'"
    using m encodable_coerce_time [OF assms(5)] by (simp_all add: m'_def transmit_def keep general)
  have "adapter_write L key m' = Ret (Some (''['' @ Kitchen (coerce_time (ne_now e)) @ ''] '' @ utf8_coerce name @ '': '' @
      text @ '' [E2EE]'' @ [CHR 0x0D, CHR 0x0A]))"
    using m' c(2) assms(4) by (simp add: adapter_write_def adapter_content_def ssh_shown_def)
  with c m m' show ?thesis by blast
qed

lemma demo_enc: "argon2_ok (lib_argon demo_lib)" "gcm_ok (lib_gcm demo_lib)" "enc_env_ok demo_env"
  "encodable_time (ne_now demo_env)"
  by (simp_all add: toy_argon2_ok toy_gcm_ok enc_env_ok_def encodable_time_def zero_time_def) (simp_all add: demo_env_def)

theorem ssh_text_arrives_witness:
  "\<exists>content m m'. ssh_content demo_lib demo_env ''key'' ''hello'' = Ret content \<and>
     transmit (ssh_message demo_env ''bob'' content) = Some m \<and> transmit (m\<lparr>Sender := ''bob''\<rparr>) = Some m' \<and>
     adapter_write demo_lib ''key'' m' = Ret (Some (''['' @ Kitchen (coerce_time zero_time) @ ''] bob: hello [E2EE]'' @
       [CHR 0x0D, CHR 0x0A]))"
proof -
  have "utf8_coerce ''bob'' = ''bob''" by (intro graph_coerce) (simp add: graph_def)
  with ssh_text_arrives [OF demo_enc(1-3) _ demo_enc(4), of "''key''" "''hello''" "''bob''" "''bob''"]
  show ?thesis by simp
qed

text \<open>
  One encrypted message in 64 is lost. The node takes every content that starts with a slash for a command, and
  the base64 text of an encrypted message starts with one exactly if the first byte of its random salt is 252 or
  more. Then nobody gets the message: it is not passed on, not saved, and the sender is told of an unknown command.
\<close>

theorem encrypted_line_lost:
  assumes "argon2_ok (lib_argon L)" and "gcm_ok (lib_gcm L)" and "enc_env_ok e" and "key \<noteq> []"
    and "n_mu n = Readers 0" and "Content msg = content" and "ssh_content L e key text = Ret content"
  shows "(HasPrefix (TrimSpace content) ''/'' \<longleftrightarrow> 252 \<le> bval (hd (the (ne_enc_salt e)))) \<and>
    (HasPrefix (TrimSpace content) ''/'' \<longrightarrow>
       client_message L e c msg n =
         Ret (sent e 0 c (''Unknown command: '' @ content @ ''. Type /help for available commands.'') n))"
proof -
  obtain salt rest where c: "ne_enc_salt e = Some salt" "length salt = 16" "content = StdEncode (salt @ rest)" "28 \<le> length rest"
    using ssh_content_encrypted [OF assms(1-4), of "text"] assms(7) by (metis outcome.inject)
  have g: "list_all graph content" unfolding c(3) by (rule StdEncode_graph)
  have len: "40 \<le> length content" using c by (simp add: length_b64_encode_std)
  have trim: "TrimSpace content = content" using g by (rule graph_TrimSpace)
  have fields: "Fields content = [content]" using g len by (intro graph_Fields) auto
  have "HasPrefix content ''/'' \<longleftrightarrow> 252 \<le> bval (hd salt)"
    using StdEncode_slash [of "salt @ rest"] c by (cases salt) auto
  moreover have "client_message L e c msg n =
      Ret (sent e 0 c (''Unknown command: '' @ content @ ''. Type /help for available commands.'') n)"
    if "HasPrefix content ''/''"
  proof -
    have ne: "content \<noteq> w" if "length w < 40" for w using that len by auto
    have "run_command L e c m [content] cl n =
        sendToClient e 0 c (''Unknown command: '' @ content @ ''. Type /help for available commands.'') n" for m cl
      by (simp add: run_command_def Let_def ne)
    then show ?thesis using that assms(5,6)
      by (simp add: client_message_def handleCommand_def free_ops trim fields Let_def)
  qed
  ultimately show ?thesis using c(1) by (simp add: trim)
qed

theorem encrypted_line_lost_witness:
  "let e = demo_env\<lparr>ne_enc_salt := Some (replicate 16 (CHR 0xFF))\<rparr>
   in \<exists>content. ssh_content demo_lib e ''key'' ''hello'' = Ret content \<and>
        client_message demo_lib e 2 (says content) demo_node =
          Ret (sent e 0 2 (''Unknown command: '' @ content @ ''. Type /help for available commands.'') demo_node)"
proof -
  let ?e = "demo_env\<lparr>ne_enc_salt := Some (replicate 16 (CHR 0xFF))\<rparr>"
  have e: "enc_env_ok ?e" by (simp add: enc_env_ok_def demo_env_def)
  obtain content where c: "ssh_content demo_lib ?e ''key'' ''hello'' = Ret content"
    using ssh_content_encrypted [OF demo_enc(1,2) e, of "''key''" "''hello''"] by blast
  have "bval (hd (replicate 16 (CHR 0xFF))) = 255" by (simp add: numeral_eq_Suc)
  with encrypted_line_lost [OF demo_enc(1,2) e _ demo_simps(4) _ c, of "says content" 2] c show ?thesis
    by (auto simp: Let_def)
qed

end
