(* ===== verification/TuiServer.thy ===== *)
theory TuiServer
  imports TuiInv SshText
begin

text \<open>
  The terminal client and the server together: a screen that shows a channel as the store has it stays in step with
  changes, a text that is typed in one client under a key is shown in another one, and what becomes of a text that is
  typed into the tab of a direct message.
\<close>

section \<open>The screen and the store\<close>

definition shows_channel :: "tui \<Rightarrow> storage \<Rightarrow> string \<Rightarrow> bool" where
  "shows_channel m s ch =
     (case mget (channelState m) ch of None \<Rightarrow> False | Some st \<Rightarrow> Messages st = view s (chan s ch))"

definition server_change :: "wire_msg \<Rightarrow> storage \<Rightarrow> storage \<times> bool" where
  \<comment> \<open>the change of the store that the message announces\<close>
  "server_change msg s =
     (case Type msg of
        MsgTypeEditMessage \<Rightarrow> UpdateMessage (ID msg) (Content msg) s
      | MsgTypeDeleteMessage \<Rightarrow> DeleteMessage (ID msg) s
      | MsgTypeReaction \<Rightarrow> AddReaction (ID msg) (Content msg) (Sender msg) s
      | _ \<Rightarrow> (s, False))"

definition reacted :: "wire_msg \<Rightarrow> wire_msg \<Rightarrow> bool" where
  \<comment> \<open>the message \<open>w\<close> has the reaction that \<open>msg\<close> announces already\<close>
  "reacted msg w =
     (ID w = ID msg \<and> Sender msg \<in> set (mget_or [] (case Reactions w of None \<Rightarrow> [] | Some R \<Rightarrow> R) (Content msg)))"

lemma chan_abs: "sp_chan (store_abs s) ch = view s (chan s ch)"
  by (simp add: store_abs_def)

lemma spec_change_chan: "snd (spec_change i f A) \<Longrightarrow> sp_chan (fst (spec_change i f A)) ch = map (on_id i f) (sp_chan A ch)"
  by (simp add: spec_change_def split: if_splits)

lemma spec_delete_chan: "snd (spec_delete i A) \<Longrightarrow> sp_chan (fst (spec_delete i A)) ch = filter (\<lambda>m. ID m \<noteq> i) (sp_chan A ch)"
  by (simp add: spec_delete_def split: if_splits)

lemma chan_changed:
  assumes "coherent s"
  shows "snd (UpdateMessage i t s) \<Longrightarrow>
      view (fst (UpdateMessage i t s)) (chan (fst (UpdateMessage i t s)) ch) = map (on_id i (edit t)) (view s (chan s ch))"
    "snd (DeleteMessage i s) \<Longrightarrow>
      view (fst (DeleteMessage i s)) (chan (fst (DeleteMessage i s)) ch) = filter (\<lambda>m. ID m \<noteq> i) (view s (chan s ch))"
    "snd (AddReaction i em u s) \<Longrightarrow>
      view (fst (AddReaction i em u s)) (chan (fst (AddReaction i em u s)) ch) = map (on_id i (react em u)) (view s (chan s ch))"
  using pair_caseD [OF UpdateMessage_refines [OF assms, THEN conjunct1], of i t] spec_change_chan [of i "edit t" "store_abs s" ch]
    pair_caseD [OF DeleteMessage_refines [OF assms, THEN conjunct1], of i] spec_delete_chan [of i "store_abs s" ch]
    pair_caseD [OF AddReaction_refines [OF assms, THEN conjunct1], of i em u] spec_change_chan [of i "react em u" "store_abs s" ch]
  unfolding chan_abs by (metis chan_abs)+

lemma tally_react: "tally em u w = react em u w \<longleftrightarrow>
    u \<notin> set (mget_or [] (case Reactions w of None \<Rightarrow> [] | Some R \<Rightarrow> R) em)"
proof
  assume "tally em u w = react em u w"
  moreover have "tally em u w \<noteq> w"
  proof
    assume "tally em u w = w"
    then have "Reactions (tally em u w) = Reactions w" by simp
    then show False
      by (cases "Reactions w") (auto simp: tally_def Let_def mget_or_def split: option.splits dest!: arg_cong [of _ _ "\<lambda>R. mget R em"])
  qed
  ultimately show "u \<notin> set (mget_or [] (case Reactions w of None \<Rightarrow> [] | Some R \<Rightarrow> R) em)"
    by (auto simp: react_def Let_def)
qed (simp add: tally_def react_def Let_def)

lemma mget_on_messages: "mget (channelState (on_messages f m)) ch =
    map_option (\<lambda>st. st\<lparr>Messages := f (Messages st)\<rparr>) (mget (channelState m) ch)"
  unfolding on_messages_def by (induction "channelState m" arbitrary: m) (auto simp: map_of_map split_beta)

text \<open>
  C14. The screen stays in step with the store. If a channel's tab shows exactly what a coherent store has in the
  channel, and the store carries out an edit, a deletion or a reaction, then after the message that announces it the
  tab shows the store's channel again; but for a reaction its user had made before: the store keeps one per user, the
  client counts both.
\<close>

theorem screen_in_step:
  assumes "coherent s" and "shows_channel m s ch" and "snd (server_change msg s)"
  shows "\<exists>m'. handleServerMessage L now msg m = Ret m' \<and>
    (shows_channel m' (fst (server_change msg s)) ch \<longleftrightarrow>
       \<not> (Type msg = MsgTypeReaction \<and> list_ex (reacted msg) (view s (chan s ch))))"
proof -
  let ?V = "view s (chan s ch)"
  obtain st where st: "mget (channelState m) ch = Some st" "Messages st = ?V"
    using assms(2) by (auto simp: shows_channel_def split: option.splits)
  have ids: "distinct (map ID ?V)" using coherentD(3) [OF assms(1)] by (simp add: map_ID_view)
  have shown: "shows_channel (on_messages f m) s' ch \<longleftrightarrow> f ?V = view s' (chan s' ch)" for f s'
    using st by (simp add: shows_channel_def mget_on_messages)
  consider (edit) "Type msg = MsgTypeEditMessage" | (delete) "Type msg = MsgTypeDeleteMessage"
    | (react) "Type msg = MsgTypeReaction"
    using assms(3) by (auto simp: server_change_def split: message_type.splits)
  then show ?thesis
  proof cases
    case edit
    then show ?thesis using assms(3) ids chan_changed(1) [OF assms(1)]
      by (simp add: handleServerMessage_def server_change_def shown update_first_distinct) (simp add: edit_def [abs_def])
  next
    case delete
    then show ?thesis using assms(3) ids chan_changed(2) [OF assms(1)]
      by (simp add: handleServerMessage_def server_change_def shown delete_first_distinct)
  next
    case react
    have "map (on_id (ID msg) (tally (Content msg) (Sender msg))) ?V =
        map (on_id (ID msg) (react (Content msg) (Sender msg))) ?V \<longleftrightarrow> \<not> list_ex (reacted msg) ?V"
      by (auto simp: list_ex_iff on_id_def reacted_def tally_react)
    with react show ?thesis using assms(3) ids chan_changed(3) [OF assms(1)]
      by (simp add: handleServerMessage_def server_change_def shown update_first_distinct)
  qed
qed

lemma memo_contents: "allMsgs memo_store = [with_reactions None memo]" "messages memo_store = [(''general'', [with_reactions None memo])]"
  by (simp_all add: memo_store_def Save_def MaxMessageSize_def prepare_msg_def normalizeChannel_def alloc_def
      trim_capacity_def Let_def with_reactions_def memo_def chat_def test_store_def mget_or_def split: prod.split)

theorem screen_in_step_witness:
  "let msg = no_message\<lparr>Type := MsgTypeEditMessage, ID := ''00000001'', Content := ''hello''\<rparr>;
       m = add_message ''general'' True memo (NewModel ''bob'' [])
   in \<exists>m'. handleServerMessage demo_lib zero_time msg m = Ret m' \<and> shows_channel m' (fst (server_change msg memo_store)) ''general''"
proof -
  let ?msg = "no_message\<lparr>Type := MsgTypeEditMessage, ID := ''00000001'', Content := ''hello''\<rparr>"
    and ?m = "add_message ''general'' True memo (NewModel ''bob'' [])"
  have "snd (server_change ?msg memo_store)"
    by (simp add: server_change_def UpdateMessage_def memo_contents with_reactions_def memo_def chat_def Let_def)
  moreover have "view memo_store (chan memo_store ''general'') = [memo]"
    by (simp add: memo_contents mget_or_def view_def deref_def with_reactions_def memo_def chat_def no_message_def)
  then have "shows_channel ?m memo_store ''general''"
    by (simp add: shows_channel_def add_message_def ensureChannel_def change_state_def NewModel_def mhas_def no_state_def Let_def)
  ultimately show ?thesis using screen_in_step [OF memo_stored(2), of ?m "''general''" ?msg demo_lib zero_time] by (simp add: Let_def)
qed

section \<open>From one client to another\<close>

lemma server_tells:
  assumes "free n" and "may_chat e c n" and "\<not> HasPrefix (TrimSpace (Content msg)) ''/''"
    and "mget (clients n) d = Some cl" and "Send cl = Some q" and "length q < send_buffer"
    and "wants (n_channels n) (stamped e c n msg) cl"
  shows "\<exists>n'. node_run L [(e, ClientEv c msg), (e, BroadcastEv (length (bcast n)))] n = Ret n' \<and>
    mget (clients n') d = Some (cl\<lparr>Send := Some (q @ [stamped e c n msg])\<rparr>)"
  using chat_run [OF assms(1-3), of L] assms(4-7)
  by (simp add: after_chat_def clients_deliver offer_def Let_def)

lemma add_message_last:
  "\<exists>st. mget (channelState (add_message ch b msg m)) ch = Some st \<and> last (Messages st) = msg"
proof -
  obtain st where "mget (channelState (ensureChannel ch m)) ch = Some st"
    using ensure_fields(5) [of ch m] unfolding mhas_def by blast
  then show ?thesis by (simp add: add_message_def Let_def del: ensure_fields)
qed

text \<open>
  C8. End to end. What the user of a terminal client types under a key, without a slash in front, is sent encrypted;
  unless its base64 text happens to start with a slash (it does if the first byte of the salt is 252 or more, and is then
  lost: \<open>encrypted_line_lost\<close>), the server passes it on under the sender's registered name to
  the queue of every member of the channel that has room; and the terminal client of a member with the same key shows
  the text as typed, at the end of the tab of that channel.
\<close>

theorem typed_text_arrives:
  assumes "argon2_ok (lib_argon L)" and "gcm_ok (lib_gcm L)" and "enc_env_ok ea" and "encodable_time (ne_now ea)"
    and "secretKey a \<noteq> []" and "secretKey b = secretKey a" and "\<not> HasPrefix text ''/''"
    and "bval (hd (the (ne_enc_salt ea))) < 252" and "activeChannel a \<noteq> []" and "valid_utf8 (activeChannel a)"
    and "n_mu n = Readers 0" and "may_chat e c n" and "valid_utf8 (sender_of c n)"
    and "mget (clients n) d = Some cl" and "Send cl = Some q" and "length q < 256"
    and "Manager_IsMember (n_channels n) (activeChannel a) (User cl)"
  shows "\<exists>a' m m1 m2 m3 n' b' st. handleInput L ea text a = Ret a' \<and> sent_msgs a' = sent_msgs a @ [m] \<and>
    transmit m = Some m1 \<and> node_run L [(e, ClientEv c m1), (e, BroadcastEv (length (bcast n)))] n = Ret n' \<and>
    mget (clients n') d = Some (cl\<lparr>Send := Some (q @ [m2])\<rparr>) \<and> transmit m2 = Some m3 \<and>
    handleServerMessage L now m3 b = Ret b' \<and> mget (channelState b') (activeChannel a) = Some st \<and>
    Content (last (Messages st)) = text \<and> Sender (last (Messages st)) = sender_of c n"
proof -
  obtain salt rest where c: "ne_enc_salt ea = Some salt" "length salt = 16"
    "ssh_content L ea (secretKey a) text = Ret (StdEncode (salt @ rest))"
    "Decrypt (lib_argon L) (lib_gcm L) (StdEncode (salt @ rest)) (secretKey a) = Ret (Some text)"
    by (rule ssh_content_encrypted [OF assms(1-3,5), of "text"])
  let ?x = "StdEncode (salt @ rest)" and ?ch = "activeChannel a"
  have graph: "utf8_coerce ?x = ?x" "TrimSpace ?x = ?x"
    by (simp_all add: graph_coerce graph_TrimSpace StdEncode_graph)
  have slash: "\<not> HasPrefix ?x ''/''"
    using StdEncode_slash [of "salt @ rest"] c(1,2) assms(8) by (cases salt) auto
  define m where "m = tui_message ea ?x a"
  have "handleInput L ea text a = Ret (sendFunc m a)"
    using assms(5,7) c(3) by (auto simp: handleInput_def ssh_content_def m_def obind_Ret_iff split: option.splits)
  moreover have "sent_msgs (sendFunc m a) = sent_msgs a @ [m]" by (simp add: sendFunc_def)
  moreover obtain m1 where m1: "transmit m = Some m1" "Type m1 = MsgTypeChat" "Content m1 = ?x" "Channel m1 = ?ch"
    "encodable_time (Timestamp m1)"
    using assms(4,10) encodable_coerce_time [OF assms(4)]
    by (simp add: transmit_def m_def tui_message_def graph valid_utf8_def)
  moreover define m2 where "m2 = stamped e c n m1"
  have m2: "Type m2 = MsgTypeChat" "Content m2 = ?x" "Channel m2 = ?ch" "encodable_time (Timestamp m2)" "Sender m2 = sender_of c n"
    using m1 assms(9) by (simp_all add: m2_def) (simp_all add: stamped_def Let_def)
  then have "wants (n_channels n) m2 cl" using assms(17) by (simp add: wants_def)
  then obtain n' where "node_run L [(e, ClientEv c m1), (e, BroadcastEv (length (bcast n)))] n = Ret n'"
    "mget (clients n') d = Some (cl\<lparr>Send := Some (q @ [m2])\<rparr>)"
    using server_tells [OF assms(11,12) _ assms(14,15), of m1 L] assms(16) m1 graph slash
    by (auto simp: m2_def send_buffer_def)
  moreover obtain m3 where m3: "transmit m2 = Some m3" "Type m3 = MsgTypeChat" "Content m3 = ?x" "Channel m3 = ?ch"
    "Sender m3 = sender_of c n"
    using m2 assms(10,13) by (simp add: transmit_def graph valid_utf8_def)
  moreover have "handleServerMessage L now m3 b = Ret (add_message ?ch True (m3\<lparr>Content := text\<rparr>) b)"
    using m3 c(4) assms(5,6,9) by (simp add: handleServerMessage_def msg_channel_def)
  moreover obtain st where "mget (channelState (add_message ?ch True (m3\<lparr>Content := text\<rparr>) b)) ?ch = Some st"
    "last (Messages st) = m3\<lparr>Content := text\<rparr>"
    using add_message_last by blast
  then have "Content (last (Messages st)) = text" "Sender (last (Messages st)) = sender_of c n"
    using m3(5) by simp_all
  ultimately show ?thesis using \<open>mget _ ?ch = Some st\<close> by blast
qed

theorem typed_text_arrives_witness:
  "\<exists>a' m m1 m2 m3 n' b' st. handleInput demo_lib demo_env ''hello'' (NewModel ''alice'' ''key'') = Ret a' \<and>
     sent_msgs a' = [m] \<and> transmit m = Some m1 \<and>
     node_run demo_lib [(demo_env, ClientEv 1 m1), (demo_env, BroadcastEv 0)] demo_node = Ret n' \<and>
     mget (clients n') 2 = Some ((demo_client ''bob'')\<lparr>Send := Some [m2]\<rparr>) \<and> transmit m2 = Some m3 \<and>
     handleServerMessage demo_lib zero_time m3 (NewModel ''bob'' ''key'') = Ret b' \<and>
     mget (channelState b') ''general'' = Some st \<and>
     Content (last (Messages st)) = ''hello'' \<and> Sender (last (Messages st)) = ''alice''"
proof -
  have m: "secretKey (NewModel u k) = k" "activeChannel (NewModel u k) = ''general''" "sent_msgs (NewModel u k) = []" for u k
    by (simp_all add: NewModel_def)
  have utf: "valid_utf8 ''general''" "valid_utf8 ''alice''" by (simp_all add: valid_utf8_ascii)
  have salt: "bval (hd (the (ne_enc_salt demo_env))) < 252" by (simp add: demo_env_def)
  have member: "Manager_IsMember (n_channels demo_node) ''general'' (User (demo_client ''bob''))"
    by (simp add: Manager_IsMember_def demo_channels_def general_channel_def mhas_def)
  have get: "mget (clients demo_node) 2 = Some (demo_client ''bob'')" "Send (demo_client ''bob'') = Some []" by simp_all
  have plain: "\<not> HasPrefix ''hello'' ''/''" by (simp add: HasPrefix_def)
  show ?thesis
    using typed_text_arrives [OF demo_enc, of "NewModel ''alice'' ''key''" "NewModel ''bob'' ''key''" "''hello''" demo_node demo_env
        1 2 "demo_client ''bob''" "[]" zero_time]
      m utf salt member get plain demo_may_chat(1) demo_simps(4,8) demo_sender(1)
    by (simp del: node_run_simps node_step.simps One_nat_def)
qed

section \<open>The tab of a direct message\<close>

lemma colon_no_channel: "manager_ok m \<Longrightarrow> HasPrefix ch ''dm:'' \<Longrightarrow> \<not> Manager_IsMember m ch u"
proof -
  assume ok: "manager_ok m" and dm: "HasPrefix ch ''dm:''"
  obtain r where "ch = ''dm:'' @ r" using dm by (auto simp: HasPrefix_iff prefix_def)
  then have "\<not> list_all channel_name_char ch" by (simp add: channel_name_char_def is_digit_def)
  then have "mget (channels m) ch = None"
    using manager_ok_get [OF ok, of ch] by (cases "mget (channels m) ch") (auto simp: channel_ok_def ValidateChannelName_def)
  then show ?thesis by (simp add: Manager_IsMember_def)
qed

text \<open>
  C38. The tab of a direct message is a trap. A text that a user types while such a tab is shown, without a key and
  without a slash in front, goes out as a chat message for a channel \<open>dm:\<close>\<dots>. No such channel can exist, so the
  server puts it into nobody's queue, not even that of its sender, while it is saved, and relayed to every peer.
\<close>

theorem dm_tab_reaches_nobody:
  assumes "secretKey m = []" and "HasPrefix (activeChannel m) ''dm:''" and "valid_utf8 (activeChannel m)"
    and "TrimSpace text = text" and "\<not> HasPrefix text ''/''" and "valid_utf8 text" and "encodable_time (ne_now ea)"
    and "n_mu n = Readers 0" and "manager_ok (n_channels n)" and "may_chat e c n"
  shows "\<exists>w w1 w2 n'. handleInput L ea text m = Ret (sendFunc w m) \<and> transmit w = Some w1 \<and>
    node_run L [(e, ClientEv c w1), (e, BroadcastEv (length (bcast n)))] n = Ret n' \<and> clients n' = clients n \<and>
    Content w2 = text \<and> Channel w2 = activeChannel m \<and> n_storage n' = fst (Save (env_save e) w2 (n_storage n)) \<and>
    outbox n' = outbox n @ map (\<lambda>p. (p, w2)) (map fst (peers n))"
proof -
  define w where "w = tui_message ea text m"
  have "handleInput L ea text m = Ret (sendFunc w m)"
    using assms(1,5) by (simp add: handleInput_def w_def)
  moreover obtain w1 where w1: "transmit w = Some w1" "Type w1 = MsgTypeChat" "Content w1 = text" "Channel w1 = activeChannel m"
    using assms(3,6,7) by (simp add: transmit_def w_def tui_message_def valid_utf8_def)
  moreover define w2 where "w2 = stamped e c n w1"
  have ne: "activeChannel m \<noteq> []" using assms(2) by (auto simp: HasPrefix_def)
  have w2: "Type w2 = MsgTypeChat" "Content w2 = text" "Channel w2 = activeChannel m"
    using w1 ne by (simp_all add: w2_def) (simp add: stamped_def Let_def)
  have "wants (n_channels n) w2 cl = False" for cl
    using w2 ne colon_no_channel [OF assms(9,2)] by (simp add: wants_def)
  then have "deliver w2 n = n" by (simp add: deliver_def split_beta)
  moreover have "node_run L [(e, ClientEv c w1), (e, BroadcastEv (length (bcast n)))] n = Ret (after_chat e c w1 n)"
    using assms(4,5) w1 by (intro chat_run assms(8,10)) simp
  ultimately show ?thesis using w2
    by (intro exI [of _ w] exI [of _ w1] exI [of _ w2] exI [of _ "after_chat e c w1 n"])
      (simp add: after_chat_def saved_def stored_type_def relayed_def relayed_type_def Let_def flip: w2_def)
qed

theorem dm_tab_reaches_nobody_witness:
  "\<exists>w w1 n'. handleInput demo_lib demo_env ''hi'' (switchToChannel ''dm:bob'' (NewModel ''alice'' [])) =
       Ret (sendFunc w (switchToChannel ''dm:bob'' (NewModel ''alice'' []))) \<and> transmit w = Some w1 \<and>
     node_run demo_lib [(demo_env, ClientEv 1 w1), (demo_env, BroadcastEv 0)] demo_node = Ret n' \<and>
     clients n' = clients demo_node"
proof -
  let ?m = "switchToChannel ''dm:bob'' (NewModel ''alice'' [])"
  have m: "secretKey ?m = []" "activeChannel ?m = ''dm:bob''"
    by (simp_all add: switchToChannel_def ensureChannel_def change_state_def NewModel_def mhas_def HasPrefix_def Let_def)
  have utf: "valid_utf8 ''dm:bob''" "valid_utf8 ''hi''" by (simp_all add: valid_utf8_ascii)
  have plain: "HasPrefix ''dm:bob'' ''dm:''" "TrimSpace ''hi'' = ''hi''" "\<not> HasPrefix ''hi'' ''/''"
    by (simp_all add: text_eval)
  have "manager_ok (n_channels demo_node)" using node_inv_demo by (simp add: node_inv_def)
  then show ?thesis
    using dm_tab_reaches_nobody [of ?m "''hi''" demo_env demo_node demo_env 1 demo_lib] m utf plain demo_enc(4) demo_may_chat(1) demo_simps(4,8)
    by (simp del: node_run_simps node_step.simps One_nat_def demo_maps) blast
qed

end
