(* ===== verification/TuiView.thy ===== *)
theory TuiView
  imports Tui "HOL-Library.Signed_Division"
begin

text \<open>
  What the terminal client draws: \<open>View\<close> and the \<open>render\<close> functions of \<open>internal/tui/model.go\<close>, with the styles of
  \<open>internal/tui/styles.go\<close>. The library that applies a style to a text, joins blocks and measures widths is a parameter
  (\<open>lipgloss\<close>), as are the views of the input and the viewport.
\<close>

section \<open>Styles\<close>

datatype style_attr =
    Foreground string | Background string | Bold | Italic | Padding nat nat | MarginTop nat
  | BorderTop | BorderRight | NormalBorder | BorderForeground string | Width int | Height int | AlignCenter

type_synonym style = "style_attr list"

record lipgloss =
  Render :: "style \<Rightarrow> string \<Rightarrow> string"
  TextWidth :: "string \<Rightarrow> int"
  JoinHorizontal :: "string list \<Rightarrow> string"
  JoinVertical :: "string list \<Rightarrow> string"
  input_View :: "text_input \<Rightarrow> string"
  viewport_View :: "viewport \<Rightarrow> string"

definition colorPrimary :: string where "colorPrimary = ''#7C3AED''"
definition colorSecondary :: string where "colorSecondary = ''#06B6D4''"
definition colorAccent :: string where "colorAccent = ''#F59E0B''"
definition colorSuccess :: string where "colorSuccess = ''#10B981''"
definition colorDanger :: string where "colorDanger = ''#EF4444''"
definition colorMuted :: string where "colorMuted = ''#6B7280''"
definition colorText :: string where "colorText = ''#E5E7EB''"
definition colorDim :: string where "colorDim = ''#4B5563''"
definition colorHighlight :: string where "colorHighlight = ''#374151''"
definition colorInputBg :: string where "colorInputBg = ''#1F2937''"

definition senderColors :: "string list" where
  "senderColors =
     [''#60A5FA'', ''#34D399'', ''#F472B6'', ''#FBBF24'', ''#A78BFA'', ''#FB923C'', ''#2DD4BF'', ''#E879F9'']"

definition InputStyle :: style where
  "InputStyle = [Background colorInputBg, Padding 0 1, BorderTop, NormalBorder, BorderForeground colorDim]"

definition StatusBarStyle :: style where
  "StatusBarStyle = [Background colorPrimary, Foreground ''#FFFFFF'', Padding 0 1, Bold]"

definition ChannelActiveStyle :: style where
  "ChannelActiveStyle = [Foreground ''#FFFFFF'', Background colorHighlight, Bold, Padding 0 1]"

definition ChannelStyle :: style where
  "ChannelStyle = [Foreground colorText, Padding 0 1]"

definition ChannelUnreadStyle :: style where
  "ChannelUnreadStyle = [Foreground colorAccent, Bold, Padding 0 1]"

definition SectionHeaderStyle :: style where
  "SectionHeaderStyle = [Foreground colorMuted, Bold, Padding 0 1, MarginTop 1]"

definition UnreadBadgeStyle :: style where "UnreadBadgeStyle = [Foreground colorDanger, Bold]"
definition TimestampStyle :: style where "TimestampStyle = [Foreground colorDim]"
definition ServerMsgStyle :: style where "ServerMsgStyle = [Foreground colorAccent, Italic]"
definition SystemMsgStyle :: style where "SystemMsgStyle = [Foreground colorSuccess]"
definition MentionStyle :: style where "MentionStyle = [Foreground colorDanger, Bold]"
definition EditedStyle :: style where "EditedStyle = [Foreground colorMuted, Italic]"
definition DMTagStyle :: style where "DMTagStyle = [Foreground ''#F472B6'', Bold]"
definition ReactionStyle :: style where "ReactionStyle = [Foreground colorSecondary]"
definition SidebarBorder :: style where "SidebarBorder = [BorderRight, NormalBorder, BorderForeground colorDim]"

definition sender_index :: "string \<Rightarrow> int" where
  \<comment> \<open>the hash wraps around at 64 bits, and so does its negation; \<open>%\<close> rounds towards zero\<close>
  "sender_index user =
     (let hash = fold (\<lambda>c h. wrap64 (h * 31 + int c)) (runes user) 0;
          hash = (if hash < 0 then wrap64 (- hash) else hash)
      in hash smod 8)"

definition SenderColor :: "string \<Rightarrow> string" where
  "SenderColor user = senderColors ! nat (sender_index user)"

section \<open>Messages\<close>

definition clock :: "gotime \<Rightarrow> string" where
  \<comment> \<open>\<open>t.Format("15:04")\<close>\<close>
  "clock t =
     (let sod = (tnanos t div 10 ^ 9 + toffset t) mod 86400; h = nat (sod div 3600); m = nat (sod mod 3600 div 60)
      in [digit_char (h div 10), digit_char (h mod 10)] @ '':'' @ [digit_char (m div 10), digit_char (m mod 10)])"

definition shorten :: "nat \<Rightarrow> string \<Rightarrow> string" where
  "shorten k s = (if k < length s then take k s else s)"

definition bold_sender :: "lipgloss \<Rightarrow> string \<Rightarrow> string" where
  "bold_sender G user = Render G [Foreground (SenderColor user), Bold] user"

definition mention :: "lipgloss \<Rightarrow> string \<Rightarrow> string \<Rightarrow> string" where
  \<comment> \<open>the text that is searched for starts with an at sign, so it is not empty\<close>
  "mention G user content =
     (let name = ''@'' @ user in if Contains content name then ReplaceAll content name (Render G MentionStyle name) else content)"

definition reaction_tag :: "(string \<Rightarrow> nat \<Rightarrow> string) \<Rightarrow> (string \<Rightarrow> string) \<Rightarrow> reactions option \<Rightarrow> string" where
  "reaction_tag count_text wrap r =
     (case r of
        None \<Rightarrow> []
      | Some R \<Rightarrow> if R = [] then [] else wrap (Join (map (\<lambda>(emoji, users). count_text emoji (length users)) R) '' ''))"

definition formatMessage :: "lipgloss \<Rightarrow> tui \<Rightarrow> wire_msg \<Rightarrow> string" where
  "formatMessage G m msg =
     (let ts = Render G TimestampStyle (clock (Timestamp msg)) in
      case Type msg of
        MsgTypeJoin \<Rightarrow> '' '' @ ts @ ''  '' @ Render G SystemMsgStyle (Content msg)
      | MsgTypeLeave \<Rightarrow> '' '' @ ts @ ''  '' @ Render G [Foreground colorDanger] (Content msg)
      | MsgTypeDirectMessage \<Rightarrow>
          (let direction = (if Sender msg = username m then [CHR 0xE2, CHR 0x86, CHR 0x90] else [CHR 0xE2, CHR 0x86, CHR 0x92]);
               tag = Render G DMTagStyle (''[DM '' @ direction @ '' '' @ Recipient msg @ '']'')
           in '' '' @ ts @ '' '' @ tag @ '' '' @ bold_sender G (Sender msg) @ '': '' @ Content msg)
      | _ \<Rightarrow>
          (let sender = (if Sender msg = ''Server'' then Render G ServerMsgStyle ''Server'' else bold_sender G (Sender msg));
               content = mention G (username m) (Content msg);
               idTag = (if ID msg = [] then [] else Render G [Foreground colorDim] (''['' @ shorten 6 (ID msg) @ ''] ''));
               editTag = (if Edited msg then '' '' @ Render G EditedStyle ''(edited)'' else []);
               replyTag = (if ReplyTo msg = [] then []
                           else '' '' @ Render G [Foreground colorSecondary] (([CHR 0xE2, CHR 0x86, CHR 0xA9] @ '' '') @ shorten 6 (ReplyTo msg)));
               reactTag = reaction_tag (\<lambda>emoji k. emoji @ '' '' @ show_nat k)
                            (\<lambda>t. '' '' @ Render G ReactionStyle (''['' @ t @ '']'')) (Reactions msg)
           in '' '' @ ts @ '' '' @ idTag @ sender @ replyTag @ '': '' @ content @ editTag @ reactTag))"

definition renderMessages :: "lipgloss \<Rightarrow> tui \<Rightarrow> string" where
  "renderMessages G m =
     (let ms = (case mget (channelState m) (activeChannel m) of None \<Rightarrow> [] | Some st \<Rightarrow> Messages st) in
      if ms = [] then Render G [Foreground colorMuted, Italic] ([CHR 0x0A] @ ''  No messages yet. Say hello! '' @ [CHR 0xF0, CHR 0x9F, CHR 0x91, CHR 0x8B])
      else concat (map (\<lambda>msg. formatMessage G m msg @ [CHR 0x0A]) ms))"

section \<open>The panes\<close>

definition unread_badge :: "lipgloss \<Rightarrow> int \<Rightarrow> string" where
  "unread_badge G k = '' '' @ Render G UnreadBadgeStyle (''('' @ Itoa k @ '')'')"

definition channel_line :: "lipgloss \<Rightarrow> tui \<Rightarrow> nat \<Rightarrow> string \<Rightarrow> string" where
  "channel_line G m i name =
     (let unread = (case mget (channelState m) name of None \<Rightarrow> 0 | Some st \<Rightarrow> Unread st) in
      (if name = activeChannel m \<and> t_focus m \<noteq> FocusSidebar \<or> t_focus m = FocusSidebar \<and> int i = sidebarCursor m
       then Render G ChannelActiveStyle (''#'' @ name)
       else if 0 < unread then Render G ChannelUnreadStyle (''#'' @ name @ unread_badge G unread)
       else Render G ChannelStyle (''#'' @ name)) @ [CHR 0x0A])"

definition dm_line :: "lipgloss \<Rightarrow> tui \<Rightarrow> string \<Rightarrow> string" where
  "dm_line G m user =
     (let dmCh = ''dm:'' @ user; unread = (case mget (channelState m) dmCh of None \<Rightarrow> 0 | Some st \<Rightarrow> Unread st) in
      (if dmCh = activeChannel m then Render G ChannelActiveStyle (''  '' @ user)
       else if 0 < unread then Render G ChannelUnreadStyle (''  '' @ user @ unread_badge G unread)
       else Render G ChannelStyle (''  '' @ user)) @ [CHR 0x0A])"

definition renderSidebar :: "lipgloss \<Rightarrow> int \<Rightarrow> int \<Rightarrow> tui \<Rightarrow> string" where
  "renderSidebar G width height m =
     (let header = Render G [Foreground colorPrimary, Bold, Padding 0 1] ([CHR 0xE2, CHR 0x9A, CHR 0xA1] @ '' meshchat'');
          dms = (if dmUsers m = [] then []
                 else Render G SectionHeaderStyle ''DIRECT MESSAGES'' @ [CHR 0x0A] @ concat (map (dm_line G m) (dmUsers m)));
          content = header @ [CHR 0x0A] @ Render G SectionHeaderStyle ''CHANNELS'' @ [CHR 0x0A] @
            concat (map (\<lambda>(i, name). channel_line G m i name) (enumerate 0 (t_channels m))) @ dms
      in Render G (SidebarBorder @ [Width width, Height height]) content)"

definition renderChatArea :: "lipgloss \<Rightarrow> int \<Rightarrow> int \<Rightarrow> tui \<Rightarrow> string" where
  \<comment> \<open>the receiver is a copy: the sizes set here are for this drawing only\<close>
  "renderChatArea G width height m =
     (let vp = (t_viewport m)\<lparr>vp_Width := width - 2, vp_Height := height - 3\<rparr>;
          prompt = Render G [Foreground colorPrimary, Bold] ''> '';
          inputView = Render G (InputStyle @ [Width width]) (prompt @ input_View G (t_input m))
      in JoinVertical G [viewport_View G vp, inputView])"

definition renderStatusBar :: "lipgloss \<Rightarrow> gotime \<Rightarrow> tui \<Rightarrow> string" where
  "renderStatusBar G now m =
     (let left = ('' '' @ [CHR 0xF0, CHR 0x9F, CHR 0x9F, CHR 0xA2] @ '' '') @ username m;
          ch = activeChannel m;
          center = (if HasPrefix ch ''dm:'' then ''DM: '' @ TrimPrefix ch ''dm:'' else ''#'' @ ch);
          typing = map fst (filter (\<lambda>(user, t). duration_sub (tnanos now) (tnanos t) < 5 * 10 ^ 9) (typingUsers m));
          right = (if typing \<noteq> [] then Join typing '', '' @ '' typing... '' else statusText m @ '' '');
          centerW = t_width m - TextWidth G left - TextWidth G right;
          centerW = (if centerW < 0 then 0 else centerW);
          centerPad = Render G [Width centerW, AlignCenter] center
      in Render G (StatusBarStyle @ [Width (t_width m)]) (left @ centerPad @ right))"

definition View :: "lipgloss \<Rightarrow> gotime \<Rightarrow> tui \<Rightarrow> string" where
  "View G now m =
     (if t_width m = 0 then ''Loading...''
      else
        (let sidebarWidth = sidebarWidth m; chatWidth = t_width m - sidebarWidth - 1;
             main = JoinHorizontal G [renderSidebar G sidebarWidth (t_height m - 1) m, renderChatArea G chatWidth (t_height m - 1) m]
         in JoinVertical G [main, renderStatusBar G now m]))"

text \<open>
  The colour of a sender never fails, whatever the name: the index into the eight colours is one of 0 to 7, also
  where the hash overflows 64 bits, even at the one value whose negation is itself negative.
\<close>

theorem sender_index_in_range: "0 \<le> sender_index user \<and> sender_index user < int (length senderColors)"
proof -
  define h where "h = fold (\<lambda>c h. wrap64 (h * 31 + int c)) (runes user) 0"
  have bound: "in_int64 (fold (\<lambda>c h. wrap64 (h * 31 + int c)) cs i)" if "in_int64 i" for cs i
    using that by (induction cs arbitrary: i) simp_all
  have h: "in_int64 h" unfolding h_def by (intro bound) (simp add: in_int64_def)
  have pos: "0 \<le> x smod 8 \<and> x smod 8 < 8" if "0 \<le> x" for x :: int
    using that by (simp add: signed_modulo_int_def signed_divide_int_def sgn_if)
  have "0 \<le> (if h < 0 then wrap64 (- h) else h) smod 8 \<and> (if h < 0 then wrap64 (- h) else h) smod 8 < 8"
  proof (cases "h = - (2 ^ 63)")
    case True
    then have "(if h < 0 then wrap64 (- h) else h) smod 8 = 0"
      by (simp add: wrap64_def signed_modulo_int_def signed_divide_int_def)
    then show ?thesis by simp
  next
    case False
    then have "wrap64 (- h) = - h" using h by (intro wrap64_id) (auto simp: in_int64_def)
    then show ?thesis using pos [of "- h"] pos [of h] by simp
  qed
  then show ?thesis by (simp add: sender_index_def senderColors_def Let_def flip: h_def)
qed

end
