(* ===== verification/Client.thy ===== *)
theory Client
  imports TuiServer TuiView
begin

text \<open>
  \<open>cmd/client/main.go\<close>: the command line client. One definition gives what the client does with a line the user types (\<open>client_line\<close>), one what it does with a message
  of the server (\<open>client_shows\<close>); what they do to the outside is a value. Reading a file and writing one are
  arguments. \<open>filepath.Join\<close> is that of a system whose separator is the slash.
\<close>

section \<open>Paths\<close>

fun clean_step :: "bool \<Rightarrow> string \<Rightarrow> string list \<Rightarrow> string list" where
  \<comment> \<open>the components kept so far are in reverse order\<close>
  "clean_step rooted c [] = (if c = [] \<or> c = ''.'' \<or> c = ''..'' \<and> rooted then [] else [c])"
| "clean_step rooted c (d # ds) =
     (if c = [] \<or> c = ''.'' then d # ds
      else if c = ''..'' then (if d = ''..'' then c # d # ds else ds)
      else c # d # ds)"

definition Clean :: "string \<Rightarrow> string" where
  "Clean p =
     (let rooted = HasPrefix p ''/''; q = (if rooted then ''/'' else []) @ Join (rev (fold (clean_step rooted) (Split p CHR ''/'') [])) ''/''
      in if q = [] then ''.'' else q)"

definition path_Join :: "string list \<Rightarrow> string" where
  "path_Join ps = (let ps = filter (\<lambda>p. p \<noteq> []) ps in if ps = [] then [] else Clean (Join ps ''/''))"

section \<open>Joining the server\<close>

definition colorReset :: string where "colorReset = [CHR 0x1B] @ ''[0m''"
definition colorRed :: string where "colorRed = [CHR 0x1B] @ ''[31m''"
definition colorGreen :: string where "colorGreen = [CHR 0x1B] @ ''[32m''"
definition colorYellow :: string where "colorYellow = [CHR 0x1B] @ ''[33m''"
definition colorBlue :: string where "colorBlue = [CHR 0x1B] @ ''[34m''"
definition colorMagenta :: string where "colorMagenta = [CHR 0x1B] @ ''[35m''"
definition colorCyan :: string where "colorCyan = [CHR 0x1B] @ ''[36m''"
definition colorGray :: string where "colorGray = [CHR 0x1B] @ ''[90m''"
definition colorBold :: string where "colorBold = [CHR 0x1B] @ ''[1m''"

definition credentials_msg :: "bool \<Rightarrow> node_env \<Rightarrow> string \<Rightarrow> string \<Rightarrow> wire_msg" where
  \<comment> \<open>the first message: to register, or to log in\<close>
  "credentials_msg register e user password =
     no_message\<lparr>Type := (if register then MsgTypeRegister else MsgTypeLogin), Sender := user,
       Content := user @ '':'' @ password, Timestamp := ne_now e\<rparr>"

datatype client_start = Registered | RegistrationFailed string | LoggedIn | LoginFailed string | LoggedInUnasked int

definition client_start :: "bool \<Rightarrow> wire_msg \<Rightarrow> client_start" where
  \<comment> \<open>what the answer to the first message makes of the client; only \<open>LoggedIn\<close> and \<open>LoggedInUnasked\<close> go on\<close>
  "client_start register res =
     (if register then (if Content res = ''OK_REGISTERED'' then Registered else RegistrationFailed (Content res))
      else if Type res = MsgTypeAuthResult then (if Content res = ''OK'' then LoggedIn else LoginFailed (Content res))
      else LoggedInUnasked (type_code (Type res)))"

definition tui_start :: "bool \<Rightarrow> wire_msg \<Rightarrow> client_start" where
  \<comment> \<open>the same in \<open>cmd/tui/main.go\<close>\<close>
  "tui_start register res =
     (if register then (if Content res = ''OK_REGISTERED'' then Registered else RegistrationFailed (Content res))
      else if Type res = MsgTypeAuthResult \<and> Content res \<noteq> ''OK'' then LoginFailed (Content res) else LoggedIn)"

section \<open>What the user types\<close>

datatype client_action = ClearScreen | SendMsg wire_msg | Print string | LogError

definition client_msg :: "node_env \<Rightarrow> string \<Rightarrow> message_type \<Rightarrow> string \<Rightarrow> wire_msg" where
  "client_msg e user t content =
     no_message\<lparr>Type := t, Sender := user, Content := content, Timestamp := ne_now e\<rparr>"

definition client_encrypt :: "node_lib \<Rightarrow> node_env \<Rightarrow> string \<Rightarrow> string \<Rightarrow> string option outcome" where
  "client_encrypt L e key text =
     (if key = [] then Ret (Some text)
      else Encrypt (lib_argon L) (lib_gcm L) (ne_enc_salt e) (ne_enc_nonce e) text key)"

definition client_line ::
    "node_lib \<Rightarrow> node_env \<Rightarrow> (string \<Rightarrow> string option) \<Rightarrow> string \<Rightarrow> string \<Rightarrow> string \<Rightarrow> client_action list outcome" where
  "client_line L e read_file user key text =
     (if TrimSpace text = ''/clear'' then Ret [ClearScreen]
      else if HasPrefix text ''/'' then Ret [SendMsg (client_msg e user MsgTypeChat text)]
      else if HasPrefix text ''/image '' then
        (let path = TrimPrefix text ''/image '' in
         case read_file path of
           None \<Rightarrow> Ret [Print (colorRed @ ''Error reading file'' @ colorReset)]
         | Some data \<Rightarrow>
             obind (client_encrypt L e key (StdEncode data))
               (\<lambda>r. Ret (case r of
                    None \<Rightarrow> [Print (colorRed @ ''Error encrypting image'' @ colorReset)]
                  | Some finalContent \<Rightarrow>
                      [SendMsg (client_msg e user MsgTypeImage finalContent),
                       Print (colorGreen @ ([CHR 0xF0, CHR 0x9F, CHR 0x93, CHR 0xA4] @ '' Image sent: '') @ path @ colorReset)])))
      else
        obind (client_encrypt L e key text)
          (\<lambda>r. Ret (case r of None \<Rightarrow> [LogError] | Some finalContent \<Rightarrow> [SendMsg (client_msg e user MsgTypeChat finalContent)])))"

section \<open>What the server sends\<close>

datatype client_effect = Shown string | SavedFile string string string

definition highlightMentions :: "string \<Rightarrow> string \<Rightarrow> string" where
  "highlightMentions content currentUser =
     ReplaceAll content (''@'' @ currentUser) (colorBold @ colorRed @ ''@'' @ currentUser @ colorReset)"

definition chat_content :: "node_lib \<Rightarrow> string \<Rightarrow> wire_msg \<Rightarrow> string outcome" where
  "chat_content L key msg =
     (if key = [] then Ret (Content msg)
      else obind (Decrypt (lib_argon L) (lib_gcm L) (Content msg) key)
        (\<lambda>r. Ret (case r of
             Some decrypted \<Rightarrow> decrypted @ '' '' @ colorGreen @ ''[E2EE]'' @ colorReset
           | None \<Rightarrow> colorYellow @ ''[Encrypted]'' @ colorReset)))"

definition chat_line :: "string \<Rightarrow> wire_msg \<Rightarrow> string \<Rightarrow> string" where
  "chat_line user msg content =
     (let idTag = (if ID msg = [] then [] else colorGray @ ''['' @ shorten 8 (ID msg) @ '']'' @ colorReset @ '' '');
          editTag = (if Edited msg then '' '' @ colorYellow @ ''(edited)'' @ colorReset else []);
          replyTag = (if ReplyTo msg = [] then []
                      else '' '' @ colorCyan @ ([CHR 0xE2, CHR 0x86, CHR 0xA9] @ '' reply to ['') @ shorten 8 (ReplyTo msg) @ '']'' @ colorReset);
          chTag = (if Channel msg = [] \<or> Channel msg = ''general'' then []
                   else '' '' @ colorMagenta @ ''#'' @ Channel msg @ colorReset);
          content = highlightMentions content user;
          reactTag = reaction_tag (\<lambda>emoji k. emoji @ ''('' @ show_nat k @ '')'')
                       (\<lambda>t. '' '' @ colorCyan @ ''['' @ t @ '']'' @ colorReset) (Reactions msg);
          senderColor = (if Sender msg = ''Server'' then colorYellow else colorBlue)
      in idTag @ colorGray @ ''['' @ Kitchen (Timestamp msg) @ '']'' @ colorReset @ chTag @ '' '' @ senderColor @ Sender msg @
         colorReset @ replyTag @ '': '' @ content @ editTag @ reactTag @ colorReset @ [CHR 0x0A])"

definition image_path :: "gotime \<Rightarrow> string \<Rightarrow> string" where
  "image_path now sender = path_Join [''downloads'', ''image_'' @ Itoa (tnanos now div 10 ^ 9) @ ''_'' @ sender @ ''.png'']"

definition image_effects :: "bool \<Rightarrow> gotime \<Rightarrow> wire_msg \<Rightarrow> string \<Rightarrow> client_effect list" where
  \<comment> \<open>the first argument: writing the file succeeds\<close>
  "image_effects write_ok now msg imgContent =
     (case StdDecode imgContent of
        None \<Rightarrow> [Shown (colorRed @ ''[Image] Failed to decode base64'' @ colorReset @ [CHR 0x0A])]
      | Some data \<Rightarrow>
          (let path = image_path now (Sender msg) in
           if write_ok
           then [SavedFile path data (colorCyan @ ([CHR 0xF0, CHR 0x9F, CHR 0x93, CHR 0x8E] @ '' ['') @ Kitchen (Timestamp msg) @ ''] '' @ Sender msg @
                   '' sent an image: Saved to '' @ path @ colorReset @ [CHR 0x0A])]
           else [Shown (colorRed @ ''[Image] Failed to save file'' @ colorReset @ [CHR 0x0A])]))"

definition client_shows ::
    "node_lib \<Rightarrow> bool \<Rightarrow> gotime \<Rightarrow> string \<Rightarrow> string \<Rightarrow> wire_msg \<Rightarrow> client_effect list outcome" where
  "client_shows L write_ok now user key msg =
     (let short = shorten 8 (ID msg) in
      case Type msg of
        MsgTypeChat \<Rightarrow> obind (chat_content L key msg) (\<lambda>content. Ret [Shown (chat_line user msg content)])
      | MsgTypeDirectMessage \<Rightarrow>
          (let direction = (if Sender msg = user then [CHR 0xE2, CHR 0x86, CHR 0x90] else [CHR 0xE2, CHR 0x86, CHR 0x92]) in
           Ret [Shown (colorMagenta @ ''[DM '' @ direction @ '' '' @ Recipient msg @ '']'' @ colorReset @ '' '' @ colorBold @
             Sender msg @ colorReset @ '': '' @ Content msg @ [CHR 0x0A])])
      | MsgTypeJoin \<Rightarrow> Ret [Shown (colorGreen @ Content msg @ colorReset @ [CHR 0x0A])]
      | MsgTypeLeave \<Rightarrow> Ret [Shown (colorRed @ Content msg @ colorReset @ [CHR 0x0A])]
      | MsgTypeEditMessage \<Rightarrow>
          Ret [Shown (colorYellow @ ([CHR 0xE2, CHR 0x9C, CHR 0x8F, CHR 0xEF, CHR 0xB8, CHR 0x8F] @ ''  Message ['') @ short @ ''] edited by '' @ Sender msg @ '': '' @ Content msg @
            colorReset @ [CHR 0x0A])]
      | MsgTypeDeleteMessage \<Rightarrow>
          Ret [Shown (colorRed @ ([CHR 0xF0, CHR 0x9F, CHR 0x97, CHR 0x91, CHR 0xEF, CHR 0xB8, CHR 0x8F] @ ''  Message ['') @ short @ ''] deleted by '' @ Sender msg @ colorReset @ [CHR 0x0A])]
      | MsgTypeReaction \<Rightarrow>
          Ret [Shown (colorCyan @ Sender msg @ '' reacted '' @ Content msg @ '' to ['' @ short @ '']'' @ colorReset @ [CHR 0x0A])]
      | MsgTypeTyping \<Rightarrow>
          Ret (if Sender msg = user then []
               else [Shown (colorGray @ Sender msg @ '' is typing...'' @ colorReset @ [CHR 0x0D])])
      | MsgTypeStatusChange \<Rightarrow>
          Ret [Shown (colorCyan @ ([CHR 0xF0, CHR 0x9F, CHR 0x93, CHR 0xA1] @ '' '') @ Sender msg @ '' is now '' @ Content msg @ colorReset @ [CHR 0x0A])]
      | MsgTypeImage \<Rightarrow>
          obind (if key = [] then Ret (Some (Content msg)) else Decrypt (lib_argon L) (lib_gcm L) (Content msg) key)
            (\<lambda>r. Ret (case r of
                 None \<Rightarrow> [Shown (colorRed @ ''[Image] Failed to decrypt image data'' @ colorReset @ [CHR 0x0A])]
               | Some imgContent \<Rightarrow> image_effects write_ok now msg imgContent))
      | _ \<Rightarrow> Ret [])"

section \<open>What the command line client cannot do\<close>

text \<open>
  No image can be sent. Whatever the user types, every message the client sends is a chat message: the branch for
  \<open>/image\<close> comes after the one that sends every line with a slash in front to the server. And the server has no such
  command: it answers that it is unknown, and does nothing else.
\<close>

theorem image_command_unreachable:
  assumes "n_mu n = Readers 0" and "Content m = text" and "Fields (TrimSpace text) = ''/image'' # args"
    and "HasPrefix (TrimSpace text) ''/''"
  shows "(client_line L e read_file user key line = Ret acts \<and> SendMsg w \<in> set acts \<longrightarrow> Type w = MsgTypeChat) \<and>
    (HasPrefix line ''/'' \<and> TrimSpace line \<noteq> ''/clear'' \<longrightarrow>
       client_line L e read_file user key line = Ret [SendMsg (client_msg e user MsgTypeChat line)]) \<and>
    client_message L e c m n = Ret (sent e 0 c ''Unknown command: /image. Type /help for available commands.'' n)"
proof -
  have "\<not> HasPrefix line ''/image ''" if "\<not> HasPrefix line ''/''"
    using that by (auto simp: HasPrefix_iff)
  then have "Type w = MsgTypeChat" if "client_line L e read_file user key line = Ret acts" "SendMsg w \<in> set acts"
    using that by (auto simp: client_line_def client_msg_def obind_Ret_iff split: if_splits option.splits)
  moreover have "run_command L e c w (''/image'' # args) cl n =
      sendToClient e 0 c ''Unknown command: /image. Type /help for available commands.'' n" for w cl
    by (simp add: run_command_def Let_def)
  ultimately show ?thesis using assms
    by (simp add: client_line_def client_message_def handleCommand_def free_ops Let_def)
qed

theorem image_command_unreachable_witness:
  "client_line demo_lib demo_env (\<lambda>p. Some ''data'') ''bob'' [] ''/image cat.png'' =
     Ret [SendMsg (client_msg demo_env ''bob'' MsgTypeChat ''/image cat.png'')] \<and>
   client_message demo_lib demo_env 2 (says ''/image cat.png'') demo_node =
     Ret (sent demo_env 0 2 ''Unknown command: /image. Type /help for available commands.'' demo_node)"
proof -
  have "TrimSpace ''/image cat.png'' = ''/image cat.png''" "Fields ''/image cat.png'' = [''/image'', ''cat.png'']"
    "HasPrefix ''/image cat.png'' ''/''"
    by (simp_all add: text_eval)
  with image_command_unreachable [OF demo_simps(4), of "says ''/image cat.png''" "''/image cat.png''" "[''cat.png'']"
      demo_lib demo_env "\<lambda>p. Some ''data''" "''bob''" "[]" "''/image cat.png''" _ _ 2]
  show ?thesis by simp
qed

section \<open>Where images are stored\<close>






section \<open>Replies under a key\<close>

text \<open>
  A key hides the server's replies. With a key set the command line client decrypts every chat message, and the
  server's own notices and replies to commands are chat messages in plain text: whatever one with a space in it says,
  the user sees the same line, the word \<open>[Encrypted]\<close>.
\<close>

theorem key_hides_replies:
  assumes "key \<noteq> []" and "Type m = MsgTypeChat"
  shows "\<exists>line. \<forall>content. CHR '' '' \<in> set content \<longrightarrow>
    client_shows L write_ok now user key (m\<lparr>Content := content\<rparr>) = Ret [Shown line]"
proof -
  have "client_shows L write_ok now user key (m\<lparr>Content := content\<rparr>) =
      Ret [Shown (chat_line user m (colorYellow @ ''[Encrypted]'' @ colorReset))]" if "CHR '' '' \<in> set content" for content
    using that assms Decrypt_bad_char [of "CHR '' ''" content]
    by (simp add: client_shows_def chat_content_def chat_line_def Let_def)
  then show ?thesis by blast
qed

theorem key_hides_replies_witness:
  "client_shows demo_lib True zero_time ''bob'' ''key'' (no_message\<lparr>Sender := ''Server'', Content := ''Message not found''\<rparr>) =
   client_shows demo_lib True zero_time ''bob'' ''key'' (no_message\<lparr>Sender := ''Server'', Content := ''You are muted.''\<rparr>)"
  using key_hides_replies [of "''key''" "no_message\<lparr>Sender := ''Server''\<rparr>" demo_lib True zero_time "''bob''"] by auto

end
