(* ===== verification/Election.thy ===== *)
theory Election
  imports NodeFrame
begin

text \<open>
  Peers and leaders: what the election gives where all nodes know each other's port, what it gives where they do not,
  and how long a silent peer is kept.
\<close>

section \<open>Steps that leave the peers alone\<close>

definition same_links :: "node \<Rightarrow> node \<Rightarrow> bool" where
  "same_links n n' = (peers n' = peers n \<and> peerIDs n' = peerIDs n \<and> phases n' = phases n \<and> port n' = port n)"

interpretation links: message_frame "\<lambda>e. True" same_links
  by unfold_locales (simp_all add: same_links_def set_status_def)

definition calm :: "event \<Rightarrow> bool" where
  \<comment> \<open>the event is none of the peers' business\<close>
  "calm ev =
     (case ev of
        FirstEv c m \<Rightarrow> False | DialEv c \<Rightarrow> False | PeerEv c m \<Rightarrow> False | PeerEndEv c \<Rightarrow> False | MonitorEv \<Rightarrow> False
      | _ \<Rightarrow> True)"

fun peers_kept :: "node \<Rightarrow> node outcome \<Rightarrow> bool" where
  \<comment> \<open>the peers are the same, and a peer stays in its loop\<close>
  "peers_kept n (Ret n') =
     (peers n' = peers n \<and> peerIDs n' = peerIDs n \<and> port n' = port n \<and> (\<forall>c. in_phase c PeerLoop n \<longrightarrow> in_phase c PeerLoop n'))"
| "peers_kept n _ = True"

lemma links_kept: "frames same_links n x \<Longrightarrow> peers_kept n x"
  by (cases x) (simp_all add: in_phase_def same_links_def)

lemma SendMessage_links [simp]:
  "peers (SendMessage c m n) = peers n" "peerIDs (SendMessage c m n) = peerIDs n" "port (SendMessage c m n) = port n"
  by (simp_all add: SendMessage_def)

lemma fold_SendMessage_links [simp]:
  "peers (fold (SendMessage c) ms n) = peers n" "peerIDs (fold (SendMessage c) ms n) = peerIDs n"
  "port (fold (SendMessage c) ms n) = port n" "phases (fold (SendMessage c) ms n) = phases n"
  by (induction ms arbitrary: n) simp_all

lemma phase_links [simp]:
  "peers (set_phase c p n) = peers n" "peerIDs (set_phase c p n) = peerIDs n" "port (set_phase c p n) = port n"
  "peers (close_conn c n) = peers n" "peerIDs (close_conn c n) = peerIDs n" "port (close_conn c n) = port n"
  "mget (phases (set_phase c p n)) d = (if d = c then Some p else mget (phases n) d)"
  "mget (phases (close_conn c n)) d = (if d = c then Some Over else mget (phases n) d)"
  by (auto simp: set_phase_def close_conn_def)

lemma calm_step:
  assumes "free n" and "calm ev"
  shows "peers_kept n (node_step L e ev n)"
proof (cases ev)
  case (ClientEv c msg)
  then show ?thesis using links_kept [OF links.frame_client [OF assms(1) TrueI]] by simp
next
  case (SshMsgEv c)
  let ?n = "n\<lparr>ssh_pipe := delete_first (\<lambda>(d, _). d = c) (ssh_pipe n)\<rparr>"
  have "peers_kept n (client_message L e c msg ?n)" for msg
    using links.frame_client [of ?n L e c msg] assms(1) by (cases "client_message L e c msg ?n") (simp_all add: in_phase_def same_links_def)
  then show ?thesis using SshMsgEv by (auto split: option.split)
next
  case (SshEv c u pw)
  have "peers_kept n (obind (CheckAuth L e u pw n) (\<lambda>(ok, n). Ret (if ok then ssh_session e c u n else n)))"
    if "mget (phases n) c = None"
    using that by (cases "Auth_Check (lib_argon L) (ne_users e) (ne_now e) (ne_salt e) u pw (n_auth n)")
      (auto simp: CheckAuth_def ssh_session_def in_phase_def split: prod.split)
  then show ?thesis using SshEv by simp
next
  case (SshLineEv c t)
  then show ?thesis
    by (cases "ssh_content L e (sshKey n) t") (auto simp: ssh_line_def in_phase_def split: option.split)
next
  case (WelcomeEv c)
  have "peers_kept n (handle_welcome e c u n)" if "mget (phases n) c = Some (Welcoming u)" for u
    using that by (cases "GetRecentMessages 50 (n_storage n)") (auto simp: handle_welcome_def Let_def in_phase_def)
  then show ?thesis using WelcomeEv by (auto split: option.split phase.split)
qed (use assms in \<open>auto simp: calm_def handle_accept_def reading_free in_phase_def handle_register_def writing_free
    handle_client_end_def handle_unregister_def wlock_def wunlock_def handle_broadcast_def broadcastToClients_free
    broadcastToPeers_free pump_def heartbeat_def election_def InjectMessage_def ssh_end_def Let_def split: option.split list.split phase.split\<close>)

lemma apply_peer_links:
  assumes "free n"
  shows "\<exists>b n'. apply_peer L e c msg n = Ret (b, n') \<and> free n' \<and> peers n' = peers n \<and> peerIDs n' = peerIDs n \<and>
    port n' = port n \<and> phases n' = phases n"
  using assms by (auto simp: apply_peer_def coordinator_def note_remote_def writing_free Let_def
      split: message_type.split option.split)

lemma peer_message_links:
  assumes "free n"
  shows "\<exists>n'. peer_message L e c msg n = Ret n' \<and> peers n' = mput c (ne_now e) (peers n) \<and> peerIDs n' = peerIDs n \<and>
    port n' = port n \<and> phases n' = phases n"
proof -
  obtain b n' where "apply_peer L e c msg (n\<lparr>peers := mput c (ne_now e) (peers n)\<rparr>) = Ret (b, n')" "free n'"
    "peers n' = mput c (ne_now e) (peers n)" "peerIDs n' = peerIDs n" "port n' = port n" "phases n' = phases n"
    using apply_peer_links [of "n\<lparr>peers := mput c (ne_now e) (peers n)\<rparr>" L e c msg] assms by auto
  with assms show ?thesis by (simp add: peer_message_def writing_free free_unlock broadcastToClients_free)
qed

section \<open>How long a peer is kept\<close>

lemma timed_out_iff: "timed_out now t \<longleftrightarrow> tnanos now - tnanos t > 15 * 10 ^ 9"
  by (auto simp: timed_out_def PeerTimeout_def duration_sub_def)

fun attended :: "nat \<Rightarrow> gotime \<Rightarrow> (node_env \<times> event) list \<Rightarrow> bool" where
  \<comment> \<open>whenever the monitor looks, the peer \<open>c\<close>, last heard at \<open>t\<close>, was heard at most fifteen seconds ago (times are in
     nanoseconds); it does not hang up\<close>
  "attended c t [] = True"
| "attended c t ((e, PeerEv d m) # evs) = attended c (if d = c then ne_now e else t) evs"
| "attended c t ((e, MonitorEv) # evs) = (tnanos (ne_now e) - tnanos t \<le> 15 * 10 ^ 9 \<and> attended c t evs)"
| "attended c t ((e, PeerEndEv d) # evs) = (d \<noteq> c \<and> attended c t evs)"
| "attended c t ((e, ev) # evs) = attended c t evs"

lemma mget_filter_first: "mget m c = Some t \<Longrightarrow> P (c, t) \<Longrightarrow> mget (filter P m) c = Some t"
  by (induction m) (auto split: if_splits)

lemma attended_calm: "calm ev \<or> (\<exists>d m. ev = FirstEv d m) \<or> (\<exists>d. ev = DialEv d) \<Longrightarrow> attended c t ((e, ev) # evs) = attended c t evs"
  by (cases ev) (simp_all add: calm_def)

lemma attended_step:
  assumes "free n" and "mget (peers n) c = Some t" and "in_phase c PeerLoop n" and "attended c t ((e, ev) # evs)"
    and "node_step L e ev n = Ret n'"
  shows "\<exists>t'. mget (peers n') c = Some t' \<and> in_phase c PeerLoop n' \<and> attended c t' evs"
proof -
  have other: "mget (phases n) c = Some PeerLoop" using assms(3) by (simp add: in_phase_def)
  show ?thesis
  proof (cases "calm ev")
    case True
    then have "peers_kept n (node_step L e ev n)" using calm_step [OF assms(1)] by blast
    with assms True show ?thesis by (simp add: attended_calm)
  next
    case False
    then show ?thesis
    proof (cases ev)
      case (PeerEv d m)
      then show ?thesis using assms peer_message_links [OF assms(1), of L e d m]
        by (auto simp: in_phase_def split: if_splits)
    next
      case MonitorEv
      then show ?thesis using assms mget_filter_first [OF assms(2), of "\<lambda>(_, t). \<not> timed_out (ne_now e) t"]
        by (auto simp: timed_out_iff monitor_def writing_free free_unlock Let_def in_phase_def)
    next
      case (FirstEv d m)
      then have kept: "attended c t evs" using assms(4) attended_calm [of ev] by auto
      consider "d = c" | "d \<noteq> c" by blast
      then show ?thesis
      proof cases
        case 1
        then show ?thesis using FirstEv assms kept by (auto simp: in_phase_def)
      next
        case 2
        have "mget (peers n') c = Some t \<and> in_phase c PeerLoop n'"
        proof (cases "in_phase d Greeting n")
          case True
          then have "handle_first L e d m n = Ret n'" using FirstEv assms(5) by simp
          then show ?thesis using assms(1-3) 2
            by (cases rule: handle_first_cases) (auto simp: in_phase_def)
        qed (use FirstEv assms in simp)
        with kept show ?thesis by blast
      qed
    qed (use assms other in \<open>auto simp: calm_def dial_peer_def peer_end_def writing_free Let_def in_phase_def split: if_splits\<close>)
  qed
qed

lemma attended_run:
  "node_inv n \<Longrightarrow> mget (peers n) c = Some t \<Longrightarrow> in_phase c PeerLoop n \<Longrightarrow> attended c t evs \<Longrightarrow>
     node_run L evs n = Ret n' \<Longrightarrow> mhas (peers n') c \<and> in_phase c PeerLoop n'"
proof (induction evs arbitrary: n t)
  case (Cons x evs)
  obtain e ev where x: "x = (e, ev)" by (cases x)
  from Cons.prems(5) obtain n1 where n1: "node_step L e ev n = Ret n1" "node_run L evs n1 = Ret n'"
    by (auto simp: x obind_Ret_iff simp del: node_step.simps)
  have "node_inv n1" using node_inv_step [OF Cons.prems(1), of L e ev] n1(1) by simp
  moreover obtain t' where "mget (peers n1) c = Some t'" "in_phase c PeerLoop n1" "attended c t' evs"
    using attended_step [OF node_inv_free [OF Cons.prems(1)] Cons.prems(2,3) _ n1(1)] Cons.prems(4) x by blast
  ultimately show ?case using Cons.IH n1(2) by blast
qed (simp add: mhas_def)

text \<open>
  C26. Peers that talk are kept and silent ones are dropped. A peer stays in the map of peers, with its loop running,
  through every run in which it does not hang up and, whenever the monitor looks, was heard at most fifteen seconds ago.
  A look of the monitor keeps exactly the peers that were heard at most fifteen seconds ago, with the times they were
  heard at, and closes the connections of exactly the others.
\<close>

theorem talking_peer_stays:
  assumes "node_inv n" and "mget (peers n) c = Some t" and "in_phase c PeerLoop n"
  shows "(attended c t evs \<and> node_run L evs n = Ret n' \<longrightarrow> mhas (peers n') c \<and> in_phase c PeerLoop n') \<and>
    (\<exists>n1. node_step L e MonitorEv n = Ret n1 \<and>
       peers n1 = filter (\<lambda>(_, s). tnanos (ne_now e) - tnanos s \<le> 15 * 10 ^ 9) (peers n) \<and>
       closed_conns n1 = map fst (filter (\<lambda>(_, s). tnanos (ne_now e) - tnanos s > 15 * 10 ^ 9) (peers n)) @ closed_conns n)"
proof -
  have "\<exists>n1. node_step L e MonitorEv n = Ret n1 \<and> peers n1 = filter (\<lambda>(_, t). \<not> timed_out (ne_now e) t) (peers n) \<and>
      closed_conns n1 = map fst (filter (\<lambda>(_, t). timed_out (ne_now e) t) (peers n)) @ closed_conns n"
    using node_inv_free [OF assms(1)] by (simp add: monitor_def writing_free free_unlock Let_def)
  then show ?thesis using attended_run [OF assms, of evs L n'] by (simp add: timed_out_iff not_less)
qed

section \<open>Leaders\<close>

lemma election_effect:
  assumes "free n"
  shows "\<exists>n'. election n = Ret n' \<and> isLeader n' = highest n \<and> port n' = port n \<and>
    leaderID n' = (if highest n \<and> \<not> isLeader n then port n else leaderID n)"
  using assms by (auto simp: election_def wlock_def wunlock_def broadcastToPeers_free highest_def)

text \<open>
  One leader. Where every node knows the ports of all the others and no two have the same, one tick of each node's
  election makes exactly the one with the highest port a leader.
\<close>

theorem one_leader:
  assumes "\<And>n. n \<in> set ns \<Longrightarrow> n_mu n = Readers 0 \<and> set (map snd (peerIDs n)) = port ` set ns - {port n}"
  shows "\<exists>ns'. map election ns = map Ret ns' \<and> map port ns' = map port ns \<and>
    (\<forall>n \<in> set ns'. isLeader n \<longleftrightarrow> port n = Max (port ` set ns))"
proof -
  define tick where "tick n = (SOME n'. election n = Ret n')" for n
  have tick: "election n = Ret (tick n) \<and> isLeader (tick n) = highest n \<and> port (tick n) = port n" if n: "n \<in> set ns" for n
  proof -
    obtain n' where "election n = Ret n'" "isLeader n' = highest n" "port n' = port n"
      using election_effect [of n] assms [OF n] by blast
    then show ?thesis unfolding tick_def by simp
  qed
  have "highest n \<longleftrightarrow> port n = Max (port ` set ns)" if n: "n \<in> set ns" for n
  proof -
    have "highest n \<longleftrightarrow> (\<forall>i \<in> set (map snd (peerIDs n)). i \<le> port n)"
      by (force simp: highest_def list_all_iff)
    also have "\<dots> \<longleftrightarrow> (\<forall>i \<in> port ` set ns. i \<le> port n)" using assms [OF n] by auto
    also have "\<dots> \<longleftrightarrow> port n = Max (port ` set ns)"
      using n by (metis List.finite_set Max_ge Max_in empty_iff finite_imageI image_eqI order_antisym)
    finally show ?thesis .
  qed
  with tick show ?thesis by (intro exI [of _ "map tick ns"]) auto
qed

definition dialled :: "event \<Rightarrow> bool" where
  \<comment> \<open>another node dials this one and sends its handshake\<close>
  "dialled ev = (case ev of FirstEv c m \<Rightarrow> Type m = MsgTypePeerHandshake | _ \<Rightarrow> False)"

lemma no_ids_step:
  assumes "free n" and "peerIDs n = []" and "\<not> dialled ev" and "node_step L e ev n = Ret n'"
  shows "peerIDs n' = [] \<and> port n' = port n"
proof (cases "calm ev")
  case True
  then show ?thesis using calm_step [OF assms(1) True, of L e] assms(2,4) by simp
next
  case False
  then show ?thesis
  proof (cases ev)
    case (PeerEv d m)
    then show ?thesis using assms peer_message_links [OF assms(1), of L e d m] by (auto split: if_splits)
  next
    case (FirstEv d m)
    have "peerIDs n' = [] \<and> port n' = port n" if "handle_first L e d m n = Ret n'"
      using that assms(1) by (cases rule: handle_first_cases) (use assms(2,3) FirstEv in \<open>auto simp: dialled_def\<close>)
    then show ?thesis using FirstEv assms(2,4) by (auto split: if_splits)
  qed (use assms in \<open>auto simp: calm_def dial_peer_def peer_end_def monitor_def writing_free Let_def split: if_splits\<close>)
qed

text \<open>
  C36. Split brain. Only the side that accepts a connection learns the other's port. A node that nobody has dialled
  takes itself for the leader after every tick of its election, whatever leaders its peers announce to it in between
  and however high their ports are, and whoever logs in.
\<close>

theorem dialer_always_leads:
  assumes "node_inv n" and "peerIDs n = []" and "\<forall>(e, ev) \<in> set evs. \<not> dialled ev"
    and "node_run L (evs @ [(e, ElectionEv)]) n = Ret n'"
  shows "isLeader n' \<and> leaderID n' = port n"
proof -
  have "\<exists>n1. node_run L evs n = Ret n1 \<and> node_inv n1 \<and> peerIDs n1 = [] \<and> port n1 = port n \<and>
      node_step L e ElectionEv n1 = Ret n'"
    using assms
  proof (induction evs arbitrary: n)
    case (Cons x evs)
    obtain d ev where x: "x = (d, ev)" by (cases x)
    from Cons.prems(4) obtain n1 where n1: "node_step L d ev n = Ret n1" "node_run L (evs @ [(e, ElectionEv)]) n1 = Ret n'"
      by (auto simp: x obind_Ret_iff simp del: node_step.simps)
    have "node_inv n1" using node_inv_step [OF Cons.prems(1), of L d ev] n1(1) by simp
    moreover have "peerIDs n1 = [] \<and> port n1 = port n"
      using no_ids_step [OF node_inv_free [OF Cons.prems(1)] Cons.prems(2) _ n1(1)] Cons.prems(3) x by auto
    ultimately show ?case using Cons.IH [of n1] Cons.prems(3) n1 by (auto simp: x simp del: node_step.simps)
  qed (auto simp: obind_Ret_iff)
  then obtain n1 where n1: "node_inv n1" "peerIDs n1 = []" "port n1 = port n" "node_step L e ElectionEv n1 = Ret n'" by blast
  then have "node_inv n'" using node_inv_step [OF n1(1), of L e ElectionEv] by simp
  moreover have "isLeader n'" "port n' = port n"
    using election_effect [OF node_inv_free [OF n1(1)]] n1 by (auto simp: highest_def)
  ultimately show ?thesis by (simp add: node_inv_def)
qed

section \<open>Witnesses\<close>

definition peered_node :: node where
  "peered_node = demo_node\<lparr>peers := [(7, zero_time)], phases := (7, PeerLoop) # phases demo_node\<rparr>"

definition later :: "int \<Rightarrow> node_env" where
  "later s = demo_env\<lparr>ne_now := zero_time\<lparr>tnanos := tnanos zero_time + s * 10 ^ 9\<rparr>\<rparr>"

lemma node_inv_peered: "node_inv peered_node"
  using node_inv_demo by (auto simp: peered_node_def node_inv_def conns_ok_def phase_ok_def unclaimed_def)

theorem talking_peer_stays_witness:
  "let evs = [(later 10, PeerEv 7 (no_message\<lparr>Type := MsgTypeHeartbeat\<rparr>)), (later 20, MonitorEv)]
   in (\<exists>n'. node_run demo_lib evs peered_node = Ret n' \<and> mhas (peers n') 7) \<and>
      (\<exists>n1. node_step demo_lib (later 20) MonitorEv peered_node = Ret n1 \<and> 7 \<in> set (closed_conns n1))"
proof -
  let ?evs = "[(later 10, PeerEv 7 (no_message\<lparr>Type := MsgTypeHeartbeat\<rparr>)), (later 20, MonitorEv)]"
  have p: "peers peered_node = [(7, zero_time)]" "in_phase 7 PeerLoop peered_node" "n_mu peered_node = Readers 0"
    by (simp_all add: peered_node_def in_phase_def)
  have now: "tnanos (ne_now (later s)) = tnanos zero_time + s * 10 ^ 9" for s by (simp add: later_def)
  have a: "attended 7 zero_time ?evs"
    by (simp add: now)
  obtain n' where run: "node_run demo_lib ?evs peered_node = Ret n'"
    using p(2,3) by (simp add: peer_message_def apply_peer_def writing_free free_unlock monitor_def Let_def)
  show ?thesis
    using talking_peer_stays [OF node_inv_peered _ p(2), of zero_time ?evs demo_lib n' "later 20"] a run now [of 20]
    by (auto simp: p(1) Let_def simp del: node_run_simps node_step.simps)
qed

theorem one_leader_witness:
  "let a = demo_node\<lparr>peerIDs := [(7, 9000)]\<rparr>; b = demo_node\<lparr>port := 9000, peerIDs := [(4, 8000)]\<rparr>
   in \<exists>a' b'. election a = Ret a' \<and> election b = Ret b' \<and> \<not> isLeader a' \<and> isLeader b'"
proof -
  let ?a = "demo_node\<lparr>peerIDs := [(7, 9000)]\<rparr>" and ?b = "demo_node\<lparr>port := 9000, peerIDs := [(4, 8000)]\<rparr>"
  have "\<exists>ns'. map election [?a, ?b] = map Ret ns' \<and> map port ns' = map port [?a, ?b] \<and>
      (\<forall>n \<in> set ns'. isLeader n \<longleftrightarrow> port n = Max (port ` set [?a, ?b]))"
    by (rule one_leader) auto
  then show ?thesis by (auto simp: Let_def map_eq_Cons_conv)
qed

theorem dialer_always_leads_witness:
  "\<exists>n'. node_run demo_lib
      [(demo_env, PeerEv 7 (no_message\<lparr>Type := MsgTypeCoordinator, Content := ''9000''\<rparr>)), (demo_env, ElectionEv)] peered_node = Ret n' \<and>
     isLeader n' \<and> leaderID n' = 8000"
proof -
  let ?evs = "[(demo_env, PeerEv 7 (no_message\<lparr>Type := MsgTypeCoordinator, Content := ''9000''\<rparr>))]"
  have p: "in_phase 7 PeerLoop peered_node" "n_mu peered_node = Readers 0" "peerIDs peered_node = []" "port peered_node = 8000"
    by (simp_all add: peered_node_def in_phase_def)
  obtain n' where run: "node_run demo_lib (?evs @ [(demo_env, ElectionEv)]) peered_node = Ret n'"
  proof -
    obtain n1 where n1: "node_step demo_lib demo_env (PeerEv 7 (no_message\<lparr>Type := MsgTypeCoordinator, Content := ''9000''\<rparr>)) peered_node = Ret n1"
      using peer_message_links [OF p(2)] p(1) by fastforce
    then have "free n1" using node_inv_step [OF node_inv_peered, of demo_lib demo_env] node_inv_free by (metis keeps.simps(1))
    from that n1 election_effect [OF this] show thesis by auto
  qed
  from dialer_always_leads [OF node_inv_peered p(3) _ run] run p(4) show ?thesis by (auto simp: dialled_def)
qed

end
