(* ===== verification/NodeLife.thy ===== *)
theory NodeLife
  imports Election NodeDelivery
begin

text \<open>
  The life of a connection: the state machine of its phases as an inductive relation, the proof that every step of
  the node moves every connection along it, and what it takes to become a session.
\<close>

section \<open>The state machine\<close>

inductive life :: "(string \<Rightarrow> bool) \<Rightarrow> phase option \<Rightarrow> phase option \<Rightarrow> bool" for A where
  \<comment> \<open>the first argument: who is admitted\<close>
  stay: "life A p p"
| accept: "life A None (Some Greeting)"
| refuse: "life A None (Some Over)"                                 \<comment> \<open>the node is full\<close>
| dial: "life A None (Some PeerLoop)"
| handshake: "life A (Some Greeting) (Some PeerLoop)"
| ssh: "A (User reg) \<Longrightarrow> life A None (Some (Registering False reg))"
| login: "A (User reg) \<Longrightarrow> life A (Some Greeting) (Some (Registering True reg))"
| turned_away: "life A (Some Greeting) (Some Over)"                 \<comment> \<open>a wrong password, or registered\<close>
| join: "life A (Some (Registering False reg)) (Some ClientLoop)"
| join_tcp: "life A (Some (Registering True reg)) (Some (Welcoming (User reg)))"
| welcomed: "life A (Some (Welcoming user)) (Some ClientLoop)"
| hang_up: "life A (Some ClientLoop) (Some Over)"
| peer_gone: "life A (Some PeerLoop) (Some Over)"

inductive_cases life_from_Over: "life A (Some Over) p"
inductive_cases life_to_session:
  "life A p (Some (Registering h reg))" "life A p (Some (Welcoming user))" "life A p (Some ClientLoop)"

code_pred (modes: (i \<Rightarrow> bool) \<Rightarrow> i \<Rightarrow> i \<Rightarrow> bool) life .

lemma life_mono: "life A p q \<Longrightarrow> (\<And>u. A u \<Longrightarrow> B u) \<Longrightarrow> life B p q"
  by (induction rule: life.induct) (auto intro: life.intros)

lemma life_final:
  assumes "(life A)\<^sup>*\<^sup>* (Some Over) p"
  shows "p = Some Over"
  using assms by (induction rule: rtranclp_induct) (auto elim: life_from_Over)

section \<open>Every step follows it\<close>

definition checks :: "node_lib \<Rightarrow> node_env \<Rightarrow> string \<Rightarrow> string \<Rightarrow> node \<Rightarrow> bool" where
  \<comment> \<open>the authenticator accepts the password now\<close>
  "checks L e user pass n =
     (case Auth_Check (lib_argon L) (ne_users e) (ne_now e) (ne_salt e) user pass (n_auth n) of Ret (a, ok) \<Rightarrow> ok | _ \<Rightarrow> False)"

definition admits :: "node_lib \<Rightarrow> node_env \<Rightarrow> event \<Rightarrow> nat \<Rightarrow> string \<Rightarrow> node \<Rightarrow> bool" where
  \<comment> \<open>the event is the login of the user on the connection, with a password the authenticator accepts\<close>
  "admits L e ev c user n =
     (case ev of
        FirstEv d msg \<Rightarrow> d = c \<and> in_phase c Greeting n \<and> Type msg = MsgTypeLogin \<and>
          (case ParseCredentials (Content msg) of (u, p) \<Rightarrow> u = user \<and> checks L e u p n)
      | SshEv d u p \<Rightarrow> d = c \<and> mget (phases n) c = None \<and> u = user \<and> checks L e u p n
      | _ \<Rightarrow> False)"

fun moves :: "(string \<Rightarrow> bool) \<Rightarrow> nat \<Rightarrow> node \<Rightarrow> node outcome \<Rightarrow> bool" where
  "moves A c n (Ret n') = life A (mget (phases n) c) (mget (phases n') c)"
| "moves A c n _ = True"

lemma moves_links: "frames same_links n x \<Longrightarrow> moves A c n x"
  by (cases x) (simp_all add: life.stay same_links_def)

lemma moves_first:
  assumes "free n" and "in_phase d Greeting n"
  shows "moves (\<lambda>u. admits L e (FirstEv d msg) c u n) c n (handle_first L e d msg n)"
proof (cases "handle_first L e d msg n")
  case (Ret n')
  have "mget (phases n) d = Some Greeting" using assms(2) by (simp add: in_phase_def)
  with Ret assms(1) have "life (\<lambda>u. admits L e (FirstEv d msg) c u n) (mget (phases n) c) (mget (phases n') c)"
    using assms(2) by (cases rule: handle_first_cases) (auto simp: admits_def checks_def life.intros)
  with Ret show ?thesis by simp
qed simp_all

lemma moves_step:
  assumes "free n"
  shows "moves (\<lambda>u. admits L e ev c u n) c n (node_step L e ev n)"
proof (cases ev)
  case (ClientEv d msg)
  then show ?thesis using moves_links [OF links.frame_client [OF assms TrueI]] by (simp add: life.stay)
next
  case (SshMsgEv d)
  let ?n = "n\<lparr>ssh_pipe := delete_first (\<lambda>(x, _). x = d) (ssh_pipe n)\<rparr>"
  have "moves A c n (client_message L e d msg ?n)" for msg A
    using links.frame_client [of ?n L e d msg] assms by (cases "client_message L e d msg ?n") (simp_all add: life.stay same_links_def)
  then show ?thesis using SshMsgEv by (auto simp: life.stay split: option.split)
next
  case (FirstEv d msg)
  then show ?thesis using moves_first [OF assms] by (simp add: life.stay)
next
  case (SshEv d u pw)
  have "moves (\<lambda>u. admits L e ev c u n) c n (obind (CheckAuth L e u pw n) (\<lambda>(ok, n). Ret (if ok then ssh_session e d u n else n)))"
    if "mget (phases n) d = None"
    using that SshEv by (cases "Auth_Check (lib_argon L) (ne_users e) (ne_now e) (ne_salt e) u pw (n_auth n)")
      (auto simp: CheckAuth_def ssh_session_def admits_def checks_def life.intros split: prod.split)
  then show ?thesis using SshEv by (simp add: life.stay)
next
  case (SshLineEv d t)
  then show ?thesis
    by (cases "ssh_content L e (sshKey n) t") (auto simp: ssh_line_def life.stay split: option.split)
next
  case (WelcomeEv d)
  have "moves A c n (handle_welcome e d u n)" if "mget (phases n) d = Some (Welcoming u)" for u A
    using that by (cases "GetRecentMessages 50 (n_storage n)") (auto simp: handle_welcome_def Let_def intro: life.intros)
  then show ?thesis using WelcomeEv by (auto simp: life.stay split: option.split phase.split)
next
  case (PeerEv d m)
  then show ?thesis using peer_message_links [OF assms, of L e d m] by (auto simp: life.stay)
qed (use assms in \<open>auto simp: handle_accept_def reading_free in_phase_def handle_register_def writing_free dial_peer_def
    peer_end_def monitor_def handle_client_end_def handle_unregister_def wlock_def wunlock_def handle_broadcast_def
    broadcastToClients_free broadcastToPeers_free pump_def heartbeat_def election_def InjectMessage_def ssh_end_def Let_def
    intro: life.intros split: option.split list.split phase.split\<close>)

interpretation lives: run_frame "\<lambda>n. True" "\<lambda>n n'. (life (\<lambda>u. True))\<^sup>*\<^sup>* (mget (phases n) c) (mget (phases n') c)"
proof unfold_locales
  fix n L e ev n'
  assume "node_inv n" and "node_step L e ev n = Ret n'"
  then have "life (\<lambda>u. True) (mget (phases n) c) (mget (phases n') c)"
    using moves_step [OF node_inv_free, of n L e ev c] by (auto elim: life_mono simp del: node_step.simps)
  then show "True \<and> (life (\<lambda>u. True))\<^sup>*\<^sup>* (mget (phases n) c) (mget (phases n') c)" by blast
qed auto

section \<open>Who a connection belongs to\<close>

definition user_at :: "nat \<Rightarrow> node \<Rightarrow> string option" where
  "user_at c n = map_option User (mget (clients n) c)"

lemma user_at_frame [simp]:
  "user_at c (n\<lparr>n_storage := a1\<rparr>) = user_at c n" "user_at c (n\<lparr>n_channels := a2\<rparr>) = user_at c n"
  "user_at c (n\<lparr>n_auth := a3\<rparr>) = user_at c n" "user_at c (n\<lparr>n_limiter := a4\<rparr>) = user_at c n"
  "user_at c (n\<lparr>unreg := a5\<rparr>) = user_at c n" "user_at c (n\<lparr>outbox := a6\<rparr>) = user_at c n"
  "user_at c (n\<lparr>ssh_pipe := a7\<rparr>) = user_at c n" "user_at c (enqueue who msg n) = user_at c n"
  "user_at c (n\<lparr>n_mu := a8\<rparr>) = user_at c n" "user_at c (n\<lparr>peers := a9\<rparr>) = user_at c n"
  "user_at c (n\<lparr>peerIDs := b1\<rparr>) = user_at c n" "user_at c (n\<lparr>active_peers := b2\<rparr>) = user_at c n"
  "user_at c (n\<lparr>isLeader := b3\<rparr>) = user_at c n" "user_at c (n\<lparr>leaderID := b4\<rparr>) = user_at c n"
  "user_at c (n\<lparr>remoteUsers := b5\<rparr>) = user_at c n" "user_at c (n\<lparr>messages_total := b6\<rparr>) = user_at c n"
  "user_at c (n\<lparr>ssh_conns := b7\<rparr>) = user_at c n" "user_at c (n\<lparr>ssh_open := b8\<rparr>) = user_at c n"
  "user_at c (n\<lparr>closed_conns := b9\<rparr>) = user_at c n" "user_at c (n\<lparr>connected_clients := c1\<rparr>) = user_at c n"
  "user_at c (n\<lparr>bcast := c2\<rparr>) = user_at c n" "user_at c (n\<lparr>phases := c3\<rparr>) = user_at c n"
  "user_at c (set_phase d p n) = user_at c n" "user_at c (close_conn d n) = user_at c n"
  "user_at c (SendMessage d m n) = user_at c n" "user_at c (InjectMessage e m n) = user_at c n"
  by (simp_all add: user_at_def set_phase_def close_conn_def SendMessage_def InjectMessage_def enqueue_def Let_def)

lemma user_at_sends [simp]: "user_at c (fold (SendMessage d) ms n) = user_at c n"
  by (induction ms arbitrary: n) simp_all

lemma user_at_sent [simp]: "user_at c (sent e k d t n) = user_at c n"
  by (auto simp: user_at_def sent_def split: option.split)

lemma user_at_deliver [simp]: "user_at c (deliver msg n) = user_at c n"
  by (cases "mget (clients n) c") (simp_all add: user_at_def clients_deliver)

lemma user_at_activate: "user_at c (n\<lparr>clients := mput d ((mget_or no_client (clients n') d)\<lparr>ActiveChannel := ch\<rparr>) (clients n')\<rparr>) =
    (if c = d then Some (case user_at d n' of None \<Rightarrow> [] | Some u \<Rightarrow> u) else user_at c n')"
  by (simp add: user_at_def mget_or_def no_client_def split: option.split)

definition same_name :: "nat \<Rightarrow> node \<Rightarrow> node \<Rightarrow> bool" where
  \<comment> \<open>the connection is not registered under another name afterwards, but perhaps under none\<close>
  "same_name c n n' = (user_at c n' = None \<or> user_at c n' = Some [] \<or> user_at c n' = user_at c n)"

interpretation names: message_frame "\<lambda>e. True" "same_name c"
  by unfold_locales (auto simp: same_name_def set_status_def user_at_activate split: option.split)

definition session :: "phase option \<Rightarrow> bool" where
  "session p = (case p of Some (Registering h reg) \<Rightarrow> True | Some (Welcoming u) \<Rightarrow> True | Some ClientLoop \<Rightarrow> True | _ \<Rightarrow> False)"

definition phase_user :: "string \<Rightarrow> phase option \<Rightarrow> bool" where
  \<comment> \<open>a connection that is on its way to a session is so under this name\<close>
  "phase_user u p = (case p of Some (Registering h reg) \<Rightarrow> User reg = u | Some (Welcoming w) \<Rightarrow> w = u | _ \<Rightarrow> True)"

lemma names_kept: "frames (same_name c) n x \<Longrightarrow> user_at c n = user_at c m \<Longrightarrow> frames (same_name c) m x"
  by (cases x) (simp_all add: same_name_def)

lemma names_peer:
  assumes "free n"
  shows "frames (same_name x) n (peer_message L e c msg n)"
proof -
  let ?n = "n\<lparr>peers := mput c (ne_now e) (peers n)\<rparr>"
  have "\<exists>b n'. apply_peer L e c msg ?n = Ret (b, n') \<and> free n' \<and> user_at x n' = user_at x n"
    using assms by (auto simp: apply_peer_def coordinator_def note_remote_def writing_free Let_def
      split: message_type.split option.split)
  with assms show ?thesis by (auto simp: same_name_def peer_message_def writing_free free_unlock broadcastToClients_free)
qed

lemma user_at_pump [simp]: "user_at x (pump c n) = user_at x n"
  by (auto simp: pump_def same_name_def user_at_def SendMessage_def split: option.split list.split)

lemma names_unregister:
  assumes "free n"
  shows "frames (same_name x) n (handle_unregister e c n)"
  using assms by (auto simp: handle_unregister_def wlock_def wunlock_def same_name_def user_at_def enqueue_def Let_def split: option.split)

lemma register_user:
  assumes "free n"
  shows "\<exists>n'. handle_register e c reg n = Ret n' \<and> user_at x n' = (if x = c then Some (User reg) else user_at x n) \<and> phases n' = phases n"
  using assms by (simp add: handle_register_def writing_free same_name_def user_at_def enqueue_def Let_def)

lemma names_step:
  assumes "free n"
  shows "frames (same_name c) n (node_step L e ev n) \<or>
    (\<exists>h reg n'. ev = RegisterEv c \<and> in_phase c (Registering h reg) n \<and> node_step L e ev n = Ret n' \<and> user_at c n' = Some (User reg))"
proof (cases ev)
  case (FirstEv d msg)
  have "frames (same_name c) n (handle_first L e d msg n)"
  proof (cases "handle_first L e d msg n")
    case (Ret n')
    from Ret assms have "user_at c n' = user_at c n" by (cases rule: handle_first_cases) auto
    with Ret show ?thesis by (simp add: same_name_def)
  qed simp_all
  with FirstEv show ?thesis by (simp add: same_name_def)
next
  case (ClientEv d msg)
  then show ?thesis using names.frame_client [OF assms TrueI] by (simp add: same_name_def)
next
  case (SshMsgEv d)
  let ?n = "n\<lparr>ssh_pipe := delete_first (\<lambda>(x, _). x = d) (ssh_pipe n)\<rparr>"
  have "frames (same_name c) n (client_message L e d msg ?n)" for msg
    using names.frame_client [of ?n c L e d msg] assms by (auto intro: names_kept)
  then show ?thesis using SshMsgEv by (auto simp: same_name_def split: option.split)
next
  case (SshEv d u pw)
  then show ?thesis
    by (cases "Auth_Check (lib_argon L) (ne_users e) (ne_now e) (ne_salt e) u pw (n_auth n)")
      (auto simp: same_name_def CheckAuth_def ssh_session_def split: prod.split)
next
  case (SshLineEv d t)
  then show ?thesis
    by (cases "ssh_content L e (sshKey n) t") (auto simp: same_name_def ssh_line_def split: option.split)
next
  case (RegisterEv d)
  show ?thesis
  proof (cases "\<exists>h reg. in_phase d (Registering h reg) n")
    case True
    then obtain h reg where r: "mget (phases n) d = Some (Registering h reg)" by (auto simp: in_phase_def)
    show ?thesis
      using register_user [of "set_phase d (if h then Welcoming (User reg) else ClientLoop) n" e d reg c] assms r RegisterEv
      by (cases h; cases "c = d") (auto simp: in_phase_def same_name_def)
  qed (use RegisterEv in \<open>auto simp: same_name_def in_phase_def split: option.split phase.split\<close>)
next
  case (WelcomeEv d)
  have "frames (same_name c) n (handle_welcome e d u n)" for u
    by (cases "GetRecentMessages 50 (n_storage n)") (auto simp: same_name_def handle_welcome_def Let_def)
  then show ?thesis using WelcomeEv by (auto simp: same_name_def split: option.split phase.split)
next
  case (UnregisterEv d)
  have "frames (same_name c) n (handle_unregister e d (n\<lparr>unreg := remove1 d (unreg n)\<rparr>))"
    by (rule names_kept [OF names_unregister]) (simp_all add: assms)
  then show ?thesis using UnregisterEv by (simp add: same_name_def)
next
  case (PeerEv d m)
  then show ?thesis using names_peer [OF assms] by (simp add: same_name_def)
qed (use assms in \<open>auto simp: same_name_def handle_accept_def reading_free writing_free dial_peer_def peer_end_def monitor_def
    handle_client_end_def wlock_def wunlock_def handle_broadcast_def broadcastToClients_free broadcastToPeers_free
    heartbeat_def election_def ssh_end_def Let_def split: option.split\<close>)

section \<open>The name of a session\<close>

definition belongs :: "nat \<Rightarrow> string \<Rightarrow> node \<Rightarrow> bool" where
  \<comment> \<open>the connection has, or had, a session of the user, and is registered under no other name\<close>
  "belongs c u n =
     ((session (mget (phases n) c) \<or> mget (phases n) c = Some Over) \<and> phase_user u (mget (phases n) c) \<and>
      (user_at c n = None \<or> user_at c n = Some [] \<or> user_at c n = Some u))"

lemma belongs_step:
  assumes "node_inv n" and "belongs c u n" and "node_step L e ev n = Ret n'"
  shows "belongs c u n'"
proof -
  have "life (\<lambda>u. True) (mget (phases n) c) (mget (phases n') c)"
    using moves_step [OF node_inv_free [OF assms(1)], of L e ev c] assms(3) by (auto elim: life_mono simp del: node_step.simps)
  then have "(session (mget (phases n') c) \<or> mget (phases n') c = Some Over) \<and> phase_user u (mget (phases n') c)"
    using assms(2) by (cases rule: life.cases) (auto simp: belongs_def session_def phase_user_def)
  moreover have "user_at c n' = None \<or> user_at c n' = Some [] \<or> user_at c n' = Some u"
    using names_step [OF node_inv_free [OF assms(1)], of c L e ev] assms(2,3)
    by (auto simp: belongs_def in_phase_def phase_user_def same_name_def simp del: node_step.simps)
  ultimately show ?thesis by (simp add: belongs_def)
qed

interpretation belonging: run_frame "belongs c u" "\<lambda>n n'. True"
  by unfold_locales (blast intro: belongs_step)+

lemma session_start:
  assumes "node_inv n" and "\<not> session (mget (phases n) c)" and "node_step L e ev n = Ret n'" and "session (mget (phases n') c)"
  shows "\<exists>u. admits L e ev c u n \<and> belongs c u n'"
proof -
  have "life (\<lambda>u. admits L e ev c u n) (mget (phases n) c) (mget (phases n') c)"
    using moves_step [OF node_inv_free [OF assms(1)], of L e ev c] assms(3) by (simp del: node_step.simps)
  then obtain h reg where reg: "mget (phases n') c = Some (Registering h reg)" "admits L e ev c (User reg) n"
      "unclaimed (mget (phases n) c)"
    using assms(2,4) by (cases rule: life.cases) (auto simp: session_def unclaimed_def)
  then have "user_at c n = None" using assms(1) by (auto simp: node_inv_def conns_ok_def user_at_def)
  then have "user_at c n' = None \<or> user_at c n' = Some []"
    using names_step [OF node_inv_free [OF assms(1)], of c L e ev] assms(2,3)
    by (auto simp: in_phase_def session_def same_name_def simp del: node_step.simps)
  with reg show ?thesis by (auto simp: belongs_def session_def phase_user_def)
qed

lemma session_origin:
  "node_inv n \<Longrightarrow> \<not> session (mget (phases n) c) \<Longrightarrow> node_run L evs n = Ret n' \<Longrightarrow> session (mget (phases n') c) \<Longrightarrow>
    \<exists>pre e ev post n1 u. evs = pre @ (e, ev) # post \<and> node_run L pre n = Ret n1 \<and> admits L e ev c u n1 \<and> belongs c u n'"
proof (induction evs arbitrary: n)
  case (Cons x evs)
  obtain e ev where x: "x = (e, ev)" by (cases x)
  from Cons.prems(3) obtain n1 where n1: "node_step L e ev n = Ret n1" "node_run L evs n1 = Ret n'"
    by (auto simp: x obind_Ret_iff simp del: node_step.simps)
  have inv: "node_inv n1" using node_inv_step [OF Cons.prems(1), of L e ev] n1(1) by simp
  show ?case
  proof (cases "session (mget (phases n1) c)")
    case True
    then obtain u where "admits L e ev c u n" "belongs c u n1" using session_start [OF Cons.prems(1,2) n1(1)] by blast
    moreover have "belongs c u n'" using belonging.frame_run [OF inv] \<open>belongs c u n1\<close> n1(2) by blast
    moreover have "x # evs = [] @ (e, ev) # evs" "node_run L [] n = Ret n" by (simp_all add: x)
    ultimately show ?thesis by blast
  next
    case False
    from Cons.IH [OF inv False n1(2) Cons.prems(4)] obtain pre e' ev' post m u where
      m: "evs = pre @ (e', ev') # post" "node_run L pre n1 = Ret m" "admits L e' ev' c u m" "belongs c u n'" by blast
    have "x # evs = ((e, ev) # pre) @ (e', ev') # post" "node_run L ((e, ev) # pre) n = Ret m"
      using m n1(1) by (simp_all add: x del: node_step.simps)
    with m show ?thesis by blast
  qed
qed simp

text \<open>
  C12. The life of a connection. Every step of the node, whatever the environment answers, moves every connection
  along the state machine \<open>life\<close>, or leaves it where it is: it is greeted, refused or dialled; from the greeting it
  becomes a peer, logs in or is turned away; who logged in joins, is welcomed, and is then a client until it hangs
  up; a peer stays a peer until it is gone. A connection that is over stays so. So in no run does a peer become a
  client, or the other way round, and nobody logs in twice on one connection.
\<close>

theorem connection_lifecycle:
  assumes "node_inv n" and "node_run L evs n = Ret n'"
  shows "(life (\<lambda>u. True))\<^sup>*\<^sup>* (mget (phases n) c) (mget (phases n') c) \<and>
    (mget (phases n) c = Some Over \<longrightarrow> mget (phases n') c = Some Over) \<and>
    (mget (phases n) c = Some PeerLoop \<longrightarrow> \<not> session (mget (phases n') c)) \<and>
    (session (mget (phases n) c) \<longrightarrow> mget (phases n') c \<noteq> Some PeerLoop)"
proof -
  let ?p = "mget (phases n) c" and ?q = "mget (phases n') c"
  have run: "(life (\<lambda>u. True))\<^sup>*\<^sup>* ?p ?q" using lives.frame_run [OF assms(1) TrueI assms(2)] by blast
  moreover have "q = Some PeerLoop \<or> q = Some Over" if "(life A)\<^sup>*\<^sup>* p q" "p = Some PeerLoop \<or> p = Some Over" for A p q
    using that by (induction rule: rtranclp_induct) (auto elim: life.cases)
  moreover have "session q \<or> q = Some Over" if "(life A)\<^sup>*\<^sup>* p q" "session p \<or> p = Some Over" for A p q
    using that by (induction rule: rtranclp_induct) (auto simp: session_def elim: life.cases)
  ultimately show ?thesis using life_final by (fastforce simp: session_def)
qed

theorem connection_lifecycle_witness:
  "\<exists>n'. node_run demo_lib [(demo_env, ClientEndEv 1), (demo_env, UnregisterEv 1)] demo_node = Ret n' \<and>
     (life (\<lambda>u. True))\<^sup>*\<^sup>* (Some ClientLoop) (mget (phases n') 1)"
proof -
  let ?evs = "[(demo_env, ClientEndEv 1), (demo_env, UnregisterEv 1)]"
  obtain n' where "node_run demo_lib ?evs demo_node = Ret n'"
    by (simp add: in_phase_def waiting_def handle_client_end_def set_phase_def handle_unregister_def wlock_def)
  with connection_lifecycle [OF node_inv_demo this, of 1] show ?thesis by auto
qed

text \<open>
  C3. Nobody has a session without a login. If a connection that had none has one at the end of a run, then at some
  point of the run there arrived on it, over TCP or SSH, a login with a name and a password that the authenticator
  accepted at that point; and ever since, the connection is registered under no other name, so whatever it sends
  goes out under the name of that login (or without a name).
\<close>

theorem login_required:
  assumes "node_inv n" and "\<not> session (mget (phases n) c)" and "node_run L evs n = Ret n'"
    and "session (mget (phases n') c)"
  shows "\<exists>pre e ev post n1 u p a. evs = pre @ (e, ev) # post \<and> node_run L pre n = Ret n1 \<and>
    (ev = SshEv c u p \<or>
     (\<exists>msg. ev = FirstEv c msg \<and> Type msg = MsgTypeLogin \<and> ParseCredentials (Content msg) = (u, p))) \<and>
    Auth_Check (lib_argon L) (ne_users e) (ne_now e) (ne_salt e) u p (n_auth n1) = Ret (a, True) \<and>
    (sender_of c n' = [] \<or> sender_of c n' = u)"
proof -
  obtain pre e ev post n1 u where *: "evs = pre @ (e, ev) # post" "node_run L pre n = Ret n1" "admits L e ev c u n1" "belongs c u n'"
    using session_origin [OF assms] by blast
  have "\<exists>p a. (ev = SshEv c u p \<or>
      (\<exists>msg. ev = FirstEv c msg \<and> Type msg = MsgTypeLogin \<and> ParseCredentials (Content msg) = (u, p))) \<and>
    Auth_Check (lib_argon L) (ne_users e) (ne_now e) (ne_salt e) u p (n_auth n1) = Ret (a, True)"
    using *(3) by (auto simp: admits_def checks_def split: event.splits prod.splits outcome.splits)
  moreover have "sender_of c n' = [] \<or> sender_of c n' = u"
    using *(4) by (auto simp: belongs_def user_at_def sender_of_def mget_or_def no_client_def split: option.splits)
  ultimately show ?thesis using * by blast
qed

section \<open>The steps up to a session\<close>

lemma accept_step:
  assumes "free n" and "mget (phases n) c = None" and "length (clients n) + length (peers n) < 550"
  shows "node_step L e (AcceptEv c) n = Ret (set_phase c Greeting n)"
  using assms by (simp add: handle_accept_def reading_free MaxClients_def MaxPeers_def)

lemma register_step:
  assumes "in_phase c Greeting n" and "Type msg = MsgTypeRegister" and "ParseCredentials (Content msg) = (u, p)"
    and "Auth_Register (lib_argon L) (ne_users e) (ne_now e) (ne_salt e) u p (n_auth n) = Ret (a, ok)"
  shows "node_step L e (FirstEv c msg) n =
    Ret (close_conn c (SendMessage c (auth_result (if ok then ''OK_REGISTERED'' else ''FAIL_EXISTS'')) (n\<lparr>n_auth := a\<rparr>)))"
  using assms by (simp add: handle_first_def Let_def)

lemma login_step:
  assumes "in_phase c Greeting n" and "Type msg = MsgTypeLogin" and "ParseCredentials (Content msg) = (u, p)"
    and "Auth_Check (lib_argon L) (ne_users e) (ne_now e) (ne_salt e) u p (n_auth n) = Ret (a, ok)"
  shows "node_step L e (FirstEv c msg) n =
    Ret (if ok
      then set_phase c (Registering True \<lparr>User = u, Send = Some [], ActiveChannel = ''general''\<rparr>)
             (SendMessage c (auth_result ''OK'') (n\<lparr>n_auth := a\<rparr>))
      else close_conn c (SendMessage c (auth_result ''FAIL'') (n\<lparr>n_auth := a\<rparr>)))"
  using assms by (simp add: handle_first_def Let_def)

text \<open>A new user registers on connection 4 of the example server, and logs in on connection 5.\<close>

definition demo_joining :: "(node_env \<times> event) list" where
  "demo_joining =
     [(demo_env, AcceptEv 4), (demo_env, FirstEv 4 (no_message\<lparr>Type := MsgTypeRegister, Content := ''carol:pass''\<rparr>)),
      (demo_env, SshEv 5 ''carol'' ''pass''), (demo_env, RegisterEv 5)]"

lemma demo_joins:
  "\<exists>n'. node_run demo_lib demo_joining demo_node = Ret n' \<and> mget (phases n') 5 = Some ClientLoop \<and> sender_of 5 n' = ''carol''"
proof -
  let ?reg = "no_message\<lparr>Type := MsgTypeRegister, Content := ''carol:pass''\<rparr>"
  let ?n1 = "set_phase 4 Greeting demo_node"
  have env: "ne_salt demo_env = Some ''0123456789abcdef''" by (simp add: demo_env_def)
  obtain a where a: "Auth_Register toy_argon2 (ne_users demo_env) zero_time (ne_salt demo_env) ''carol'' ''pass'' demo_auth = Ret (a, True)"
    and f: "failedAttempts a = []"
    by (simp add: Auth_Register_def ValidateUsername_def username_char_def mhas_def HashPassword_def demo_auth_def env
        toy_argon2_def ArgonTime_def ArgonThreads_def Let_def)
  have "\<not> is_locked zero_time ''carol'' a" using f by (simp add: is_locked_def)
  with registered_user_gets_in [OF toy_argon2_ok a [unfolded env]] obtain b where
    b: "Auth_Check toy_argon2 (ne_users demo_env) zero_time (ne_salt demo_env) ''carol'' ''pass'' a = Ret (b, True)" by blast
  have 1: "node_step demo_lib demo_env (AcceptEv 4) demo_node = Ret ?n1"
    by (rule accept_step) (simp_all add: demo_node_def)
  have 2: "node_step demo_lib demo_env (FirstEv 4 ?reg) ?n1 =
      Ret (close_conn 4 (SendMessage 4 (auth_result ''OK_REGISTERED'') (?n1\<lparr>n_auth := a\<rparr>)))" (is "_ = Ret ?n2")
    using register_step [of 4 ?n1 ?reg "''carol''" "''pass''" demo_lib demo_env a True] a
    by (simp add: in_phase_def set_phase_def ParseCredentials_def SplitN2_def)
  have 3: "node_step demo_lib demo_env (SshEv 5 ''carol'' ''pass'') ?n2 = Ret (ssh_session demo_env 5 ''carol'' (?n2\<lparr>n_auth := b\<rparr>))"
    (is "_ = Ret ?n3")
    using b by (simp add: CheckAuth_def close_conn_def set_phase_def SendMessage_def)
  have "free ?n3" by (simp add: ssh_session_def set_phase_def close_conn_def SendMessage_def)
  then have "\<exists>n4. node_step demo_lib demo_env (RegisterEv 5) ?n3 = Ret n4 \<and> mget (phases n4) 5 = Some ClientLoop \<and> sender_of 5 n4 = ''carol''"
    by (simp add: ssh_session_def set_phase_def handle_register_def writing_free enqueue_def sender_of_def mget_or_def Let_def)
  then show ?thesis using 1 2 3 by (auto simp: demo_joining_def simp del: node_step.simps)
qed

theorem login_required_witness:
  "\<exists>n' pre e ev post u. node_run demo_lib demo_joining demo_node = Ret n' \<and> demo_joining = pre @ (e, ev) # post \<and>
     (\<exists>p. ev = SshEv 5 u p \<or> (\<exists>msg. ev = FirstEv 5 msg \<and> ParseCredentials (Content msg) = (u, p))) \<and> sender_of 5 n' = u"
proof -
  obtain n' where n': "node_run demo_lib demo_joining demo_node = Ret n'" "mget (phases n') 5 = Some ClientLoop"
    "sender_of 5 n' = ''carol''" using demo_joins by blast
  have "\<not> session (mget (phases demo_node) 5)" "session (mget (phases n') 5)" using n' by (simp_all add: session_def)
  from login_required [OF node_inv_demo this(1) n'(1) this(2)] n'(1,3) show ?thesis by auto blast+
qed

end
