(* ===== verification/Metrics.thy ===== *)
theory Metrics
  imports NodeLife
begin

text \<open>
  \<open>internal/metrics/metrics.go\<close>: the metrics the server registers with the Prometheus library, what is reported of
  them in a state of the node, and that what is reported is right. The metrics the node keeps are the fields
  \<open>connected_clients\<close>, \<open>messages_total\<close> and \<open>active_peers\<close> of its state; the code changes no other.
\<close>

section \<open>The metrics\<close>

datatype metric_kind = Gauge | Counter

record metric =
  m_kind :: metric_kind
  m_name :: string
  m_help :: string

definition ConnectedClients :: metric where
  "ConnectedClients =
     \<lparr>m_kind = Gauge, m_name = ''chat_connected_clients'',
      m_help = ''The total number of currently connected chat clients''\<rparr>"

definition MessagesTotal :: metric where
  "MessagesTotal =
     \<lparr>m_kind = Counter, m_name = ''chat_messages_total'', m_help = ''The total number of processed chat messages''\<rparr>"

definition ActivePeers :: metric where
  "ActivePeers =
     \<lparr>m_kind = Gauge, m_name = ''chat_active_peers'', m_help = ''The number of active peer connections in the mesh''\<rparr>"

definition ChannelsTotal :: metric where
  "ChannelsTotal = \<lparr>m_kind = Gauge, m_name = ''chat_channels_total'', m_help = ''The total number of chat channels''\<rparr>"

definition DirectMessagesTotal :: metric where
  "DirectMessagesTotal =
     \<lparr>m_kind = Counter, m_name = ''chat_direct_messages_total'', m_help = ''The total number of direct messages sent''\<rparr>"

definition APIRequestsTotal :: metric where
  "APIRequestsTotal =
     \<lparr>m_kind = Counter, m_name = ''chat_api_requests_total'', m_help = ''The total number of REST API requests''\<rparr>"

definition metrics :: "metric list" where
  \<comment> \<open>in the order they are registered\<close>
  "metrics = [ConnectedClients, MessagesTotal, ActivePeers, ChannelsTotal, DirectMessagesTotal, APIRequestsTotal]"

lemma metrics_distinct: "distinct (map m_name metrics)"
  by (simp add: metrics_def ConnectedClients_def MessagesTotal_def ActivePeers_def ChannelsTotal_def
      DirectMessagesTotal_def APIRequestsTotal_def)

definition metric_value :: "node \<Rightarrow> metric \<Rightarrow> int" where
  \<comment> \<open>what is reported for a metric; one that nothing changes is 0\<close>
  "metric_value n m =
     (if m = ConnectedClients then connected_clients n
      else if m = MessagesTotal then messages_total n
      else if m = ActivePeers then active_peers n
      else 0)"

section \<open>The peers\<close>

definition loops :: "(nat, phase) gomap \<Rightarrow> nat" where
  \<comment> \<open>the running calls of \<open>handlePeerMessage\<close>\<close>
  "loops ps = length (filter (\<lambda>p. snd p = PeerLoop) ps)"

lemma loops_put:
  "int (loops (mput c p m)) =
     int (loops m) - (if mget m c = Some PeerLoop then 1 else 0) + (if p = PeerLoop then 1 else 0)"
  by (induction m) (auto simp: loops_def)

definition same_meters :: "node \<Rightarrow> node \<Rightarrow> bool" where
  "same_meters n n' = (phases n' = phases n \<and> active_peers n' = active_peers n \<and> messages_total n' = messages_total n)"

lemma meters_sent [simp]:
  "active_peers (sent e k c t n) = active_peers n" "messages_total (sent e k c t n) = messages_total n"
  "active_peers (deliver msg n) = active_peers n" "messages_total (deliver msg n) = messages_total n"
  "active_peers (enqueue w msg n) = active_peers n" "messages_total (enqueue w msg n) = messages_total n"
  "active_peers (SendMessage c msg n) = active_peers n" "messages_total (SendMessage c msg n) = messages_total n"
  by (simp_all add: sent_def deliver_def enqueue_def SendMessage_def split: option.split)

interpretation meters: message_frame "\<lambda>e. True" same_meters
  by unfold_locales (simp_all add: same_meters_def set_status_def)

definition drift :: "node \<Rightarrow> int" where
  "drift n = active_peers n - int (loops (phases n))"

lemma drift_phase: "mget (phases n) c \<noteq> Some PeerLoop \<Longrightarrow> p \<noteq> PeerLoop \<Longrightarrow> drift (set_phase c p n) = drift n"
  by (simp add: drift_def set_phase_def loops_put)

lemma drift_close: "mget (phases n) c \<noteq> Some PeerLoop \<Longrightarrow> drift (close_conn c n) = drift n"
  using drift_phase [of "n\<lparr>closed_conns := c # closed_conns n\<rparr>" c Over]
  by (simp add: close_conn_def drift_def)

lemma total_phase [simp]:
  "messages_total (set_phase c p n) = messages_total n" "messages_total (close_conn c n) = messages_total n"
  by (simp_all add: set_phase_def close_conn_def)

definition takes :: "event \<Rightarrow> node \<Rightarrow> bool" where
  \<comment> \<open>the event loop receives a message from \<open>n.broadcast\<close>\<close>
  "takes ev n = (case ev of BroadcastEv i \<Rightarrow> i < length (bcast n) | _ \<Rightarrow> False)"

definition metered :: "event \<Rightarrow> node \<Rightarrow> node \<Rightarrow> bool" where
  "metered ev n n' = (drift n' = drift n \<and> messages_total n' = messages_total n + (if takes ev n then 1 else 0))"

lemma metered_same: "frames same_meters n x \<Longrightarrow> \<not> takes ev n \<Longrightarrow> frames (metered ev) n x"
  by (erule frames_mono) (simp add: metered_def same_meters_def drift_def)

lemma drift_frame [simp]:
  "drift (n\<lparr>n_auth := a\<rparr>) = drift n" "drift (SendMessage c msg n) = drift n" "drift (n\<lparr>n_mu := m\<rparr>) = drift n"
  "drift (deliver msg n) = drift n" "drift (enqueue w msg n) = drift n" "drift (n\<lparr>clients := cs\<rparr>) = drift n"
  "drift (n\<lparr>unreg := us\<rparr>) = drift n" "drift (n\<lparr>ssh_pipe := q\<rparr>) = drift n" "drift (n\<lparr>n_channels := cm\<rparr>) = drift n"
  "drift (n\<lparr>peers := ps\<rparr>) = drift n" "drift (n\<lparr>peerIDs := is\<rparr>) = drift n" "drift (n\<lparr>outbox := ob\<rparr>) = drift n"
  "drift (n\<lparr>closed_conns := cc\<rparr>) = drift n" "drift (n\<lparr>n_storage := s\<rparr>) = drift n" "drift (n\<lparr>isLeader := b\<rparr>) = drift n"
  "drift (n\<lparr>leaderID := i\<rparr>) = drift n" "drift (n\<lparr>n_limiter := l\<rparr>) = drift n" "drift (n\<lparr>connected_clients := k\<rparr>) = drift n"
  "drift (n\<lparr>bcast := bs\<rparr>) = drift n" "drift (n\<lparr>messages_total := k\<rparr>) = drift n" "drift (n\<lparr>remoteUsers := ru\<rparr>) = drift n"
  "drift (n\<lparr>ssh_conns := sc\<rparr>) = drift n" "drift (n\<lparr>ssh_open := so\<rparr>) = drift n"
  by (simp_all add: drift_def enqueue_def SendMessage_def)

lemma meters_sends [simp]:
  "drift (fold (SendMessage c) ms n) = drift n" "messages_total (fold (SendMessage c) ms n) = messages_total n"
  by (induction ms arbitrary: n) simp_all

lemma metered_first:
  assumes "free n" and "in_phase d Greeting n"
  shows "frames (metered (FirstEv d msg)) n (handle_first L e d msg n)"
proof (cases "handle_first L e d msg n")
  case (Ret n')
  have "mget (phases n) d = Some Greeting" using assms(2) by (simp add: in_phase_def)
  with Ret assms(1) have "metered (FirstEv d msg) n n'"
    by (cases rule: handle_first_cases)
      (auto simp: metered_def takes_def drift_phase drift_close drift_def set_phase_def SendMessage_def loops_put close_conn_def)
  with Ret show ?thesis by simp
qed simp_all

lemma metered_peer:
  assumes "free n"
  shows "frames (metered (PeerEv c msg)) n (peer_message L e c msg n)"
proof -
  have "\<exists>b n'. apply_peer L e c msg (n\<lparr>peers := mput c (ne_now e) (peers n)\<rparr>) = Ret (b, n') \<and> free n' \<and>
      drift n' = drift n \<and> messages_total n' = messages_total n"
    using assms by (auto simp: apply_peer_def coordinator_def note_remote_def writing_free Let_def
        split: message_type.split option.split)
  with assms show ?thesis
    by (auto simp: peer_message_def writing_free free_unlock broadcastToClients_free metered_def takes_def)
qed

lemma metered_step:
  assumes "free n"
  shows "frames (metered ev) n (node_step L e ev n)"
proof (cases ev)
  case (ClientEv d msg)
  then show ?thesis
    using metered_same [OF meters.frame_client [OF assms TrueI], of ev] by (simp add: metered_def takes_def)
next
  case (FirstEv d msg)
  then show ?thesis using metered_first [OF assms] by (simp add: metered_def takes_def)
next
  case (SshMsgEv d)
  let ?n = "n\<lparr>ssh_pipe := delete_first (\<lambda>(x, _). x = d) (ssh_pipe n)\<rparr>"
  have "frames (metered ev) n (client_message L e d msg ?n)" for msg
    using meters.frame_client [of ?n L e d msg] assms SshMsgEv
    by (cases "client_message L e d msg ?n") (simp_all add: metered_def same_meters_def drift_def takes_def)
  then show ?thesis using SshMsgEv by (auto simp: metered_def takes_def split: option.split)
next
  case (SshEv d u pw)
  have "frames (metered ev) n (obind (CheckAuth L e u pw n) (\<lambda>(ok, n). Ret (if ok then ssh_session e d u n else n)))"
    if "mget (phases n) d = None"
    using that SshEv by (cases "Auth_Check (lib_argon L) (ne_users e) (ne_now e) (ne_salt e) u pw (n_auth n)")
      (auto simp: CheckAuth_def ssh_session_def metered_def takes_def drift_phase split: prod.split)
  then show ?thesis using SshEv by (simp add: metered_def takes_def)
next
  case (SshLineEv d t)
  then show ?thesis
    by (cases "ssh_content L e (sshKey n) t") (auto simp: ssh_line_def metered_def takes_def split: option.split)
next
  case (WelcomeEv d)
  have "frames (metered ev) n (handle_welcome e d u n)" if "mget (phases n) d = Some (Welcoming u)" for u
    using that WelcomeEv by (cases "GetRecentMessages 50 (n_storage n)")
      (auto simp: handle_welcome_def Let_def metered_def takes_def drift_phase)
  then show ?thesis using WelcomeEv by (auto simp: metered_def takes_def split: option.split phase.split)
next
  case (PumpEv d)
  then show ?thesis by (simp add: pump_def metered_def takes_def split: option.split list.split)
next
  case (RegisterEv d)
  then show ?thesis using assms
    by (auto simp: handle_register_def writing_free metered_def takes_def drift_phase Let_def split: option.split phase.split)
next
  case (PeerEv d m)
  then show ?thesis using metered_peer [OF assms] by (simp add: metered_def takes_def)
next
  case (DialEv d)
  then show ?thesis using assms
    by (simp add: dial_peer_def writing_free metered_def takes_def drift_def set_phase_def SendMessage_def loops_put)
next
  case (PeerEndEv d)
  then show ?thesis using assms
    by (simp add: peer_end_def writing_free metered_def takes_def drift_def close_conn_def set_phase_def loops_put in_phase_def)
qed (use assms in \<open>auto simp: metered_def takes_def handle_accept_def reading_free writing_free dial_peer_def peer_end_def
    monitor_def handle_client_end_def handle_unregister_def wlock_def wunlock_def handle_broadcast_def broadcastToClients_free
    broadcastToPeers_free heartbeat_def election_def InjectMessage_def ssh_end_def in_phase_def drift_phase drift_close Let_def
    split: option.split\<close>)

section \<open>What is reported\<close>

fun taken :: "node_lib \<Rightarrow> (node_env \<times> event) list \<Rightarrow> node \<Rightarrow> int" where
  \<comment> \<open>how many messages the event loop receives in a run\<close>
  "taken L [] n = 0"
| "taken L ((e, ev) # evs) n =
     (if takes ev n then 1 else 0) + (case node_step L e ev n of Ret n' \<Rightarrow> taken L evs n' | _ \<Rightarrow> 0)"

lemma metered_run:
  "node_inv n \<Longrightarrow> node_run L evs n = Ret n' \<Longrightarrow> drift n' = drift n \<and> messages_total n' = messages_total n + taken L evs n"
proof (induction evs arbitrary: n)
  case (Cons x evs)
  obtain e ev where x: "x = (e, ev)" by (cases x)
  from Cons.prems(2) obtain n1 where n1: "node_step L e ev n = Ret n1" "node_run L evs n1 = Ret n'"
    by (auto simp: x obind_Ret_iff simp del: node_step.simps)
  have "node_inv n1" using node_inv_step [OF Cons.prems(1), of L e ev] n1(1) by simp
  moreover have "metered ev n n1"
    using metered_step [OF node_inv_free [OF Cons.prems(1)], of ev L e] n1(1) by simp
  ultimately show ?case using Cons.IH n1 by (simp add: x metered_def del: node_step.simps)
qed simp

text \<open>
  C22. The metrics of the node are right. In every state a run reaches from one where that is so: the gauge of connected
  clients is the number of clients that have a queue, the gauge of active peers is the number of connections whose
  peer loop runs (a peer the monitor dropped counts until its loop ends), and the counter of messages grows by exactly
  one for each message the event loop received.
\<close>

theorem metrics_right:
  assumes "node_inv n" and "active_peers n = int (length (filter (\<lambda>p. snd p = PeerLoop) (phases n)))" and "node_run L evs n = Ret n'"
  shows "metric_value n' ConnectedClients = int (length (filter (\<lambda>p. Send (snd p) \<noteq> None) (clients n'))) \<and>
    metric_value n' ActivePeers = int (length (filter (\<lambda>p. snd p = PeerLoop) (phases n'))) \<and>
    metric_value n' MessagesTotal = metric_value n MessagesTotal + taken L evs n"
proof -
  have "node_inv n'" using node_machine.orun_invar [OF assms(1)] assms(3) unfolding node_run_def by blast
  then have "connected_clients n' = int (live (clients n'))" by (simp add: node_inv_def)
  with metered_run [OF assms(1,3)] assms(2) show ?thesis
    by (simp add: metric_value_def drift_def loops_def live_def split_beta ConnectedClients_def MessagesTotal_def ActivePeers_def)
qed

theorem metrics_right_witness:
  "\<exists>n'. node_run demo_lib [(demo_env, DialEv 7), (demo_env, InjectEv (says ''hi'')), (demo_env, BroadcastEv 0)] demo_node = Ret n' \<and>
     metric_value n' ConnectedClients = int (length (filter (\<lambda>p. Send (snd p) \<noteq> None) (clients n'))) \<and>
     metric_value n' MessagesTotal = 1"
proof -
  let ?evs = "[(demo_env, DialEv 7), (demo_env, InjectEv (says ''hi'')), (demo_env, BroadcastEv 0)]"
  obtain n1 where 1: "node_step demo_lib demo_env (DialEv 7) demo_node = Ret n1" "free n1" "bcast n1 = []"
    by (simp add: dial_peer_def writing_free set_phase_def SendMessage_def)
  let ?n2 = "InjectMessage demo_env (says ''hi'') n1"
  obtain m where m: "bcast ?n2 = [(None, m)]" "free ?n2" using 1(2,3) by (simp add: InjectMessage_def Let_def)
  obtain n' where 3: "node_step demo_lib demo_env (BroadcastEv 0) ?n2 = Ret n'"
    using broadcast_effect [of "?n2\<lparr>bcast := []\<rparr>" demo_env m] m by auto
  have run: "node_run demo_lib ?evs demo_node = Ret n'" using 1(1) 3 by (simp del: node_step.simps add: node_step.simps(23))
  have "taken demo_lib ?evs demo_node = 1" using 1(1) 3 m(1) by (simp add: takes_def del: node_step.simps add: node_step.simps(23))
  moreover have "active_peers demo_node = int (length (filter (\<lambda>p. snd p = PeerLoop) (phases demo_node)))" "messages_total demo_node = 0"
    by (simp_all add: demo_node_def loops_def)
  ultimately show ?thesis using metrics_right [OF node_inv_demo _ run] run
    by (simp add: metric_value_def ConnectedClients_def MessagesTotal_def ActivePeers_def)
qed

end
