(* ===== verification/NodeQueue.thy ===== *)
theory NodeQueue
  imports NodeLife "HOL-Library.Sublist"
begin

text \<open>
  The queue between the event loop and a client's connection: what is put into it is written to the connection in the
  order it was put in, nothing is lost or repeated, and nothing is written in between, as long as the client stays
  registered.
\<close>

definition said :: "nat \<Rightarrow> node \<Rightarrow> wire_msg list" where
  \<comment> \<open>what was written to the connection\<close>
  "said c n = map snd (filter (\<lambda>p. fst p = c) (outbox n))"

definition queue_of :: "nat \<Rightarrow> node \<Rightarrow> wire_msg list option" where
  "queue_of c n = (case mget (clients n) c of Some cl \<Rightarrow> Send cl | None \<Rightarrow> None)"

definition ordered :: "nat \<Rightarrow> node \<Rightarrow> node \<Rightarrow> bool" where
  "ordered c n n' =
     (case queue_of c n' of
        None \<Rightarrow> True
      | Some q' \<Rightarrow> (case queue_of c n of None \<Rightarrow> False | Some q \<Rightarrow> prefix (said c n) (said c n') \<and> prefix (said c n @ q) (said c n' @ q')))"

lemma ordered_refl [simp]: "ordered c n n"
  by (simp add: ordered_def split: option.split)

lemma ordered_trans: "ordered c n m \<Longrightarrow> ordered c m k \<Longrightarrow> ordered c n k"
  by (auto simp: ordered_def split: option.splits dest: prefix_order.trans)

lemma ordered_same: "said c n' = said c n \<Longrightarrow> queue_of c n' = queue_of c n \<Longrightarrow> ordered c n n'"
  by (simp add: ordered_def split: option.split)

lemma ordered_gone: "queue_of c n' = None \<Longrightarrow> ordered c n n'"
  by (simp add: ordered_def)

lemma ordered_more: "said c n' = said c n \<Longrightarrow> queue_of c n = Some q \<Longrightarrow> queue_of c n' = Some (q @ r) \<Longrightarrow> ordered c n n'"
  by (simp add: ordered_def)

lemma said_frame [simp]:
  "said c (n\<lparr>clients := x1\<rparr>) = said c n" "said c (n\<lparr>n_auth := x2\<rparr>) = said c n" "said c (n\<lparr>n_channels := x3\<rparr>) = said c n"
  "said c (n\<lparr>n_storage := x4\<rparr>) = said c n" "said c (n\<lparr>n_limiter := x5\<rparr>) = said c n" "said c (n\<lparr>bcast := x6\<rparr>) = said c n"
  "said c (n\<lparr>n_mu := x7\<rparr>) = said c n" "said c (n\<lparr>peers := x8\<rparr>) = said c n" "said c (n\<lparr>peerIDs := x9\<rparr>) = said c n"
  "said c (n\<lparr>phases := y1\<rparr>) = said c n" "said c (n\<lparr>unreg := y2\<rparr>) = said c n" "said c (n\<lparr>ssh_pipe := y3\<rparr>) = said c n"
  "said c (n\<lparr>active_peers := y4\<rparr>) = said c n" "said c (n\<lparr>closed_conns := y5\<rparr>) = said c n"
  "said c (n\<lparr>messages_total := z1\<rparr>) = said c n" "said c (n\<lparr>isLeader := z2\<rparr>) = said c n" "said c (n\<lparr>leaderID := z3\<rparr>) = said c n"
  "said c (n\<lparr>connected_clients := z4\<rparr>) = said c n" "said c (n\<lparr>ssh_open := z5\<rparr>) = said c n" "said c (n\<lparr>ssh_conns := z6\<rparr>) = said c n"
  "said c (enqueue w m n) = said c n" "said c (sent e k d t n) = said c n" "said c (deliver m n) = said c n"
  "said c (set_phase d p n) = said c n" "said c (close_conn d n) = said c n"
  "d \<noteq> c \<Longrightarrow> said c (SendMessage d m n) = said c n"
  by (simp_all add: said_def enqueue_def set_phase_def close_conn_def SendMessage_def)

lemma queue_frame [simp]:
  "queue_of c (n\<lparr>n_auth := x2\<rparr>) = queue_of c n" "queue_of c (n\<lparr>n_channels := x3\<rparr>) = queue_of c n"
  "queue_of c (n\<lparr>n_storage := x4\<rparr>) = queue_of c n" "queue_of c (n\<lparr>n_limiter := x5\<rparr>) = queue_of c n"
  "queue_of c (n\<lparr>bcast := x6\<rparr>) = queue_of c n" "queue_of c (n\<lparr>n_mu := x7\<rparr>) = queue_of c n"
  "queue_of c (n\<lparr>peers := x8\<rparr>) = queue_of c n" "queue_of c (n\<lparr>peerIDs := x9\<rparr>) = queue_of c n"
  "queue_of c (n\<lparr>phases := y1\<rparr>) = queue_of c n" "queue_of c (n\<lparr>unreg := y2\<rparr>) = queue_of c n"
  "queue_of c (n\<lparr>ssh_pipe := y3\<rparr>) = queue_of c n" "queue_of c (n\<lparr>active_peers := y4\<rparr>) = queue_of c n"
  "queue_of c (n\<lparr>closed_conns := y5\<rparr>) = queue_of c n" "queue_of c (n\<lparr>outbox := y6\<rparr>) = queue_of c n"
  "queue_of c (n\<lparr>messages_total := z1\<rparr>) = queue_of c n" "queue_of c (n\<lparr>isLeader := z2\<rparr>) = queue_of c n"
  "queue_of c (n\<lparr>leaderID := z3\<rparr>) = queue_of c n" "queue_of c (n\<lparr>connected_clients := z4\<rparr>) = queue_of c n"
  "queue_of c (n\<lparr>ssh_open := z5\<rparr>) = queue_of c n" "queue_of c (n\<lparr>ssh_conns := z6\<rparr>) = queue_of c n"
  "queue_of c (enqueue w m n) = queue_of c n" "queue_of c (set_phase d p n) = queue_of c n"
  "queue_of c (close_conn d n) = queue_of c n" "queue_of c (SendMessage d m n) = queue_of c n"
  by (simp_all add: queue_of_def enqueue_def set_phase_def close_conn_def SendMessage_def)

lemma offer_queue: "Send cl = None \<and> Send (offer m cl) = None \<or> (\<exists>q r. Send cl = Some q \<and> Send (offer m cl) = Some (q @ r))"
  by (auto simp: offer_def split: option.split intro: exI [of _ "[]"])

lemma offer_None [simp]: "Send cl = None \<Longrightarrow> offer m cl = cl"
  by (simp add: offer_def)

lemma ordered_sent: "ordered c n (sent e k d t n)"
proof (cases "mget (clients n) d")
  case (Some cl)
  then show ?thesis using offer_queue [of cl "server_msg e k t"]
    by (cases "d = c") (auto simp: sent_def ordered_def queue_of_def split: option.split)
qed (simp add: sent_def)

lemma ordered_deliver: "ordered c n (deliver msg n)"
proof (cases "mget (clients n) c")
  case (Some cl)
  then show ?thesis using offer_queue [of cl msg]
    by (auto simp: clients_deliver ordered_def queue_of_def split: option.split)
qed (simp add: ordered_def queue_of_def clients_deliver)

lemma ordered_active:
  "ordered c n (n\<lparr>clients := mput d ((mget_or no_client (clients n) d)\<lparr>ActiveChannel := ch\<rparr>) (clients n)\<rparr>)"
  by (cases "d = c") (auto simp: ordered_def queue_of_def mget_or_def no_client_def split: option.split)

interpretation ordering: message_frame "\<lambda>e. True" "ordered c"
proof unfold_locales
  fix n m e k d t
  assume "ordered c n m"
  then show "ordered c n (sent e k d t m)" using ordered_trans ordered_sent by blast
next
  fix n m msg
  assume "ordered c n m"
  then show "ordered c n (deliver msg m)" using ordered_trans ordered_deliver by blast
next
  fix n m d ch
  assume "ordered c n m"
  then show "ordered c n (m\<lparr>clients := mput d ((mget_or no_client (clients m) d)\<lparr>ActiveChannel := ch\<rparr>) (clients m)\<rparr>)"
    using ordered_trans ordered_active by blast
qed (simp_all add: ordered_def set_status_def split: option.splits)

section \<open>Every step keeps the order\<close>

definition chatting :: "nat \<Rightarrow> node \<Rightarrow> bool" where
  \<comment> \<open>the connection is a client's, and no peer's\<close>
  "chatting c n = ((mget (phases n) c = Some ClientLoop \<or> mget (phases n) c = Some Over) \<and> mget (peers n) c = None)"

lemma said_sends: "d \<noteq> c \<Longrightarrow> said c (fold (SendMessage d) ms n) = said c n"
  by (induction ms arbitrary: n) simp_all

lemma queue_sends [simp]: "queue_of c (fold (SendMessage d) ms n) = queue_of c n"
  by (induction ms arbitrary: n) simp_all

lemma ordered_delivered:
  assumes "said c m = said c n" and "queue_of c m = queue_of c n"
  shows "ordered c n (deliver msg m)"
  using ordered_trans [OF ordered_same [OF assms] ordered_deliver] .

lemma ordered_relayed:
  assumes "ordered c n k" and "outbox k = ob" and "mget ps c = None"
  shows "ordered c n (k\<lparr>outbox := ob @ map ((\<lambda>d. (d, msg)) \<circ> fst) ps\<rparr>)"
proof -
  have "said c (k\<lparr>outbox := ob @ map ((\<lambda>d. (d, msg)) \<circ> fst) ps\<rparr>) = said c k"
    using assms(2,3) by (auto simp: said_def filter_map comp_def map_of_eq_None_iff filter_empty_conv)
  then show ?thesis using ordered_trans [OF assms(1) ordered_same] by simp
qed

lemma ordered_pump: "ordered c n (pump d n)"
proof (cases "mget (clients n) d")
  case (Some cl)
  show ?thesis
  proof (cases "Send cl")
    case (Some q)
    with \<open>mget (clients n) d = Some cl\<close> show ?thesis
      by (cases q; cases "d = c") (auto simp: pump_def ordered_def queue_of_def said_def SendMessage_def split: option.split)
  qed (use Some in \<open>simp add: pump_def\<close>)
qed (simp add: pump_def)

lemma pump_head: "queue_of c n = Some (m # q) \<Longrightarrow> said c (pump c n) = said c n @ [m] \<and> queue_of c (pump c n) = Some q"
  by (auto simp: pump_def queue_of_def said_def SendMessage_def split: option.splits)

definition stranger :: "nat \<Rightarrow> node \<Rightarrow> bool" where
  "stranger c n = (mget (peers n) c = None)"

lemma stranger_first:
  assumes "free n" and "in_phase d Greeting n" and "d \<noteq> c"
  shows "frames (\<lambda>n n'. (stranger c n \<longrightarrow> stranger c n') \<and> ordered c n n') n (handle_first L e d msg n)"
proof (cases "handle_first L e d msg n")
  case (Ret n')
  from Ret assms(1) have "(stranger c n \<longrightarrow> stranger c n') \<and> said c n' = said c n \<and> queue_of c n' = queue_of c n"
    using assms(3) by (cases rule: handle_first_cases) (auto simp: stranger_def)
  with Ret show ?thesis by (auto intro: ordered_same)
qed simp_all

lemma apply_peer_quiet:
  assumes "free n" and "d \<noteq> c" and "apply_peer L e d msg n = Ret (b, n')"
  shows "said c n' = said c n \<and> queue_of c n' = queue_of c n"
proof (cases "Type msg")
  case MsgTypeSyncRequest
  with assms(2,3) show ?thesis by (auto simp: apply_peer_def said_sends)
next
  case MsgTypeUserSync
  with assms show ?thesis by (auto simp: apply_peer_def writing_free said_def queue_of_def split: option.splits)
qed (use assms in \<open>auto simp: apply_peer_def coordinator_def note_remote_def writing_free said_def queue_of_def Let_def
    split: if_splits\<close>)

abbreviation steady :: "nat \<Rightarrow> node \<Rightarrow> node \<Rightarrow> bool" where
  "steady c n n' \<equiv> (stranger c n \<longrightarrow> stranger c n') \<and> ordered c n n'"

lemma stranger_peer:
  assumes "free n" and "d \<noteq> c"
  shows "frames (steady c) n (peer_message L e d msg n)"
proof -
  let ?n = "n\<lparr>peers := mput d (ne_now e) (peers n)\<rparr>"
  obtain b m where m: "apply_peer L e d msg ?n = Ret (b, m)" "free m" "peers m = peers ?n"
    using apply_peer_links [of ?n L e d msg] assms(1) by auto
  have *: "ordered c n m" using apply_peer_quiet [OF _ assms(2) m(1)] assms(1) by (auto intro: ordered_same)
  then have "ordered c n (deliver msg m)" using ordered_trans ordered_deliver by blast
  with * show ?thesis using m assms by (simp add: peer_message_def writing_free free_unlock broadcastToClients_free stranger_def)
qed

lemma chatting_step:
  assumes "free n" and "chatting c n"
  shows "frames (steady c) n (node_step L e ev n)"
proof -
  have p: "mget (phases n) c = Some ClientLoop \<or> mget (phases n) c = Some Over" and s: "mget (peers n) c = None"
    using assms(2) by (simp_all add: chatting_def)
  show ?thesis
  proof (cases ev)
    case (ClientEv d msg)
    have "frames same_links n (client_message L e d msg n)" "frames (ordered c) n (client_message L e d msg n)"
      using links.frame_client [OF assms(1) TrueI] ordering.frame_client [OF assms(1) TrueI] by auto
    then show ?thesis using ClientEv by (cases "client_message L e d msg n") (auto simp: same_links_def stranger_def)
  next
    case (SshMsgEv d)
    let ?n = "n\<lparr>ssh_pipe := delete_first (\<lambda>(x, _). x = d) (ssh_pipe n)\<rparr>"
    have "frames (steady c) n (client_message L e d msg ?n)" for msg
    proof -
      have "frames same_links ?n (client_message L e d msg ?n)" "frames (ordered c) ?n (client_message L e d msg ?n)"
        using links.frame_client [of ?n] ordering.frame_client [of ?n] assms(1) by auto
      then show ?thesis
        by (cases "client_message L e d msg ?n") (auto simp: same_links_def stranger_def ordered_def split: option.splits)
    qed
    then show ?thesis using SshMsgEv by (auto split: option.split)
  next
    case (FirstEv d msg)
    then show ?thesis using stranger_first [OF assms(1), of d c L e msg] p by (cases "d = c") (force simp: in_phase_def)+
  next
    case (SshEv d u pw)
    then show ?thesis
      by (cases "Auth_Check (lib_argon L) (ne_users e) (ne_now e) (ne_salt e) u pw (n_auth n)")
        (auto simp: CheckAuth_def ssh_session_def set_phase_def stranger_def said_def queue_of_def intro!: ordered_same split: prod.split)
  next
    case (SshLineEv d t)
    then show ?thesis
      by (cases "ssh_content L e (sshKey n) t")
        (auto simp: ssh_line_def stranger_def intro!: ordered_same split: option.split)
  next
    case (WelcomeEv d)
    have "frames (steady c) n (handle_welcome e d u n)" if "d \<noteq> c" for u
      using that by (cases "GetRecentMessages 50 (n_storage n)")
        (auto simp: handle_welcome_def Let_def stranger_def said_sends intro!: ordered_same)
    then show ?thesis using WelcomeEv p by (cases "d = c") (auto split: option.split phase.split)
  next
    case (PumpEv d)
    then show ?thesis using ordered_pump by (simp add: pump_def stranger_def SendMessage_def split: option.split list.split)
  next
    case (PeerEv d m)
    then show ?thesis using stranger_peer [OF assms(1), of d c L e m] p by (cases "d = c") (auto simp: in_phase_def)
  next
    case (RegisterEv d)
    then show ?thesis using assms(1) p
      by (auto simp: handle_register_def writing_free stranger_def said_def queue_of_def set_phase_def enqueue_def Let_def
          intro!: ordered_same split: option.split phase.split)
  next
    case (UnregisterEv d)
    then show ?thesis using assms(1)
      by (cases "d = c") (auto simp: handle_unregister_def wlock_def wunlock_def stranger_def said_def queue_of_def enqueue_def Let_def
          intro: ordered_gone ordered_same split: option.split)
  next
    case (BroadcastEv i)
    then show ?thesis using assms(1) s
      by (auto simp: handle_broadcast_def broadcastToClients_free broadcastToPeers_free stranger_def Let_def
          intro!: ordered_relayed ordered_delivered)
  next
    case MonitorEv
    then show ?thesis using assms(1) s
      by (auto simp: monitor_def wlock_def wunlock_def writing_free stranger_def map_of_eq_None_iff intro!: ordered_same)
  next
    case (DialEv d)
    then show ?thesis using assms(1) p
      by (cases "d = c") (auto simp: dial_peer_def writing_free stranger_def intro!: ordered_same)
  qed (use assms(1) s in \<open>auto simp: stranger_def handle_accept_def reading_free writing_free peer_end_def monitor_def
      handle_client_end_def wlock_def wunlock_def handle_broadcast_def broadcastToClients_free broadcastToPeers_free
      heartbeat_def election_def InjectMessage_def ssh_end_def Let_def intro!: ordered_relayed intro: ordered_same split: option.split\<close>)
qed

section \<open>The order along a run\<close>

lemma chatting_stays:
  assumes "node_inv n" and "chatting c n" and "node_step L e ev n = Ret n'"
  shows "chatting c n' \<and> ordered c n n'"
proof -
  have "life (\<lambda>u. True) (mget (phases n) c) (mget (phases n') c)"
    using moves_step [OF node_inv_free [OF assms(1)], of L e ev c] assms(3) by (auto elim: life_mono simp del: node_step.simps)
  then have "mget (phases n') c = Some ClientLoop \<or> mget (phases n') c = Some Over"
    using assms(2) by (cases rule: life.cases) (auto simp: chatting_def)
  then show ?thesis
    using chatting_step [OF node_inv_free [OF assms(1)] assms(2), of L e ev] assms(2,3)
    by (simp add: chatting_def stranger_def del: node_step.simps)
qed

interpretation queues: run_frame "chatting c" "ordered c"
proof unfold_locales
  show "ordered c n m \<Longrightarrow> ordered c m k \<Longrightarrow> ordered c n k" for n m k by (rule ordered_trans)
qed (simp, rule chatting_stays)

definition turns :: "nat \<Rightarrow> (node_env \<times> event) list \<Rightarrow> nat" where
  \<comment> \<open>how often the writer of the connection takes a message from the queue, or finds none\<close>
  "turns c evs = length (filter (\<lambda>x. snd x = PumpEv c) evs)"

lemma prefix_take_shift:
  assumes "prefix q (s @ r)"
  shows "prefix (take k q) (s @ take k r)"
proof (rule prefix_length_prefix)
  show "prefix (take k q) (s @ r)" using assms take_is_prefix prefix_order.trans by blast
  show "prefix (s @ take k r) (s @ r)" by (simp add: take_is_prefix)
  show "length (take k q) \<le> length (s @ take k r)" using prefix_length_le [OF assms] by simp
qed

lemma turns_step:
  assumes "ordered c n m" and "queue_of c m = Some q'" and "node_step L e ev n = Ret m"
  shows "\<exists>q. queue_of c n = Some q \<and>
    prefix (said c n @ take (turns c ((e, ev) # evs)) q) (said c m @ take (turns c evs) q')"
proof -
  obtain q where q: "queue_of c n = Some q" "prefix (said c n) (said c m)" "prefix (said c n @ q) (said c m @ q')"
    using assms(1,2) by (auto simp: ordered_def split: option.splits)
  obtain s where s: "said c m = said c n @ s" using q(2) by (auto elim: prefixE)
  have "prefix (said c n @ take (turns c ((e, ev) # evs)) q) (said c m @ take (turns c evs) q')" if "ev = PumpEv c" "q = x # xs" for x xs
    using pump_head [of c n x xs] q(1) assms(2,3) that by (simp add: turns_def)
  moreover have "prefix (take (turns c evs) q) (s @ take (turns c evs) q')"
    by (rule prefix_take_shift) (use q(3) s in simp)
  ultimately show ?thesis using q(1) s by (cases "ev = PumpEv c"; cases q) (auto simp: turns_def)
qed

lemma queue_run:
  "node_inv n \<Longrightarrow> chatting c n \<Longrightarrow> node_run L evs n = Ret n' \<Longrightarrow> queue_of c n' = Some q' \<Longrightarrow>
    \<exists>q. queue_of c n = Some q \<and> prefix (said c n @ take (turns c evs) q) (said c n')"
proof (induction evs arbitrary: n)
  case (Cons x evs)
  obtain e ev where x: "x = (e, ev)" by (cases x)
  from Cons.prems(3) obtain m where m: "node_step L e ev n = Ret m" "node_run L evs m = Ret n'"
    by (auto simp: x obind_Ret_iff simp del: node_step.simps)
  have inv: "node_inv m" using node_inv_step [OF Cons.prems(1), of L e ev] m(1) by simp
  have chat: "chatting c m" "ordered c n m" using chatting_stays [OF Cons.prems(1,2) m(1)] by simp_all
  from Cons.IH [OF inv chat(1) m(2) Cons.prems(4)] obtain q1 where
    q1: "queue_of c m = Some q1" "prefix (said c m @ take (turns c evs) q1) (said c n')" by blast
  from turns_step [OF chat(2) q1(1) m(1), of evs] q1(2) show ?case unfolding x using prefix_order.trans by blast
qed (simp add: turns_def)

text \<open>
  C7. What is queued for a client arrives, and in order. Let a connection be in the loop of a client at the start of a
  run and be registered with a queue at the end of it, whatever else happened. Then it was registered with a queue
  at the start; what was written to it by the end, followed by what is queued at the end, begins with what was
  written at the start followed by what was queued at the start, so that nothing queued is lost, repeated,
  overtaken or interrupted by a write of another goroutine; and each time the connection's writer got its turn one
  queued message more had been written.
\<close>

theorem queue_in_order:
  assumes "node_inv n" and "mget (phases n) c = Some ClientLoop" and "mget (peers n) c = None"
    and "node_run L evs n = Ret n'" and "mget (clients n') c = Some cl'" and "Send cl' = Some q'"
  shows "\<exists>cl q. mget (clients n) c = Some cl \<and> Send cl = Some q \<and>
    prefix (said c n @ q) (said c n' @ q') \<and> prefix (said c n @ take (turns c evs) q) (said c n')"
proof -
  have chat: "chatting c n" and q': "queue_of c n' = Some q'" using assms by (simp_all add: chatting_def queue_of_def)
  have "ordered c n n'" using queues.frame_run [OF assms(1) chat assms(4)] by blast
  with queue_run [OF assms(1) chat assms(4) q'] q' show ?thesis
    by (auto simp: ordered_def queue_of_def split: option.splits)
qed

definition queued_client :: client_reg where
  "queued_client = demo_client ''bob''\<lparr>Send := Some [says ''a'', says ''b'']\<rparr>"

theorem queue_in_order_witness:
  "\<exists>n'. node_run demo_lib [(demo_env, PumpEv 2), (demo_env, ClientEndEv 1), (demo_env, UnregisterEv 1), (demo_env, PumpEv 2)]
     (demo_node\<lparr>clients := [(1, demo_client ''alice''), (2, queued_client), (3, demo_client ''mallory'')]\<rparr>) = Ret n' \<and>
     prefix [says ''a'', says ''b''] (said 2 n')"
proof -
  let ?evs = "[(demo_env, PumpEv 2), (demo_env, ClientEndEv 1), (demo_env, UnregisterEv 1), (demo_env, PumpEv 2)]"
  let ?n = "demo_node\<lparr>clients := [(1, demo_client ''alice''), (2, queued_client), (3, demo_client ''mallory'')]\<rparr>"
  note [simp] = queued_client_def
  have inv: "node_inv ?n"
    using node_inv_demo by (auto simp: node_inv_def conns_ok_def mkeys_distinct_def client_ok_def queue_ok_def user_known_def live_def unclaimed_def send_buffer_def)
  obtain n' where run: "node_run demo_lib ?evs ?n = Ret n'" and cl: "mget (clients n') 2 = Some (demo_client ''bob''\<lparr>Send := Some []\<rparr>)"
    by (simp add: in_phase_def waiting_def pump_def SendMessage_def handle_client_end_def set_phase_def handle_unregister_def
        wlock_def wunlock_def enqueue_def)
  from queue_in_order [OF inv _ _ run cl, of "[]"] run show ?thesis
    by (auto simp: said_def turns_def simp del: node_run_simps node_step.simps)
qed

end
