(* ===== verification/Programs.thy ===== *)
theory Programs
  imports Client Metrics NodeQueue
begin

text \<open>
  The programs that talk to the server (\<open>main\<close> of \<open>cmd/client\<close>, \<open>cmd/tui\<close> and \<open>cmd/stress\<close>) as far as they join it:
  what they send first, what they make of the answer, and what the two ends do together. Whether a certificate can be
  read, a connection made and a message sent, and what is read, are arguments.
\<close>

section \<open>Starting a client\<close>

record dialling =
  ca_cert :: bool               \<comment> \<open>\<open>ca.crt\<close> can be read\<close>
  dials :: bool                 \<comment> \<open>\<open>tls.Dial\<close> connects\<close>
  sends :: bool                 \<comment> \<open>the first message is sent\<close>
  answer :: "wire_msg option"   \<comment> \<open>what is read then; \<open>None\<close> is an error\<close>

datatype client_exit =
    Usage
  | NoCertificate
  | NoConnection
  | NotSent
  | NotRead
  | Ended client_start
  | Chatting

definition joined :: "dialling \<Rightarrow> (wire_msg \<Rightarrow> client_start) \<Rightarrow> client_exit" where
  \<comment> \<open>from reading the certificate to the answer, the same in both programs\<close>
  "joined v start =
     (if \<not> ca_cert v then NoCertificate
      else if \<not> dials v then NoConnection
      else if \<not> sends v then NotSent
      else case answer v of
          None \<Rightarrow> NotRead
        | Some res \<Rightarrow>
            (case start res of LoggedIn \<Rightarrow> Chatting | LoggedInUnasked t \<Rightarrow> Chatting | st \<Rightarrow> Ended st))"

definition client_main :: "dialling \<Rightarrow> bool \<Rightarrow> client_exit" where
  \<comment> \<open>\<open>cmd/client\<close>; the flag \<open>-user\<close> has a default\<close>
  "client_main v register = joined v (client_start register)"

definition tui_main :: "dialling \<Rightarrow> bool \<Rightarrow> string \<Rightarrow> client_exit" where
  "tui_main v register user = (if user = [] then Usage else joined v (tui_start register))"

definition readServerMessages :: "wire_msg list \<Rightarrow> string \<Rightarrow> tea_msg list" where
  \<comment> \<open>what the terminal client is fed: the messages read, and the error that ends them\<close>
  "readServerMessages msgs err = map ServerMsg msgs @ [ErrorMsg err]"

section \<open>Signing up\<close>

lemma username_ascii: "ValidateUsername u \<Longrightarrow> list_all (\<lambda>c. bval c < 0x80 \<and> c \<noteq> CHR '':'') u"
  by (auto simp: ValidateUsername_def username_char_def is_digit_def list_all_iff)

lemma utf8_coerce_ascii: "list_all (\<lambda>c. bval c < 0x80) s \<Longrightarrow> utf8_coerce (s @ t) = s @ utf8_coerce t"
  by (induction s) (simp_all add: utf8_coerce_def decode_rune_def Let_def encode_rune_def)

lemma credentials_transmit:
  assumes "ValidateUsername u" and "valid_utf8 pw" and "encodable_time (ne_now e)"
  shows "\<exists>m. transmit (credentials_msg register e u pw) = Some m \<and>
    Type m = (if register then MsgTypeRegister else MsgTypeLogin) \<and> ParseCredentials (Content m) = (u, pw)"
proof -
  have "list_all (\<lambda>c. bval c < 0x80) (u @ '':'')" "CHR '':'' \<notin> set u"
    using username_ascii [OF assms(1)] by (auto simp: list_all_iff)
  then have "utf8_coerce (u @ '':'' @ pw) = u @ '':'' @ pw" "ParseCredentials (u @ '':'' @ pw) = (u, pw)"
    using utf8_coerce_ascii [of "u @ '':''" pw] assms(2) cut_at_append [of "CHR '':''" u pw]
    by (simp_all add: valid_utf8_def ParseCredentials_def SplitN2_def)
  with assms(3) show ?thesis by (simp add: transmit_def credentials_msg_def)
qed

lemma Auth_Register_new:
  assumes "argon2_ok A" and "ValidateUsername u" and "4 \<le> length pw" and "\<not> mhas (users a) u"
  shows "\<exists>a'. Auth_Register A w now (Some salt) u pw a = Ret (a', True) \<and> failedAttempts a' = failedAttempts a"
proof -
  obtain h where "HashPassword A (Some salt) pw = Ret (Some h)"
    by (rule IDKey_ok [OF assms(1), of pw salt]) (simp add: HashPassword_def)
  with assms(2-4) show ?thesis by (simp add: Auth_Register_def Let_def)
qed

text \<open>
  C16. Signing up works, end to end. Somebody whose name is allowed and not taken, with a password of at least four
  bytes, runs a client with \<open>-register\<close> and then without: the messages it sends reach the server as sent; the server
  registers the user, says so and closes the first connection; on the second it accepts the login and puts the
  connection on its way to a session under that name; both clients take the first answer for a registration and go
  on chatting on the second. The name must not be locked from earlier failed logins, and the server not full.
\<close>

theorem sign_up_gets_in:
  assumes "argon2_ok (lib_argon L)" and "n_mu n = Readers 0" and "length (clients n) + length (peers n) < 550"
    and "mget (phases n) c = None" and "mget (phases n) d = None" and "c \<noteq> d"
    and "ValidateUsername u" and "valid_utf8 pw" and "4 \<le> length pw" and "\<not> mhas (users (n_auth n)) u"
    and "ne_salt e = Some salt" and "encodable_time (ne_now e)" and "encodable_time (ne_now e')"
    and "\<not> is_locked (ne_now e') u (n_auth n)"
  shows "\<exists>m1 m2 n1 n2.
    transmit (credentials_msg True e u pw) = Some m1 \<and> transmit (credentials_msg False e' u pw) = Some m2 \<and>
    node_run L [(e, AcceptEv c), (e, FirstEv c m1)] n = Ret n1 \<and>
    outbox n1 = outbox n @ [(c, auth_result ''OK_REGISTERED'')] \<and> mget (phases n1) c = Some Over \<and>
    client_start True (auth_result ''OK_REGISTERED'') = Registered \<and>
    tui_start True (auth_result ''OK_REGISTERED'') = Registered \<and>
    node_run L [(e', AcceptEv d), (e', FirstEv d m2)] n1 = Ret n2 \<and>
    outbox n2 = outbox n1 @ [(d, auth_result ''OK'')] \<and>
    (\<exists>reg. mget (phases n2) d = Some (Registering True reg) \<and> User reg = u) \<and>
    client_main \<lparr>ca_cert = True, dials = True, sends = True, answer = Some (auth_result ''OK'')\<rparr> False = Chatting \<and>
    tui_main \<lparr>ca_cert = True, dials = True, sends = True, answer = Some (auth_result ''OK'')\<rparr> False u = Chatting"
proof -
  obtain m1 where m1: "transmit (credentials_msg True e u pw) = Some m1" "Type m1 = MsgTypeRegister" "ParseCredentials (Content m1) = (u, pw)"
    using credentials_transmit [OF assms(7,8,12), of True] by auto
  obtain m2 where m2: "transmit (credentials_msg False e' u pw) = Some m2" "Type m2 = MsgTypeLogin" "ParseCredentials (Content m2) = (u, pw)"
    using credentials_transmit [OF assms(7,8,13), of False] by auto
  obtain a where a: "Auth_Register (lib_argon L) (ne_users e) (ne_now e) (ne_salt e) u pw (n_auth n) = Ret (a, True)"
      "failedAttempts a = failedAttempts (n_auth n)"
    using Auth_Register_new [OF assms(1,7,9,10), of "ne_users e" "ne_now e" salt] assms(11) by auto
  have "\<not> is_locked (ne_now e') u a" using assms(14) a(2) by (simp add: is_locked_def)
  with registered_user_gets_in [OF assms(1) a(1) [unfolded assms(11)]] obtain b where
    b: "Auth_Check (lib_argon L) (ne_users e') (ne_now e') (ne_salt e') u pw a = Ret (b, True)" by blast
  let ?g = "set_phase c Greeting n"
  let ?n1 = "close_conn c (SendMessage c (auth_result ''OK_REGISTERED'') (?g\<lparr>n_auth := a\<rparr>))"
  let ?h = "set_phase d Greeting ?n1"
  let ?n2 = "set_phase d (Registering True \<lparr>User = u, Send = Some [], ActiveChannel = ''general''\<rparr>)
      (SendMessage d (auth_result ''OK'') (?h\<lparr>n_auth := b\<rparr>))"
  have "node_step L e (AcceptEv c) n = Ret ?g" using accept_step assms(2-4) by blast
  moreover have "node_step L e (FirstEv c m1) ?g = Ret ?n1"
    using register_step [of c ?g m1 u pw L e a True] m1 a(1) by (simp add: in_phase_def set_phase_def)
  ultimately have 1: "node_run L [(e, AcceptEv c), (e, FirstEv c m1)] n = Ret ?n1" by (simp del: node_step.simps)
  have "node_step L e' (AcceptEv d) ?n1 = Ret ?h"
    using assms(2,3,5,6) by (intro accept_step) (simp_all add: set_phase_def close_conn_def SendMessage_def)
  moreover have "node_step L e' (FirstEv d m2) ?h = Ret ?n2"
    using login_step [of d ?h m2 u pw L e' b True] m2 b
    by (simp add: in_phase_def set_phase_def close_conn_def SendMessage_def)
  ultimately have 2: "node_run L [(e', AcceptEv d), (e', FirstEv d m2)] ?n1 = Ret ?n2" by (simp del: node_step.simps)
  have "u \<noteq> []" using assms(7) by (auto simp: ValidateUsername_def)
  then have "client_main \<lparr>ca_cert = True, dials = True, sends = True, answer = Some (auth_result ''OK'')\<rparr> False = Chatting"
    "tui_main \<lparr>ca_cert = True, dials = True, sends = True, answer = Some (auth_result ''OK'')\<rparr> False u = Chatting"
    "client_start True (auth_result ''OK_REGISTERED'') = Registered" "tui_start True (auth_result ''OK_REGISTERED'') = Registered"
    by (simp_all add: client_main_def tui_main_def joined_def client_start_def tui_start_def auth_result_def)
  moreover have "outbox ?n1 = outbox n @ [(c, auth_result ''OK_REGISTERED'')]" "outbox ?n2 = outbox ?n1 @ [(d, auth_result ''OK'')]"
    "mget (phases ?n1) c = Some Over"
    "mget (phases ?n2) d = Some (Registering True \<lparr>User = u, Send = Some [], ActiveChannel = ''general''\<rparr>)"
    by (simp_all add: set_phase_def close_conn_def SendMessage_def)
  ultimately show ?thesis using m1(1) m2(1) 1 2 by (metis (full_types) client_reg.select_convs(1))
qed

lemma demo_argon: "argon2_ok (lib_argon demo_lib)"
  by (simp add: toy_argon2_ok)

theorem sign_up_gets_in_witness:
  "\<exists>m1 m2 n1 n2. transmit (credentials_msg True demo_env ''carol'' ''pass'') = Some m1 \<and>
     transmit (credentials_msg False demo_env ''carol'' ''pass'') = Some m2 \<and>
     node_run demo_lib [(demo_env, AcceptEv 4), (demo_env, FirstEv 4 m1)] demo_node = Ret n1 \<and>
     node_run demo_lib [(demo_env, AcceptEv 5), (demo_env, FirstEv 5 m2)] n1 = Ret n2 \<and>
     outbox n2 = [(4, auth_result ''OK_REGISTERED''), (5, auth_result ''OK'')]"
proof -
  have "ne_salt demo_env = Some ''0123456789abcdef''" by (simp add: demo_env_def)
  moreover have "encodable_time (ne_now demo_env)" by (simp add: encodable_time_def zero_time_def)
  moreover have "ValidateUsername ''carol''" "valid_utf8 ''pass''" "\<not> mhas (users (n_auth demo_node)) ''carol''"
    "\<not> is_locked (ne_now demo_env) ''carol'' (n_auth demo_node)" "length (clients demo_node) + length (peers demo_node) < 550"
    "mget (phases demo_node) 4 = None" "mget (phases demo_node) 5 = None" "(4::nat) \<noteq> 5" "4 \<le> length ''pass''"
    by (simp_all add: ValidateUsername_def username_char_def valid_utf8_ascii mhas_def is_locked_def demo_auth_def)
  ultimately obtain m1 m2 n1 n2 where
    "transmit (credentials_msg True demo_env ''carol'' ''pass'') = Some m1"
    "transmit (credentials_msg False demo_env ''carol'' ''pass'') = Some m2"
    "node_run demo_lib [(demo_env, AcceptEv 4), (demo_env, FirstEv 4 m1)] demo_node = Ret n1"
    "node_run demo_lib [(demo_env, AcceptEv 5), (demo_env, FirstEv 5 m2)] n1 = Ret n2"
    "outbox n1 = outbox demo_node @ [(4, auth_result ''OK_REGISTERED'')]" "outbox n2 = outbox n1 @ [(5, auth_result ''OK'')]"
    using sign_up_gets_in [OF demo_argon demo_simps(4), of 4 5 "''carol''" "''pass''" demo_env "''0123456789abcdef''" demo_env] by blast
  moreover from this have "outbox n2 = [(4, auth_result ''OK_REGISTERED''), (5, auth_result ''OK'')]" by simp
  ultimately show ?thesis by blast
qed

section \<open>The stress test\<close>

definition bot_name :: "nat \<Rightarrow> string" where
  "bot_name i = ''Bot-'' @ show_nat i"

definition bot_credentials :: "bool \<Rightarrow> node_env \<Rightarrow> nat \<Rightarrow> wire_msg" where
  \<comment> \<open>the messages \<open>registerMsg\<close> and \<open>login\<close>\<close>
  "bot_credentials register e i =
     no_message\<lparr>Type := (if register then MsgTypeRegister else MsgTypeLogin), Sender := bot_name i,
       Content := bot_name i @ '':pass1234'', Timestamp := ne_now e\<rparr>"

definition bot_chat :: "node_env \<Rightarrow> nat \<Rightarrow> nat \<Rightarrow> wire_msg" where
  "bot_chat e i k =
     no_message\<lparr>Type := MsgTypeChat, Sender := bot_name i,
       Content := ''Load Test Message '' @ show_nat k @ '' from '' @ bot_name i, Channel := ''general'',
       Timestamp := ne_now e\<rparr>"

lemma bot_credentials_alt: "bot_credentials register e i = credentials_msg register e (bot_name i) ''pass1234''"
  by (simp add: bot_credentials_def credentials_msg_def)

fun bot_chats :: "(nat \<Rightarrow> bool) \<Rightarrow> node_env \<Rightarrow> nat \<Rightarrow> nat list \<Rightarrow> wire_msg list" where
  \<comment> \<open>the loop; the first argument: the message is sent without an error\<close>
  "bot_chats send_ok e i [] = []"
| "bot_chats send_ok e i (k # ks) = bot_chat e i k # (if send_ok k then bot_chats send_ok e i ks else [])"

definition runClient :: "bool \<Rightarrow> (nat \<Rightarrow> bool) \<Rightarrow> node_env \<Rightarrow> nat \<Rightarrow> wire_msg list" where
  \<comment> \<open>what is given to \<open>SendMessage\<close>, all on one connection; what is read is not looked at\<close>
  "runClient connects send_ok e i =
     (if connects
      then bot_credentials True e i # bot_credentials False e i # bot_chats send_ok e i [0..<10]
      else [])"

definition stress_main :: "bool \<Rightarrow> nat \<Rightarrow> (nat \<Rightarrow> bool) \<Rightarrow> (nat \<Rightarrow> nat \<Rightarrow> bool) \<Rightarrow> node_env \<Rightarrow> wire_msg list list option" where
  \<comment> \<open>what each of the clients sends; \<open>None\<close> where the certificate cannot be read\<close>
  "stress_main ca_file num connects send_ok e =
     (if ca_file then Some (map (\<lambda>i. runClient (connects i) (send_ok i) e i) [0..<num]) else None)"

definition from_conn :: "nat \<Rightarrow> event \<Rightarrow> bool" where
  \<comment> \<open>a message is read from the connection\<close>
  "from_conn c ev = (case ev of FirstEv d m \<Rightarrow> d = c | ClientEv d m \<Rightarrow> d = c | PeerEv d m \<Rightarrow> d = c | _ \<Rightarrow> False)"

lemma over_deaf: "mget (phases n) c = Some Over \<Longrightarrow> from_conn c ev \<Longrightarrow> node_step L e ev n = Ret n"
  by (cases ev) (simp_all add: from_conn_def in_phase_def)

text \<open>
  C39. The stress test tests nothing. The first message of each of its clients registers the user, and the server closes
  the connection after that, whatever the answer; the client sends its login and its chat messages on the same
  connection. So once the server has read the first message, the connection is over, in every state it reaches
  from there; nothing that comes in on it changes anything, the login included; and no such client ever has a session.
\<close>

theorem stress_test_never_chats:
  assumes "node_inv n" and "in_phase c Greeting n" and "runClient True send_ok e i = first # rest"
    and "transmit first = Some m" and "node_run L ((e1, FirstEv c m) # evs) n = Ret n'"
  shows "mget (phases n') c = Some Over \<and> (\<forall>ev e2. from_conn c ev \<longrightarrow> node_step L e2 ev n' = Ret n')"
proof -
  have first: "Type m = MsgTypeRegister"
    using assms(3,4) by (auto simp: runClient_def bot_credentials_def transmit_def split: if_splits)
  obtain n1 where n1: "node_step L e1 (FirstEv c m) n = Ret n1" "node_run L evs n1 = Ret n'"
    using assms(5) by (auto simp: obind_Ret_iff simp del: node_step.simps)
  obtain u p where "ParseCredentials (Content m) = (u, p)" by fastforce
  then have over: "mget (phases n1) c = Some Over"
    using n1(1) assms(2) first by (auto simp: handle_first_def Let_def obind_Ret_iff split: prod.splits)
  have "node_inv n1" using node_inv_step [OF assms(1), of L e1 "FirstEv c m"] n1(1) by simp
  then have "(life (\<lambda>u. True))\<^sup>*\<^sup>* (Some Over) (mget (phases n') c)"
    using lives.frame_run [of n1 L evs n' c] n1(2) over by simp
  then have "mget (phases n') c = Some Over" by (rule life_final)
  then show ?thesis using over_deaf by blast
qed

theorem stress_test_never_chats_witness:
  "\<exists>m n'. transmit (hd (runClient True (\<lambda>_. True) demo_env 7)) = Some m \<and>
     node_run demo_lib [(demo_env, FirstEv 4 m), (demo_env, ClientEv 4 (bot_chat demo_env 7 0))] (set_phase 4 Greeting demo_node) = Ret n' \<and>
     mget (phases n') 4 = Some Over"
proof -
  let ?n = "set_phase 4 Greeting demo_node"
  have step: "node_step demo_lib demo_env (AcceptEv 4) demo_node = Ret ?n"
    by (rule accept_step) simp_all
  then have inv: "node_inv ?n" using node_inv_step [OF node_inv_demo, of demo_lib demo_env "AcceptEv 4"] by simp
  have name: "ValidateUsername (bot_name 7)" "\<not> mhas (users demo_auth) (bot_name 7)"
    by (simp_all add: bot_name_def show_nat.simps ValidateUsername_def username_char_def is_digit_def mhas_def demo_auth_def)
  have env: "valid_utf8 ''pass1234''" "encodable_time (ne_now demo_env)" "ne_salt demo_env = Some ''0123456789abcdef''"
    by (simp_all add: valid_utf8_ascii encodable_time_def zero_time_def) (simp add: demo_env_def)
  obtain m where m: "transmit (bot_credentials True demo_env 7) = Some m" "Type m = MsgTypeRegister"
      "ParseCredentials (Content m) = (bot_name 7, ''pass1234'')"
    using credentials_transmit [OF name(1) env(1,2), of True] by (auto simp: bot_credentials_alt)
  obtain a where a: "Auth_Register (lib_argon demo_lib) (ne_users demo_env) (ne_now demo_env) (ne_salt demo_env) (bot_name 7) ''pass1234'' demo_auth = Ret (a, True)"
    using Auth_Register_new [OF demo_argon name(1) _ name(2), of "''pass1234''" "ne_users demo_env" "ne_now demo_env"] env(3) by auto
  let ?n1 = "close_conn 4 (SendMessage 4 (auth_result ''OK_REGISTERED'') (?n\<lparr>n_auth := a\<rparr>))"
  have 1: "node_step demo_lib demo_env (FirstEv 4 m) ?n = Ret ?n1"
    using register_step [of 4 ?n m "bot_name 7" "''pass1234''" demo_lib demo_env a True] m a by (simp add: in_phase_def set_phase_def)
  have 2: "node_step demo_lib demo_env (ClientEv 4 (bot_chat demo_env 7 0)) ?n1 = Ret ?n1"
    by (rule over_deaf) (simp_all add: from_conn_def)
  have run: "node_run demo_lib [(demo_env, FirstEv 4 m), (demo_env, ClientEv 4 (bot_chat demo_env 7 0))] ?n = Ret ?n1"
    using 1 2 by (simp del: node_step.simps)
  obtain rest where first: "runClient True (\<lambda>_. True) demo_env 7 = bot_credentials True demo_env 7 # rest"
    by (simp add: runClient_def)
  have "in_phase 4 Greeting ?n" by (simp add: in_phase_def)
  from stress_test_never_chats [OF inv this first m(1) run] run first m(1) show ?thesis by auto
qed

end
