(* ===== verification/Server.thy ===== *)
theory Server
  imports Programs
begin

text \<open>
  \<open>cmd/server/main.go\<close>, \<open>Node.Run\<close> and \<open>Node.Shutdown\<close>: the settings, starting the node, and what a server that is
  stopped and started again has kept. Whether a file can be read or a port opened is an argument, and so is what the
  package \<open>flag\<close> made of the command line.
\<close>

section \<open>Settings\<close>

definition Atoi :: "string \<Rightarrow> int option" where
  \<comment> \<open>\<open>strconv.Atoi\<close>: an optional sign and decimal digits, in the range of an \<open>int\<close>\<close>
  "Atoi s =
     (let neg = HasPrefix s ''-''; ds = (if neg \<or> HasPrefix s ''+'' then drop 1 s else s) in
      if ds = [] \<or> \<not> list_all is_digit ds then None
      else (let i = (if neg then - int (digits_val ds) else int (digits_val ds)) in if in_int64 i then Some i else None))"

definition getEnvInt :: "(string \<Rightarrow> string) \<Rightarrow> string \<Rightarrow> int \<Rightarrow> int" where
  \<comment> \<open>the first argument is \<open>os.Getenv\<close>\<close>
  "getEnvInt env key fallback =
     (if env key = [] then fallback else case Atoi (env key) of Some val \<Rightarrow> val | None \<Rightarrow> fallback)"

definition server_ports :: "(string \<Rightarrow> string) \<Rightarrow> int \<times> int \<times> int \<times> int" where
  "server_ports env =
     (getEnvInt env ''PORT'' 8080, getEnvInt env ''SSH_PORT'' 2222, getEnvInt env ''API_PORT'' 8090,
      getEnvInt env ''METRICS_PORT'' 2112)"

definition peer_list :: "string \<Rightarrow> string list" where
  "peer_list list = (if list = [] then [] else Split list CHR '','')"

lemma Atoi_Itoa: "in_int64 i \<Longrightarrow> Atoi (Itoa i) = Some i"
proof -
  assume i: "in_int64 i"
  have digits: "list_all is_digit (show_nat k)" for k using show_nat_digits by (auto simp: list_all_iff)
  have first: "\<exists>c s. show_nat k = c # s \<and> is_digit c" for k
    using digits [of k] show_nat_not_Nil [of k] by (cases "show_nat k") auto
  have "\<not> is_digit CHR ''-''" "\<not> is_digit CHR ''+''" by (simp_all add: is_digit_def)
  then have "\<not> HasPrefix (show_nat k) ''-'' \<and> \<not> HasPrefix (show_nat k) ''+''" for k
    using first [of k] by (auto simp: HasPrefix_def)
  then show ?thesis using i digits
    by (simp add: Atoi_def Itoa_def digits_val_show_nat HasPrefix_def Let_def)
qed

lemma getEnvInt_set: "in_int64 i \<Longrightarrow> env key = Itoa i \<Longrightarrow> getEnvInt env key fallback = i"
proof -
  have "Itoa i \<noteq> []" by (simp add: Itoa_def)
  then show "in_int64 i \<Longrightarrow> env key = Itoa i \<Longrightarrow> getEnvInt env key fallback = i"
    by (simp add: getEnvInt_def Atoi_Itoa)
qed

record server_flags =
  \<comment> \<open>the flags that are given\<close>
  f_port :: "int option"
  f_ssh :: "int option"
  f_api :: "int option"
  f_metrics :: "int option"
  f_peers :: "string option"

record server_settings =
  s_port :: int
  s_ssh :: int
  s_api :: int
  s_metrics :: int
  s_peers :: "string list"
  s_key :: string

definition or_default :: "'a option \<Rightarrow> 'a \<Rightarrow> 'a" where
  "or_default x d = (case x of Some v \<Rightarrow> v | None \<Rightarrow> d)"

definition settings :: "(string \<Rightarrow> string) \<Rightarrow> server_flags \<Rightarrow> server_settings" where
  \<comment> \<open>the first argument is \<open>os.Getenv\<close>\<close>
  "settings env f =
     (case server_ports env of (prt, sshp, apip, mp) \<Rightarrow>
        \<lparr>s_port = or_default (f_port f) prt, s_ssh = or_default (f_ssh f) sshp, s_api = or_default (f_api f) apip,
         s_metrics = or_default (f_metrics f) mp, s_peers = peer_list (or_default (f_peers f) (env ''PEERS'')),
         s_key = env ''SECRET_KEY''\<rparr>)"

lemma settings_flag: "f_port f = Some i \<Longrightarrow> s_port (settings env f) = i"
  "f_port f = None \<Longrightarrow> env ''PORT'' = [] \<Longrightarrow> s_port (settings env f) = 8080"
  by (simp_all add: settings_def server_ports_def or_default_def getEnvInt_def)

section \<open>Starting\<close>

datatype server_exit = NoKeyPair | NoCaFile | NoLogFile

definition start_server ::
    "node_env \<Rightarrow> bool \<Rightarrow> bool \<Rightarrow> server_settings \<Rightarrow> disk \<Rightarrow> users_file fs \<Rightarrow> channels_file fs \<Rightarrow> bool \<Rightarrow> (server_exit + node) outcome" where
  \<comment> \<open>\<open>main\<close> up to \<open>Join\<close>: whether the key pair and the certificate can be read, then what \<open>NewNode\<close> finds\<close>
  "start_server e key_pair ca_file st d ufs cfs opens =
     (if \<not> key_pair then Ret (Inl NoKeyPair)
      else if \<not> ca_file then Ret (Inl NoCaFile)
      else obind (NewNode e (s_port st) d ufs cfs opens)
        (\<lambda>r. Ret (case r of
             None \<Rightarrow> Inl NoLogFile
           | Some n \<Rightarrow> Inr (if s_key st \<noteq> [] then SetSSHKey (s_key st) n else n))))"

definition Join_events :: "nat option list \<Rightarrow> event list" where
  \<comment> \<open>\<open>Join\<close>: for each address the connection, if it is made and the handshake sent\<close>
  "Join_events conns = concat (map (\<lambda>r. case r of Some c \<Rightarrow> [DialEv c] | None \<Rightarrow> []) conns)"

definition Run :: "bool \<Rightarrow> nat option list \<Rightarrow> event list option" where
  \<comment> \<open>\<open>None\<close> where the port cannot be opened; else the loop of \<open>Accept\<close>, which goes on after an error\<close>
  "Run listens accepted =
     (if listens then Some (concat (map (\<lambda>r. case r of Some c \<Rightarrow> [AcceptEv c] | None \<Rightarrow> []) accepted)) else None)"

section \<open>What is on the disk while the server runs\<close>

lemma capacity_ops [simp]:
  "capacity (fst (Save e m s)) = capacity s" "capacity (fst (UpdateMessage i t s)) = capacity s"
  "capacity (fst (DeleteMessage i s)) = capacity s" "capacity (fst (AddReaction i em u s)) = capacity s"
  "capacity (fst (CompactAOF c d p s)) = capacity s"
  by (simp_all add: Save_def UpdateMessage_def DeleteMessage_def AddReaction_def CompactAOF_def Let_def
      split: option.split prod.split)

definition healthy :: "node_env \<Rightarrow> bool" where
  \<comment> \<open>writing the files of the users and the channels works, and the clock shows a time that JSON can carry\<close>
  "healthy e = (ne_users e = no_faults \<and> ne_channels e = no_faults \<and> clean_instant (ne_now e))"

definition persists :: "node \<Rightarrow> bool" where
  \<comment> \<open>the files of the users and the channels hold what is in memory, and the store has the capacity the server gives it\<close>
  "persists n = (auth_durable (n_auth n) \<and> on_file (n_channels n) \<and> capacity (n_storage n) = 1024)"

lemma persists_manager:
  "healthy e \<Longrightarrow> persists n \<Longrightarrow> persists (n\<lparr>n_channels := fst (manager_call (ne_channels e, op) (n_channels n))\<rparr>)"
  by (simp add: persists_def healthy_def on_file_call)

lemma persists_join:
  "healthy e \<Longrightarrow> persists n \<Longrightarrow> persists (n\<lparr>n_channels := fst (Manager_Join (ne_channels e) ch u (n_channels n))\<rparr>)"
  using persists_manager [of e n "JoinOp ch u"] by simp

lemma durable_ops:
  assumes "auth_durable a" and "healthy e"
  shows "valid_utf8 st \<Longrightarrow> auth_durable (Auth_SetStatus (ne_users e) (ne_now e) u st a)"
    "Auth_Check A (ne_users e) (ne_now e) r u pw a = Ret (a', ok) \<Longrightarrow> auth_durable a'"
    "Auth_Register A (ne_users e) (ne_now e) r u pw a = Ret (a', ok) \<Longrightarrow> auth_durable a'"
proof -
  obtain v :: auth_env where v: "env_write v = ne_users e" "env_now v = ne_now e" "env_rnd v = r" using auth_env_of by blast
  then have c: "clean_call (v, CheckOp u pw)" "clean_call (v, RegisterOp u pw)" "valid_utf8 st \<Longrightarrow> clean_call (v, SetStatusOp u st)" for st
    using assms(2) by (simp_all add: healthy_def)
  show "valid_utf8 st \<Longrightarrow> auth_durable (Auth_SetStatus (ne_users e) (ne_now e) u st a)"
    using auth_durable_step [OF assms(1) c(3), of st A] v by (simp add: auth_step_def)
  show "Auth_Check A (ne_users e) (ne_now e) r u pw a = Ret (a', ok) \<Longrightarrow> auth_durable a'"
    using auth_durable_step [OF assms(1) c(1), of A] v by (simp add: auth_step_def)
  show "Auth_Register A (ne_users e) (ne_now e) r u pw a = Ret (a', ok) \<Longrightarrow> auth_durable a'"
    using auth_durable_step [OF assms(1) c(2), of A] v by (simp add: auth_step_def)
qed

lemma given_status_utf8: "given_status st \<Longrightarrow> valid_utf8 st"
  by (rule valid_utf8_ascii) (auto simp: given_status_def valid_statuses_def)

interpretation persisting: message_frame healthy "\<lambda>n n'. persists n \<longrightarrow> persists n'"
proof unfold_locales
  fix e st n m u
  assume "healthy e" and "given_status st" and "persists n \<longrightarrow> persists m"
  then show "persists n \<longrightarrow> persists (set_status e u st m)"
    using durable_ops(1) [of "n_auth m" e st u] given_status_utf8 by (simp add: persists_def set_status_def)
next
  fix e n m op
  assume "healthy e" and "persists n \<longrightarrow> persists m"
  then show "persists n \<longrightarrow> persists (m\<lparr>n_channels := fst (manager_call (ne_channels e, op) (n_channels m))\<rparr>)"
    using persists_manager by blast
qed (simp_all add: persists_def)

lemma persists_frame [simp]:
  "persists (set_phase c p n) = persists n" "persists (close_conn c n) = persists n" "persists (SendMessage c m n) = persists n"
  "persists (enqueue w m n) = persists n" "persists (deliver m n) = persists n" "persists (n\<lparr>n_mu := mu\<rparr>) = persists n"
  "persists (n\<lparr>peers := ps\<rparr>) = persists n" "persists (n\<lparr>peerIDs := pis\<rparr>) = persists n" "persists (n\<lparr>active_peers := k\<rparr>) = persists n"
  "persists (n\<lparr>ssh_pipe := q\<rparr>) = persists n" "persists (n\<lparr>ssh_conns := sc\<rparr>) = persists n" "persists (n\<lparr>ssh_open := so\<rparr>) = persists n"
  by (simp_all add: persists_def set_phase_def close_conn_def SendMessage_def enqueue_def)

lemma persists_sends [simp]: "persists (fold (SendMessage c) ms n) = persists n"
  by (induction ms arbitrary: n) simp_all

abbreviation lasting :: "node \<Rightarrow> node \<Rightarrow> bool" where
  "lasting n n' \<equiv> persists n \<longrightarrow> persists n'"

lemma lasting_first:
  assumes "free n" and "healthy e" and "persists n"
  shows "frames lasting n (handle_first L e d msg n)"
proof (cases "handle_first L e d msg n")
  case (Ret n')
  have a: "auth_durable (n_auth n)" "on_file (n_channels n)" "capacity (n_storage n) = 1024"
    using assms(3) by (simp_all add: persists_def)
  have put: "persists (n\<lparr>n_auth := b\<rparr>)" if "auth_durable b" for b using that a by (simp add: persists_def)
  from Ret assms(1) have "persists n'"
    by (cases rule: handle_first_cases) (auto simp: assms(3) intro: put durable_ops(2,3) [OF a(1) assms(2)])
  with Ret show ?thesis by simp
qed simp_all

lemma sends_auth [simp]:
  "n_auth (fold (SendMessage c) ms n) = n_auth n" "n_channels (fold (SendMessage c) ms n) = n_channels n"
  by (induction ms arbitrary: n) (simp_all add: SendMessage_def)

lemma lasting_peer:
  assumes "free n"
  shows "frames lasting n (peer_message L e c msg n)"
proof -
  have "\<exists>b n'. apply_peer L e c msg (n\<lparr>peers := mput c (ne_now e) (peers n)\<rparr>) = Ret (b, n') \<and> free n' \<and>
      n_auth n' = n_auth n \<and> n_channels n' = n_channels n \<and> capacity (n_storage n') = capacity (n_storage n)"
    using assms by (auto simp: apply_peer_def coordinator_def note_remote_def writing_free Let_def
        split: message_type.split option.split)
  with assms show ?thesis
    by (auto simp: peer_message_def writing_free free_unlock broadcastToClients_free persists_def)
qed

lemma lasting_step:
  assumes "free n" and "healthy e" and "persists n"
  shows "frames lasting n (node_step L e ev n)"
proof (cases ev)
  case (ClientEv d msg)
  then show ?thesis using persisting.frame_client [OF assms(1,2)] by simp
next
  case (FirstEv d msg)
  then show ?thesis using lasting_first [OF assms] by simp
next
  case (SshMsgEv d)
  let ?n = "n\<lparr>ssh_pipe := delete_first (\<lambda>(x, _). x = d) (ssh_pipe n)\<rparr>"
  have "frames lasting n (client_message L e d msg ?n)" for msg
    using persisting.frame_client [of ?n e L d msg] assms by (cases "client_message L e d msg ?n") simp_all
  then show ?thesis using SshMsgEv by (simp split: option.split)
next
  case (SshEv d u pw)
  have "persists (n\<lparr>n_auth := b\<rparr>)" if "Auth_Check (lib_argon L) (ne_users e) (ne_now e) (ne_salt e) u pw (n_auth n) = Ret (b, ok)" for b ok
    using durable_ops(2) [OF _ assms(2) that] assms(3) by (simp add: persists_def)
  then have "frames lasting n (obind (CheckAuth L e u pw n) (\<lambda>(ok, n). Ret (if ok then ssh_session e d u n else n)))"
    by (cases "Auth_Check (lib_argon L) (ne_users e) (ne_now e) (ne_salt e) u pw (n_auth n)")
      (auto simp: CheckAuth_def ssh_session_def intro: persists_join [of e "n\<lparr>n_auth := a\<rparr>" for a, simplified] assms(2) split: prod.split)
  then show ?thesis using SshEv by simp
next
  case (SshLineEv d t)
  then show ?thesis
    by (cases "ssh_content L e (sshKey n) t") (auto simp: ssh_line_def persists_def split: option.split)
next
  case (WelcomeEv d)
  have "frames lasting n (handle_welcome e d u n)" for u
    by (cases "GetRecentMessages 50 (n_storage n)") (auto simp: handle_welcome_def Let_def persists_join assms(2))
  then show ?thesis using WelcomeEv by (simp split: option.split phase.split)
next
  case (PumpEv d)
  then show ?thesis by (simp add: pump_def persists_def SendMessage_def split: option.split list.split)
next
  case (PeerEv d m)
  then show ?thesis using lasting_peer [OF assms(1)] by simp
qed (use assms in \<open>auto simp: persists_def handle_accept_def reading_free writing_free handle_register_def dial_peer_def
    peer_end_def monitor_def handle_client_end_def handle_unregister_def wlock_def wunlock_def handle_broadcast_def
    broadcastToClients_free broadcastToPeers_free heartbeat_def election_def InjectMessage_def ssh_end_def set_phase_def
    close_conn_def SendMessage_def Let_def split: option.split phase.split\<close>)

lemma persists_run:
  "node_inv n \<Longrightarrow> persists n \<Longrightarrow> list_all (\<lambda>(e, ev). healthy e) evs \<Longrightarrow> node_run L evs n = Ret n' \<Longrightarrow> node_inv n' \<and> persists n'"
proof (induction evs arbitrary: n)
  case (Cons x evs)
  obtain e ev where x: "x = (e, ev)" by (cases x)
  from Cons.prems(4) obtain n1 where n1: "node_step L e ev n = Ret n1" "node_run L evs n1 = Ret n'"
    by (auto simp: x obind_Ret_iff simp del: node_step.simps)
  have "node_inv n1" using node_inv_step [OF Cons.prems(1), of L e ev] n1(1) by simp
  moreover have "persists n1"
    using lasting_step [OF node_inv_free [OF Cons.prems(1)] _ Cons.prems(2), of e L ev] Cons.prems(2,3) n1(1)
    by (simp add: x del: node_step.simps)
  ultimately show ?case using Cons.IH Cons.prems(3) n1(2) by simp
qed simp

section \<open>Stopping and starting again\<close>

lemma Shutdown_free:
  assumes "free n"
  shows "Shutdown e n = Ret (n\<lparr>n_storage := Storage_Close (fst (CompactAOF (ne_compact e) ''.'' (port n) (n_storage n))),
    closed_conns := map fst (clients n) @ map fst (peers n) @ closed_conns n\<rparr>)"
  using assms by (cases n) (simp add: Shutdown_def wlock_def wunlock_def Let_def)

lemma shutdown_storage:
  assumes "storage_ok s" and "capacity s = 1024" and "list_all stable_msg (stored s)" and "ne_compact e = compact_ok"
  shows "\<exists>s1. NewStorage 1024 ''.'' p True (sto_disk (fst (CompactAOF (ne_compact e) ''.'' p s))) = Ret (Some s1) \<and>
    (let s2 = fst (LoadAOF True ''.'' p s1) in stored s2 = stored s \<and> storage_ok s2 \<and> capacity s2 = 1024)"
proof -
  obtain s' where c: "CompactAOF (ne_compact e) ''.'' p s = (s', True)"
    using encode_all_Some [OF assms(3)] assms(4) by (auto simp: CompactAOF_def compact_ok_def Let_def)
  obtain s1 where s1: "NewStorage (capacity s) ''.'' p True (sto_disk s') = Ret (Some s1)" and ok: "storage_ok s1" "capacity s1 = 1024"
    using assms(2) by (simp add: NewStorage_def storage_ok_def Let_def)
  have "storage_ok (fst (LoadAOF True ''.'' p s1))"
    using storage_ok_step [OF ok(1), of "LoadOp True ''.'' p"] by (simp add: store_step_def)
  moreover have "capacity (fst (LoadAOF True ''.'' p s1)) = 1024"
    using ok(2) by (simp add: LoadAOF_def Let_def split: option.split prod.split)
  ultimately show ?thesis
    using compaction_keeps_messages [OF c assms(3,1) s1] c s1 assms(2) by (auto simp: store_abs_def Let_def)
qed

lemma reload_auth:
  assumes "auth_durable a"
  shows "NewAuthenticator w now (auth_fs a) = \<lparr>users = users a, failedAttempts = [], dirty = False, auth_fs = auth_fs a\<rparr>"
proof (cases "users a")
  case Nil
  with assms show ?thesis by (simp add: NewAuthenticator_def Auth_load_def auth_durable_def)
next
  case (Cons x rest)
  obtain name p where x: "x = (name, p)" by (cases x)
  have "PasswordHash p \<noteq> []" using assms Cons x by (simp add: auth_durable_def clean_user_def)
  with assms Cons x show ?thesis by (simp add: NewAuthenticator_def Auth_load_def auth_durable_def)
qed

lemma reload_manager:
  "manager_durable m \<Longrightarrow> NewManager w now (mgr_fs m) = \<lparr>channels = channels m, mgr_fs = mgr_fs m\<rparr>"
  by (simp add: NewManager_def manager_durable_def)

text \<open>
  C6. A server that is stopped and started again has lost nothing. Let a node run, from a state in which the files of the
  users and the channels are up to date (a new node is in such a state), in any way in which these two files can be
  written and the clock shows times that JSON can carry. Then \<open>Shutdown\<close> returns, with all connections closed. If its
  compaction does not fail, if JSON carries the stored messages and the texts of the channels unchanged, and if the line
  of each message fits the scanner, then a node that starts on the files it leaves has the same messages (edits, deletions
  and reactions included), the same users, with their hashes, roles and statuses, and the same channels; nobody is locked
  out or connected; and it is again in a state in which all this, and the invariant of the node, holds.
\<close>

theorem restart_restores_node:
  assumes "node_inv n" and "persists n" and "list_all (\<lambda>(e, ev). healthy e) evs" and "node_run L evs n = Ret n1"
    and "ne_compact e = compact_ok" and "list_all stable_msg (stored (n_storage n1))"
    and "list_all (\<lambda>(name, ch). clean_channel ch) (channels (n_channels n1))"
  shows "\<exists>n2 n3. Shutdown e n1 = Ret n2 \<and> set (map fst (clients n1)) \<subseteq> set (closed_conns n2) \<and>
    NewNode e' (port n1) (sto_disk (n_storage n2)) (auth_fs (n_auth n2)) (mgr_fs (n_channels n2)) True = Ret (Some n3) \<and>
    stored (n_storage n3) = stored (n_storage n1) \<and> users (n_auth n3) = users (n_auth n1) \<and>
    failedAttempts (n_auth n3) = [] \<and> channels (n_channels n3) = channels (n_channels n1) \<and> clients n3 = [] \<and>
    node_inv n3 \<and> persists n3 \<and> manager_durable (n_channels n3)"
proof -
  have inv: "node_inv n1" and p: "auth_durable (n_auth n1)" "capacity (n_storage n1) = 1024" "on_file (n_channels n1)"
    using persists_run [OF assms(1-4)] by (simp_all add: persists_def)
  have ok: "storage_ok (n_storage n1)" "auth_ok (n_auth n1)" "manager_ok (n_channels n1)" using inv by (simp_all add: node_inv_def)
  have m: "manager_durable (n_channels n1)" using on_file_durable [OF ok(3)] p(3) assms(7) by simp
  obtain s1 where s1: "NewStorage 1024 ''.'' (port n1) True (sto_disk (fst (CompactAOF (ne_compact e) ''.'' (port n1) (n_storage n1)))) = Ret (Some s1)"
    and s2: "stored (fst (LoadAOF True ''.'' (port n1) s1)) = stored (n_storage n1)" "storage_ok (fst (LoadAOF True ''.'' (port n1) s1))"
      "capacity (fst (LoadAOF True ''.'' (port n1) s1)) = 1024"
    using shutdown_storage [OF ok(1) p(2) assms(6,5)] unfolding Let_def by blast
  obtain n3 where n3: "NewNode e' (port n1) (sto_disk (fst (CompactAOF (ne_compact e) ''.'' (port n1) (n_storage n1))))
      (auth_fs (n_auth n1)) (mgr_fs (n_channels n1)) True = Ret (Some n3)"
    "n_storage n3 = fst (LoadAOF True ''.'' (port n1) s1)"
    "n_auth n3 = \<lparr>users = users (n_auth n1), failedAttempts = [], dirty = False, auth_fs = auth_fs (n_auth n1)\<rparr>"
    "n_channels n3 = \<lparr>channels = channels (n_channels n1), mgr_fs = mgr_fs (n_channels n1)\<rparr>"
    "clients n3 = []" "phases n3 = []" "n_mu n3 = Readers 0" "connected_clients n3 = 0" "\<not> isLeader n3"
    using s1 reload_auth [OF p(1)] reload_manager [OF m] by (simp add: NewNode_def)
  have "node_inv n3" "persists n3" "manager_durable (n_channels n3)"
    using n3 s2 ok p m by (simp_all add: node_inv_def on_file_def persists_def conns_ok_def mkeys_distinct_def phase_ok_def live_def
        auth_ok_def manager_ok_def auth_durable_def manager_durable_def)
  then show ?thesis using n3 s2
    by (auto simp: Shutdown_free [OF node_inv_free [OF inv]] Storage_Close_def)
qed

lemma fresh_node:
  assumes "clean_time (ne_now e)" and "ne_channels e = no_faults"
  shows "\<exists>n. NewNode e p [] [] [] True = Ret (Some n) \<and> node_inv n \<and> persists n \<and> manager_durable (n_channels n) \<and>
    stored (n_storage n) = [] \<and> n_auth n = empty_auth \<and> clients n = [] \<and> peers n = [] \<and> phases n = []"
proof -
  have a: "NewAuthenticator w now [] = empty_auth" for w now
    by (simp add: NewAuthenticator_def Auth_load_def empty_auth_state)
  have m: "manager_durable (NewManager (ne_channels e) (ne_now e) [])"
    using durable_NewManager [OF assms(1), of "[]"] assms(2) by (simp add: Manager_load_def)
  have mo: "manager_ok (NewManager (ne_channels e) (ne_now e) [])"
    by (simp add: NewManager_def Manager_load_def manager_ok_def channel_ok_def general_channel_def mkeys_distinct_def
        mhas_def ValidateChannelName_def channel_name_char_def)
  have load: "LoadAOF True ''.'' p s = (s\<lparr>allMsgs := [], messages := []\<rparr>, True)"
    if "mget (sto_disk s) (aof_name ''.'' p) = Some empty_file" for s
    using that by (simp add: LoadAOF_def file_lines_def empty_file_def index_channels_def Let_def)
  have f: "on_file (NewManager (ne_channels e) (ne_now e) [])" using on_file_durable [OF mo] m by simp
  show ?thesis
    using a m mo f by (simp add: NewNode_def NewStorage_def load node_inv_def conns_ok_def mkeys_distinct_def phase_ok_def live_def
        storage_ok_def view_def persists_def auth_durable_empty auth_ok_def mhas_def Let_def)
qed

theorem restart_restores_node_witness:
  "\<exists>n evs n1 n2 n3. NewNode demo_env 8000 [] [] [] True = Ret (Some n) \<and> node_run demo_lib evs n = Ret n1 \<and>
     map fst (users (n_auth n1)) = [''carol''] \<and> Shutdown demo_env n1 = Ret n2 \<and>
     NewNode demo_env 8000 (sto_disk (n_storage n2)) (auth_fs (n_auth n2)) (mgr_fs (n_channels n2)) True = Ret (Some n3) \<and>
     users (n_auth n3) = users (n_auth n1)"
proof -
  have env: "clean_time (ne_now demo_env)" "ne_channels demo_env = no_faults" "ne_compact demo_env = compact_ok" "healthy demo_env"
    "ne_salt demo_env = Some ''0123456789abcdef''"
    by (simp_all add: healthy_def)
      (simp_all add: demo_env_def clean_instant_def encodable_time_def coerce_time_def minute_offset_def zero_time_def Let_def)
  obtain n where n: "NewNode demo_env 8000 [] [] [] True = Ret (Some n)" "node_inv n" "persists n" "manager_durable (n_channels n)"
    "stored (n_storage n) = []" "n_auth n = empty_auth" "clients n = []" "peers n = []" "phases n = []"
    using fresh_node [OF env(1,2), of 8000] by blast
  let ?m = "no_message\<lparr>Type := MsgTypeRegister, Content := ''carol:pass''\<rparr>"
  let ?evs = "[(demo_env, AcceptEv 4), (demo_env, FirstEv 4 ?m)]"
  have u: "ValidateUsername ''carol''" "\<not> mhas (users empty_auth) ''carol''"
    by (simp_all add: ValidateUsername_def username_char_def mhas_def empty_auth_state)
  obtain a where a: "Auth_Register (lib_argon demo_lib) (ne_users demo_env) (ne_now demo_env) (ne_salt demo_env) ''carol'' ''pass'' empty_auth = Ret (a, True)"
    using Auth_Register_new [OF demo_argon u(1) _ u(2), of "''pass''" "ne_users demo_env" "ne_now demo_env"] env(5) by auto
  have carol: "map fst (users a) = [''carol'']"
    using a u by (auto simp: Auth_Register_def obind_Ret_iff empty_auth_state Let_def split: option.splits)
  let ?g = "set_phase 4 Greeting n"
  let ?n1 = "close_conn 4 (SendMessage 4 (auth_result ''OK_REGISTERED'') (?g\<lparr>n_auth := a\<rparr>))"
  have "node_step demo_lib demo_env (AcceptEv 4) n = Ret ?g"
    using n by (intro accept_step) (simp_all add: node_inv_def)
  moreover have "node_step demo_lib demo_env (FirstEv 4 ?m) ?g = Ret ?n1"
    using register_step [of 4 ?g ?m "''carol''" "''pass''" demo_lib demo_env a True] a n(6)
    by (simp add: in_phase_def set_phase_def ParseCredentials_def SplitN2_def)
  ultimately have run: "node_run demo_lib ?evs n = Ret ?n1" by (simp del: node_step.simps)
  have p: "port ?n1 = 8000" "stored (n_storage ?n1) = []" "list_all (\<lambda>(name, ch). clean_channel ch) (channels (n_channels ?n1))"
    "n_auth ?n1 = a"
    using n(1,5) on_file_durable [of "n_channels n"] n(2,4) by (auto simp: node_inv_def close_conn_def set_phase_def SendMessage_def NewNode_def obind_Ret_iff split: option.splits)
  have "list_all (\<lambda>(e, ev). healthy e) ?evs" using env(4) by simp
  from restart_restores_node [OF n(2,3) this run env(3) _ p(3), of demo_env] p obtain n2 n3 where
    "Shutdown demo_env ?n1 = Ret n2"
    "NewNode demo_env 8000 (sto_disk (n_storage n2)) (auth_fs (n_auth n2)) (mgr_fs (n_channels n2)) True = Ret (Some n3)"
    "users (n_auth n3) = users (n_auth ?n1)" by auto
  then show ?thesis using n(1) run carol p(4)
    by (intro exI [of _ n] exI [of _ ?evs] exI [of _ ?n1] exI [of _ n2] exI [of _ n3]) simp
qed

end
