(* ===== verification/Spec2Isabelle.thy ===== *)
theory Spec2Isabelle
  imports Api Server
begin

text \<open>
  A distributed chat server in Go with its clients, module \<open>distributed-chat\<close>.

  \<^bold>\<open>The program.\<close> A server process is one node. TCP clients log in or register and then send messages and slash
  commands; SSH sessions are clients that log in by their password; a REST interface posts messages and reads history;
  other nodes connect as peers, exchange heartbeats, elect a leader and relay messages. The node keeps messages in
  memory and in an append-only file, users and channels in JSON files. Every goroutine of a connection hands messages
  to one event loop, which saves them, puts them into the bounded queues of the clients they are for, and relays them
  to the peers. A command line client and a terminal client show what arrives and send what is typed, encrypted under
  a key where one is set.

  \<^bold>\<open>Theories and code.\<close>
  \<^item> \<open>Prelude\<close>: Go maps as association lists, \<open>outcome\<close> (return, panic, block for ever), integers of 64 bits, the
    locales \<open>invariant_machine\<close> and \<open>outcome_machine\<close> for components whose operations keep an invariant.
    \<open>GoStrings\<close>, \<open>GoNumbers\<close>, \<open>Base64\<close>, \<open>Float64\<close>: the parts of Go's library the program uses (strings as bytes,
    fields and trimming, runes, decimal and hexadecimal numbers, times, base64, rounding to float64).
  \<^item> \<open>Protocol\<close>: \<open>internal/protocol\<close>, messages and what sending one does to it. \<open>FileUtil\<close>: \<open>internal/fileutil\<close>, with
    the states a crash can leave. \<open>Argon2\<close>: the documented contract of the hash function, a parameter.
  \<^item> \<open>RateLimit\<close>: \<open>internal/ratelimit\<close>. \<open>ChannelManager\<close>: \<open>internal/channel\<close>, with its abstract specification.
    \<open>Auth\<close>: \<open>internal/auth\<close>. \<open>Crypto\<close>: \<open>internal/crypto\<close>, the cipher as a parameter with its contract.
  \<^item> \<open>MessageStore\<close>: \<open>internal/storage\<close>, both indexes and the shared maps of reactions in a heap; \<open>StoreSpec\<close>: the
    abstract store and the refinement; \<open>StoreDisk\<close>: pages, search, the file, loading and compaction.
  \<^item> \<open>Node\<close>, \<open>Commands\<close>, \<open>Peer\<close>, \<open>SshBridge\<close>: \<open>internal/node\<close> (\<open>node.go\<close> and \<open>client.go\<close>; \<open>commands.go\<close>; \<open>peer.go\<close>;
    \<open>ssh_bridge.go\<close> with \<open>internal/ssh\<close>). \<open>NodeSteps\<close>: events, \<open>node_step\<close> and runs. \<open>NodeDemo\<close>: a small concrete
    node for the witnesses.
  \<^item> \<open>NodeSystem\<close>: every step returns, panics, or is the one that deadlocks. \<open>NodeInv\<close>: the invariant of the node.
    \<open>NodeFrame\<close>: locales for what a command or a run cannot change, interpreted on the node in the theories after it.
    \<open>NodeDelivery\<close>: what becomes of a message, whose messages a command changes. \<open>NodeLife\<close>: the state machine of a
    connection, and that a session takes a login. \<open>NodeQueue\<close>: the order in which a connection is written to.
    \<open>NodeGaps\<close>: what the node allows and should not. \<open>Election\<close>: peers and leaders. \<open>SshText\<close>: encrypted lines of
    SSH sessions. \<open>Metrics\<close>: \<open>internal/metrics\<close>, what is reported.
  \<^item> \<open>Api\<close>: \<open>internal/api\<close>. \<open>Tui\<close>: the model and \<open>Update\<close> of \<open>internal/tui\<close>; \<open>TuiView\<close>: what it draws; \<open>TuiInv\<close>: its
    invariant and the tabulator key; \<open>TuiServer\<close>: terminal client and server together. \<open>Client\<close>: \<open>cmd/client\<close>.
    \<open>Programs\<close>: how the programs join the server (\<open>main\<close> of \<open>cmd/client\<close>, \<open>cmd/tui\<close> and \<open>cmd/stress\<close>). \<open>Server\<close>:
    \<open>cmd/server\<close>, \<open>Node.Run\<close> and \<open>Node.Shutdown\<close>, and what a restart keeps.

  \<^bold>\<open>State and operations.\<close> A struct is a record with the fields of the source (\<open>node\<close>, \<open>storage\<close>, \<open>authenticator\<close>,
  \<open>manager\<close>, \<open>limiter\<close>, \<open>tui\<close>), a function or method is a definition of its name where that is free, with the state as
  last argument and in the result. A handler that waits in the middle is cut into definitions at these points; a
  \<open>node_step\<close> is what one goroutine does from one such point to the next, and a run is any sequence of steps. Clocks,
  random bytes, the answers of the file system and the environment are arguments (\<open>node_env\<close> and the \<open>write_env\<close>s), and
  theorems hold for all of them unless they say otherwise. The key derivation, the cipher, lower case beyond ASCII,
  decoding a list of strings from JSON and the terminal library are parameters (\<open>node_lib\<close>, \<open>tui_lib\<close>, \<open>lipgloss\<close>);
  contracts of the first two are named (\<open>argon2_ok\<close>, \<open>gcm_ok\<close>), with a concrete function that meets each.

  \<^bold>\<open>What is shown.\<close> Invariants of the channel manager, the authenticator, the store, the node and the terminal client,
  by the locales of \<open>Prelude\<close>; refinement of abstract specifications by the channel manager and the store, and of the
  state machine of a connection by the node; round trips (encryption, password hashes, both JSON files, the log,
  compaction, stopping and starting the server, signing up, text from one client to another); that a session takes a
  login the authenticator accepted; bounds (rate limit under float64, store capacity, queues, pages, failed logins); who
  gets a message, that what is queued is written in order, and whose messages a step can change; termination of every
  step but one; and a series of theorems on what goes wrong: each is a property of the model as written, with a concrete
  witness.

  \<^bold>\<open>Bounds.\<close> There is no fuel: all functions terminate. Integers wrap at 64 bits where the code computes with values
  from outside (pages, durations, the hash of a sender's colour); lengths and counters that cannot reach that are
  unbounded. A client's queue holds 256 messages, a node accepts 550 connections.

  \<^bold>\<open>Not modelled.\<close> TLS, sockets and errors of writing to a connection; the text of JSON, apart from its size in the log
  and the health reply; data races within one step (a queue closed while another goroutine sends on it); the HTTP and
  SSH servers, the registry of metrics and the package that parses flags, all libraries; the addresses of connections;
  texts of system errors; files changed by hand into JSON of another shape; in which order two messages relayed to the
  same peer arrive; the welcome text of SSH sessions. The import blocks and the calls that print to the log have no counterpart.
\<close>

end
